(* ===== verification/Prelude.thy ===== *)
theory Prelude
  imports Main "HOL-Library.AList" "HOL-Library.Multiset" "HOL-Library.Sublist"
    "HOL-Library.Word" "HOL-Library.Char_ord" "HOL-Library.List_Lexorder"
begin

text \<open>
  Shared vocabulary of the development: the types that stand for Go's basic types, Go maps
  as association lists, outcomes of code that may panic, durations as 64-bit words, and the
  reachable states of a step relation with the invariant rule as a locale.

  A Go \<open>string\<close> or \<open>[]byte\<close> is a char list, one char per byte.  A \<open>time.Time\<close> is
  the \<open>int\<close> of nanoseconds since a fixed epoch.  A \<open>time.Duration\<close> is a
  \<open>64 word\<close>, read as a signed number, since Go's is an int64 that wraps around.
\<close>

section \<open>Named collections\<close>

named_theorems consts_simps \<open>the string constants of the domain package\<close>
named_theorems model_simps \<open>unfolding rules of the operations of a component\<close>
named_theorems frame_simps \<open>fields that an operation leaves alone\<close>

section \<open>Basic types\<close>

type_synonym bytes = string
type_synonym time = int
type_synonym duration = "64 word"
type_synonym 'v gomap = "(string \<times> 'v) list"

text \<open>Code that may panic: a nil dereference, a send on a closed channel.\<close>

datatype 'a outcome = Panic string | Ret 'a

fun is_panic :: "'a outcome \<Rightarrow> bool" where
  "is_panic (Panic _) = True"
| "is_panic (Ret _) = False"

text \<open>\<open>time.Duration(n) * time.Millisecond\<close>, with int64 wrap-around.\<close>

definition millis :: "int \<Rightarrow> duration" where
  "millis n = of_int n * 1000000"

definition seconds :: "int \<Rightarrow> duration" where
  "seconds n = of_int n * 1000000000"

definition minutes :: "int \<Rightarrow> duration" where
  "minutes n = of_int n * 60000000000"

text \<open>A product of in-range factors does not wrap.\<close>

lemma sint_of_int_in_range:
  "- (2 ^ 63) \<le> n \<Longrightarrow> n < 2 ^ 63 \<Longrightarrow> sint (of_int n :: 64 word) = n"
  by (simp add: signed_take_bit_int_eq_self_iff signed_of_int)

lemma sint_scaled:
  assumes "0 \<le> n" and "n * k < 2 ^ 63" and "0 \<le> k"
  shows "sint (of_int n * of_int k :: 64 word) = n * k"
proof -
  have "(of_int n * of_int k :: 64 word) = of_int (n * k)" by simp
  moreover have "- (2 ^ 63) \<le> n * k" using assms(1,3)
    by (meson mult_nonneg_nonneg neg_le_0_iff_le order_trans zero_le_numeral zero_le_power)
  ultimately show ?thesis using sint_of_int_in_range assms(2) by metis
qed

lemma sint_millis:
  "0 \<le> n \<Longrightarrow> n * 1000000 < 2 ^ 63 \<Longrightarrow> sint (millis n) = n * 1000000"
  using sint_scaled [of n 1000000] by (simp add: millis_def)

lemma sint_minutes:
  "0 \<le> n \<Longrightarrow> n * 60000000000 < 2 ^ 63 \<Longrightarrow> sint (minutes n) = n * 60000000000"
  using sint_scaled [of n 60000000000] by (simp add: minutes_def)

text \<open>Splitting off the first index of a bounded range.\<close>

lemma all_le_Suc: "(\<forall>i \<le> Suc n. P i) \<longleftrightarrow> P 0 \<and> (\<forall>i \<le> n. P (Suc i))"
  by (metis Suc_le_mono le0 not0_implies_Suc)

lemma subseq_set: "subseq xs ys \<Longrightarrow> set xs \<subseteq> set ys"
  by (induction rule: list_emb.induct) auto

section \<open>Go maps\<close>

text \<open>
  A Go map is an association list with distinct keys.  Go does not fix the order in which a
  map is ranged over; where the order could be seen, the model takes it as a parameter.
\<close>

abbreviation go_get :: "('k \<times> 'v) list \<Rightarrow> 'k \<Rightarrow> 'v option" where
  "go_get m k \<equiv> map_of m k"

abbreviation go_put :: "'k \<Rightarrow> 'v \<Rightarrow> ('k \<times> 'v) list \<Rightarrow> ('k \<times> 'v) list" where
  "go_put k v m \<equiv> AList.update k v m"

abbreviation go_del :: "'k \<Rightarrow> ('k \<times> 'v) list \<Rightarrow> ('k \<times> 'v) list" where
  "go_del k m \<equiv> AList.delete k m"

definition map_ok :: "('k \<times> 'v) list \<Rightarrow> bool" where
  "map_ok m \<longleftrightarrow> distinct (map fst m)"

lemma map_ok_Nil [simp]: "map_ok []"
  by (simp add: map_ok_def)

lemma map_ok_put [simp]: "map_ok m \<Longrightarrow> map_ok (go_put k v m)"
  by (simp add: map_ok_def distinct_update)

lemma map_ok_del [simp]: "map_ok m \<Longrightarrow> map_ok (go_del k m)"
  by (simp add: map_ok_def distinct_delete)

lemma get_put: "go_get (go_put k v m) x = (if x = k then Some v else go_get m x)"
  by (simp add: update_conv')

lemma get_del: "go_get (go_del k m) x = (if x = k then None else go_get m x)"
  by (simp add: delete_conv')

lemma put_neq_Nil [simp]: "go_put k v m \<noteq> []"
  by (cases m) auto

lemma get_in_set: "map_ok m \<Longrightarrow> go_get m k = Some v \<longleftrightarrow> (k, v) \<in> set m"
  by (simp add: map_ok_def)

lemma put_image_fst: "fst ` set (go_put k v m) = insert k (fst ` set m)"
  by (simp add: dom_update)

lemma set_put_subset: "set (go_put k v m) \<subseteq> insert (k, v) (set m)"
  by (induction m) auto

text \<open>Copying every entry of one map into another, \<open>for k, v := range extra\<close>.\<close>

fun put_all :: "('k \<times> 'v) list \<Rightarrow> ('k \<times> 'v) list \<Rightarrow> ('k \<times> 'v) list" where
  "put_all base [] = base"
| "put_all base ((k, v) # extra) = put_all (go_put k v base) extra"

lemma map_ok_put_all [simp]: "map_ok base \<Longrightarrow> map_ok (put_all base extra)"
  by (induction base extra rule: put_all.induct) auto

lemma get_put_all:
  "map_ok extra \<Longrightarrow> go_get (put_all base extra) x =
     (case go_get extra x of Some v \<Rightarrow> Some v | None \<Rightarrow> go_get base x)"
proof (induction base extra rule: put_all.induct)
  case (2 base k v extra)
  have "map_ok extra" and new: "k \<notin> fst ` set extra"
    using "2.prems" by (auto simp: map_ok_def)
  with "2.IH" have "go_get (put_all (go_put k v base) extra) x =
      (case go_get extra x of Some v \<Rightarrow> Some v | None \<Rightarrow> go_get (go_put k v base) x)"
    by simp
  moreover have "go_get extra k = None"
    using new by (simp add: map_of_eq_None_iff)
  ultimately show ?case by (auto simp: get_put split: option.splits)
qed simp

section \<open>Reachable states and invariants\<close>

inductive reach :: "('s \<Rightarrow> bool) \<Rightarrow> ('s \<Rightarrow> 's \<Rightarrow> bool) \<Rightarrow> 's \<Rightarrow> bool"
  for init :: "'s \<Rightarrow> bool" and step :: "'s \<Rightarrow> 's \<Rightarrow> bool" where
  reach_init: "init s \<Longrightarrow> reach init step s"
| reach_step: "reach init step s \<Longrightarrow> step s t \<Longrightarrow> reach init step t"

locale invariant_system =
  fixes init :: "'s \<Rightarrow> bool" and step :: "'s \<Rightarrow> 's \<Rightarrow> bool" and inv :: "'s \<Rightarrow> bool"
  assumes inv_init: "init s \<Longrightarrow> inv s"
    and inv_step: "inv s \<Longrightarrow> step s t \<Longrightarrow> inv t"
begin

lemma reach_inv: "reach init step s \<Longrightarrow> inv s"
  by (induction rule: reach.induct) (auto intro: inv_init inv_step)

end

end
