(* ===== verification/GoStrings.thy ===== *)
theory GoStrings
  imports Prelude
begin

text \<open>
  The functions of Go's \<open>strings\<close> and \<open>strconv\<close> packages that the gateway uses, on
  byte strings: \<open>HasPrefix\<close>, \<open>HasSuffix\<close>, \<open>TrimSuffix\<close>, \<open>Index\<close>,
  \<open>Contains\<close>, \<open>TrimSpace\<close>, \<open>Fields\<close>, \<open>ToLower\<close>, \<open>Atoi\<close> and the \<open>%d\<close> verb.
  White space is \<open>unicode.IsSpace\<close>: a space character is matched as its UTF-8 byte
  sequence, which is exact because UTF-8 is self-synchronising (none of the sequences starts
  with a continuation byte, so none can match inside another character).
\<close>

section \<open>Prefixes, suffixes, search\<close>

abbreviation CR :: char where "CR \<equiv> CHR 0x0D"

abbreviation has_prefix :: "string \<Rightarrow> string \<Rightarrow> bool" where
  "has_prefix s p \<equiv> prefix p s"

abbreviation has_suffix :: "string \<Rightarrow> string \<Rightarrow> bool" where
  "has_suffix s p \<equiv> suffix p s"

definition trim_suffix :: "string \<Rightarrow> string \<Rightarrow> string" where
  "trim_suffix s p = (if has_suffix s p then take (length s - length p) s else s)"

lemma trim_suffix_append [simp]: "trim_suffix (b @ p) p = b"
  by (simp add: trim_suffix_def suffix_def)

text \<open>\<open>strings.Index\<close>: the first position of \<open>pat\<close> in \<open>s\<close>; Go's \<open>-1\<close> is \<open>None\<close>.\<close>

fun str_index :: "string \<Rightarrow> string \<Rightarrow> nat option" where
  "str_index pat [] = (if pat = [] then Some 0 else None)"
| "str_index pat (c # s) =
     (if prefix pat (c # s) then Some 0 else map_option Suc (str_index pat s))"

definition contains :: "string \<Rightarrow> string \<Rightarrow> bool" where
  "contains s pat \<longleftrightarrow> str_index pat s \<noteq> None"

lemma str_index_Some:
  "str_index pat s = Some i \<Longrightarrow> i \<le> length s \<and> prefix pat (drop i s)"
  by (induction s arbitrary: i) (auto split: if_splits)

lemma str_index_least:
  "str_index pat s = Some i \<Longrightarrow> j < i \<Longrightarrow> \<not> prefix pat (drop j s)"
proof (induction s arbitrary: i j)
  case (Cons c s)
  then show ?case by (cases j) (auto split: if_splits)
qed (auto split: if_splits)

lemma str_index_None:
  "str_index pat s = None \<longleftrightarrow> (\<forall>i \<le> length s. \<not> prefix pat (drop i s))"
proof (induction s)
  case (Cons c s)
  have "(\<forall>i \<le> length (c # s). \<not> prefix pat (drop i (c # s))) \<longleftrightarrow>
      \<not> prefix pat (c # s) \<and> (\<forall>i \<le> length s. \<not> prefix pat (drop i s))"
    using all_le_Suc [of "length s" "\<lambda>i. \<not> prefix pat (drop i (c # s))"] by simp
  with Cons.IH show ?case by simp
qed simp

lemma contains_iff_sublist: "contains s pat \<longleftrightarrow> sublist pat s"
proof
  assume "contains s pat"
  then obtain i where "prefix pat (drop i s)"
    unfolding contains_def using str_index_Some by blast
  then show "sublist pat s"
    by (metis append_take_drop_id prefix_def sublist_appendI)
next
  assume "sublist pat s"
  then obtain u v where "s = u @ pat @ v" by (auto simp: sublist_def)
  then have "length u \<le> length s \<and> prefix pat (drop (length u) s)" by simp
  then show "contains s pat" unfolding contains_def str_index_None by blast
qed

lemma str_index_skip:
  "\<forall>i < length u. \<not> prefix pat (drop i (u @ pat @ v)) \<Longrightarrow>
     str_index pat (u @ pat @ v) = Some (length u)"
proof (induction u)
  case Nil
  have "prefix pat (pat @ v)" by simp
  then show ?case by (cases "pat @ v") simp_all
next
  case (Cons c u)
  have "\<not> prefix pat (c # u @ pat @ v)" using Cons.prems by force
  moreover have "\<forall>i < length u. \<not> prefix pat (drop i (u @ pat @ v))"
    using Cons.prems by auto
  ultimately show ?case using Cons.IH by simp
qed

section \<open>White space\<close>

definition space_runes :: "string list" where
  "space_runes =
     [[CHR 0x09], [CHR 0x0A], [CHR 0x0B], [CHR 0x0C], [CHR 0x0D], [CHR 0x20],
      [CHR 0xC2, CHR 0x85], [CHR 0xC2, CHR 0xA0], [CHR 0xE1, CHR 0x9A, CHR 0x80],
      [CHR 0xE2, CHR 0x80, CHR 0x80], [CHR 0xE2, CHR 0x80, CHR 0x81],
      [CHR 0xE2, CHR 0x80, CHR 0x82], [CHR 0xE2, CHR 0x80, CHR 0x83],
      [CHR 0xE2, CHR 0x80, CHR 0x84], [CHR 0xE2, CHR 0x80, CHR 0x85],
      [CHR 0xE2, CHR 0x80, CHR 0x86], [CHR 0xE2, CHR 0x80, CHR 0x87],
      [CHR 0xE2, CHR 0x80, CHR 0x88], [CHR 0xE2, CHR 0x80, CHR 0x89],
      [CHR 0xE2, CHR 0x80, CHR 0x8A], [CHR 0xE2, CHR 0x80, CHR 0xA8],
      [CHR 0xE2, CHR 0x80, CHR 0xA9], [CHR 0xE2, CHR 0x80, CHR 0xAF],
      [CHR 0xE2, CHR 0x81, CHR 0x9F], [CHR 0xE3, CHR 0x80, CHR 0x80]]"

text \<open>How many bytes of \<open>s\<close> the sequence of \<open>ps\<close> it starts with takes, 0 if none.\<close>

fun match_len :: "string list \<Rightarrow> string \<Rightarrow> nat" where
  "match_len [] s = 0"
| "match_len (p # ps) s = (if p \<noteq> [] \<and> prefix p s then length p else match_len ps s)"

lemma match_len_le: "match_len ps s \<le> length s"
  by (induction ps s rule: match_len.induct) (auto dest: prefix_length_le)

lemma match_len_Nil [simp]: "match_len ps [] = 0"
  using match_len_le [of ps "[]"] by simp

lemma match_len_0: "match_len ps s = 0 \<longleftrightarrow> (\<forall>p \<in> set ps. p \<noteq> [] \<longrightarrow> \<not> prefix p s)"
  by (induction ps s rule: match_len.induct) auto

lemma match_len_0_prefix:
  "match_len ps (s @ t) = 0 \<Longrightarrow> match_len ps s = 0"
  by (auto simp: match_len_0)

text \<open>Dropping the longest run of such sequences at the front.\<close>

function strip_front :: "string list \<Rightarrow> string \<Rightarrow> string" where
  "strip_front ps s =
     (if match_len ps s = 0 then s else strip_front ps (drop (match_len ps s) s))"
  by pat_completeness auto
termination
proof (relation "measure (\<lambda>(ps, s). length s)", goal_cases)
  case (2 ps s)
  then show ?case using match_len_le [of ps s] by (cases s) auto
qed simp

declare strip_front.simps [simp del]

lemma strip_front_fix: "match_len ps s = 0 \<Longrightarrow> strip_front ps s = s"
  by (subst strip_front.simps) simp

lemma strip_front_Nil [simp]: "strip_front ps [] = []"
  by (rule strip_front_fix) simp

lemma match_len_strip_front [simp]: "match_len ps (strip_front ps s) = 0"
proof (induction ps s rule: strip_front.induct)
  case (1 ps s)
  then show ?case by (cases "match_len ps s = 0") (simp_all add: strip_front.simps [of ps s])
qed

lemma strip_front_idem [simp]: "strip_front ps (strip_front ps s) = strip_front ps s"
  by (simp add: strip_front_fix)

lemma suffix_strip_front: "suffix (strip_front ps s) s"
proof (induction ps s rule: strip_front.induct)
  case (1 ps s)
  show ?case
  proof (cases "match_len ps s = 0")
    case True
    then show ?thesis by (simp add: strip_front_fix)
  next
    case False
    then have "strip_front ps s = strip_front ps (drop (match_len ps s) s)"
      by (subst strip_front.simps) simp
    with 1 False show ?thesis by (metis suffix_drop suffix_order.trans)
  qed
qed

text \<open>\<open>strings.TrimSpace\<close>: space is stripped from the front, then from the end.\<close>

definition trim_left :: "string \<Rightarrow> string" where
  "trim_left s = strip_front space_runes s"

definition trim_right :: "string \<Rightarrow> string" where
  "trim_right s = rev (strip_front (map rev space_runes) (rev s))"

definition trim_space :: "string \<Rightarrow> string" where
  "trim_space s = trim_right (trim_left s)"

definition trimmed :: "string \<Rightarrow> bool" where
  "trimmed s \<longleftrightarrow> match_len space_runes s = 0 \<and> match_len (map rev space_runes) (rev s) = 0"

lemma prefix_trim_right: "prefix (trim_right s) s"
  using suffix_strip_front [of "map rev space_runes" "rev s"]
  by (simp add: trim_right_def suffix_to_prefix)

lemma trim_space_trimmed: "trimmed (trim_space s)"
proof -
  obtain t where "trim_left s = trim_space s @ t"
    using prefix_trim_right [of "trim_left s"] by (auto simp: trim_space_def prefix_def)
  then have "match_len space_runes (trim_space s @ t) = 0"
    by (metis match_len_strip_front trim_left_def)
  then have "match_len space_runes (trim_space s) = 0" by (rule match_len_0_prefix)
  then show ?thesis by (simp add: trimmed_def trim_space_def trim_right_def)
qed

lemma trim_space_fix: "trimmed s \<Longrightarrow> trim_space s = s"
  by (simp add: trimmed_def trim_space_def trim_right_def trim_left_def strip_front_fix)

lemma trim_space_idem [simp]: "trim_space (trim_space s) = trim_space s"
  by (simp add: trim_space_fix trim_space_trimmed)

lemma trimmed_iff: "trimmed s \<longleftrightarrow> trim_space s = s"
  by (metis trim_space_fix trim_space_trimmed)

text \<open>A frame that is trimmed but for its carriage return.\<close>

lemma match_len_CR: "match_len (map rev space_runes) (CR # s) = 1"
  by (simp add: space_runes_def)

lemma strip_front_CR:
  "strip_front (map rev space_runes) (CR # s) = strip_front (map rev space_runes) s"
  by (subst strip_front.simps) (simp add: match_len_CR)

lemma trim_space_CR:
  assumes "trimmed s" and "s \<noteq> []"
  shows "trim_space (s @ [CR]) = s"
proof -
  have r: "match_len (map rev space_runes) (rev s) = 0"
    and l: "match_len space_runes s = 0"
    using assms(1) by (simp_all add: trimmed_def)
  obtain c t where s: "s = c # t" using assms(2) by (cases s) auto
  have "match_len space_runes (s @ [CR]) = 0"
    unfolding match_len_0
  proof (intro ballI impI notI)
    fix p assume p: "p \<in> set space_runes" "p \<noteq> []" "prefix p (s @ [CR])"
    have "\<not> prefix p s" using l p(1,2) by (simp add: match_len_0)
    with p(3) have "p = s @ [CR]" by (auto simp: prefix_append prefix_Cons)
    with p(1) s show False by (auto simp: space_runes_def Cons_eq_append_conv)
  qed
  then have "trim_left (s @ [CR]) = s @ [CR]" by (simp add: trim_left_def strip_front_fix)
  then show ?thesis
    by (simp add: trim_space_def trim_right_def strip_front_CR strip_front_fix r)
qed

text \<open>\<open>strings.Fields\<close>: the maximal runs of bytes that are not white space.\<close>

function fields_from :: "string \<Rightarrow> string \<Rightarrow> string list" where
  "fields_from cur [] = (if cur = [] then [] else [cur])"
| "fields_from cur (c # s) =
     (let n = match_len space_runes (c # s)
      in if n = 0 then fields_from (cur @ [c]) s
         else (if cur = [] then [] else [cur]) @ fields_from [] (drop n (c # s)))"
  by pat_completeness auto
termination
proof (relation "measure (\<lambda>(cur, s). length s)", goal_cases)
  case (3 cur c s n)
  then show ?case using match_len_le [of space_runes "c # s"] by auto
qed simp_all

definition str_fields :: "string \<Rightarrow> string list" where
  "str_fields s = fields_from [] s"

lemma fields_from_nonempty: "[] \<notin> set (fields_from cur s)"
proof (induction cur s rule: fields_from.induct)
  case (2 cur c s)
  then show ?case by (cases "match_len space_runes (c # s) = 0") (auto simp: Let_def)
qed simp

text \<open>Printable ASCII bytes are no part of a white-space sequence.\<close>

definition plain :: "char \<Rightarrow> bool" where
  "plain c \<longleftrightarrow> 33 \<le> (of_char c :: nat) \<and> (of_char c :: nat) \<le> 126"

lemma plain_not_space: "plain c \<Longrightarrow> p \<in> set space_runes \<Longrightarrow> c \<notin> set p"
  by (auto simp: space_runes_def plain_def)

lemma prefix_Cons_mem: "prefix p (c # s) \<Longrightarrow> p \<noteq> [] \<Longrightarrow> c \<in> set p"
  by (cases p) auto

lemma match_len_plain:
  assumes "plain c"
  shows "match_len space_runes (c # s) = 0" and "match_len (map rev space_runes) (c # s) = 0"
  using plain_not_space [OF assms] by (auto simp: match_len_0 dest: prefix_Cons_mem)

lemma match_len_header:
  assumes "match_len (map rev space_runes) t = 0" and "plain c"
  shows "match_len (map rev space_runes) (t @ c # u) = 0"
  unfolding match_len_0
proof (intro ballI impI notI)
  fix p assume p: "p \<in> set (map rev space_runes)" "p \<noteq> []" "prefix p (t @ c # u)"
  have "\<not> prefix p t" using assms(1) p(1,2) unfolding match_len_0 by blast
  with p(3) have "c \<in> set p" by (auto simp: prefix_append prefix_Cons)
  then show False using plain_not_space [OF assms(2)] p(1) by auto
qed

lemma trimmed_header:
  assumes "plain d" and "plain c" and "trimmed v"
  shows "trimmed (d # h @ c # v)"
  using assms match_len_header [of "rev v" c "rev h @ [d]"]
  by (simp add: trimmed_def match_len_plain)

lemma trimmed_word: "\<forall>c \<in> set w. plain c \<Longrightarrow> trimmed w"
proof -
  assume w: "\<forall>c \<in> set w. plain c"
  have "match_len space_runes w = 0" using w by (cases w) (simp_all add: match_len_plain)
  moreover have "match_len (map rev space_runes) (rev w) = 0"
    using w by (cases w rule: rev_cases) (simp_all add: match_len_plain)
  ultimately show ?thesis by (simp add: trimmed_def)
qed

lemma fields_from_plain:
  "\<forall>c \<in> set w. plain c \<Longrightarrow> fields_from cur (w @ s) = fields_from (cur @ w) s"
  by (induction w arbitrary: cur) (auto simp: match_len_plain)

lemma fields_from_blank: "fields_from cur (CHR 0x20 # s) =
    (if cur = [] then [] else [cur]) @ fields_from [] s"
  by (simp add: space_runes_def)

lemma fields_two_words:
  assumes "\<forall>c \<in> set v. plain c" and "\<forall>c \<in> set w. plain c" and "v \<noteq> []" and "w \<noteq> []"
  shows "str_fields (v @ CHR 0x20 # w) = [v, w]"
  using assms fields_from_plain [OF assms(1), of "[]" "CHR 0x20 # w"]
    fields_from_plain [OF assms(2), of "[]" "[]"]
  by (simp add: str_fields_def fields_from_blank del: fields_from.simps(2))

section \<open>Numbers\<close>

definition is_digit :: "char \<Rightarrow> bool" where
  "is_digit c \<longleftrightarrow> 48 \<le> (of_char c :: nat) \<and> (of_char c :: nat) \<le> 57"

definition digit_val :: "char \<Rightarrow> int" where
  "digit_val c = int (of_char c) - 48"

definition digit_char :: "nat \<Rightarrow> char" where
  "digit_char d = char_of (48 + d)"

lemma digit_char_digit [simp]: "d < 10 \<Longrightarrow> is_digit (digit_char d)"
  by (simp add: is_digit_def digit_char_def)

lemma digit_char_val [simp]: "d < 10 \<Longrightarrow> digit_val (digit_char d) = int d"
  by (simp add: digit_val_def digit_char_def)

fun parse_digits :: "int \<Rightarrow> string \<Rightarrow> int option" where
  "parse_digits acc [] = Some acc"
| "parse_digits acc (c # s) =
     (if is_digit c then parse_digits (acc * 10 + digit_val c) s else None)"

lemma parse_digits_append:
  "parse_digits acc (s @ t) =
     (case parse_digits acc s of None \<Rightarrow> None | Some v \<Rightarrow> parse_digits v t)"
  by (induction acc s rule: parse_digits.induct) auto

text \<open>
  \<open>strconv.Atoi\<close> for a 64-bit \<open>int\<close>: an optional sign, at least one digit, nothing else,
  and a value in range; every other input is an error (\<open>None\<close>).
\<close>

definition atoi :: "string \<Rightarrow> int option" where
  "atoi s =
     (let neg = (case s of c # _ \<Rightarrow> c = CHR ''-'' | [] \<Rightarrow> False);
          signed = (case s of c # _ \<Rightarrow> c = CHR ''-'' \<or> c = CHR ''+'' | [] \<Rightarrow> False);
          ds = (if signed then tl s else s)
      in if ds = [] then None
         else case parse_digits 0 ds of
                None \<Rightarrow> None
              | Some v \<Rightarrow>
                  (let n = (if neg then - v else v)
                   in if - (2 ^ 63) \<le> n \<and> n < 2 ^ 63 then Some n else None))"

text \<open>The \<open>%d\<close> verb.\<close>

fun show_nat :: "nat \<Rightarrow> string" where
  "show_nat n = (if n < 10 then [digit_char n]
     else show_nat (n div 10) @ [digit_char (n mod 10)])"

declare show_nat.simps [simp del]

definition show_int :: "int \<Rightarrow> string" where
  "show_int n = (if n < 0 then CHR ''-'' # show_nat (nat (- n)) else show_nat (nat n))"

lemma show_nat_nonempty [simp]: "show_nat n \<noteq> []"
  by (subst show_nat.simps) simp

lemma parse_show_nat: "parse_digits 0 (show_nat n) = Some (int n)"
proof (induction n rule: show_nat.induct)
  case (1 n)
  show ?case
  proof (cases "n < 10")
    case True
    then show ?thesis by (subst show_nat.simps) simp
  next
    case False
    then have "parse_digits 0 (show_nat n) =
        Some (int (n div 10) * 10 + digit_val (digit_char (n mod 10)))"
      using 1 by (subst show_nat.simps) (simp add: parse_digits_append)
    then show ?thesis by (simp add: zdiv_int zmod_int)
  qed
qed

lemma show_nat_digits: "c \<in> set (show_nat n) \<Longrightarrow> is_digit c"
proof (induction n rule: show_nat.induct)
  case (1 n)
  then show ?case
    by (cases "n < 10") (auto simp: show_nat.simps [of n])
qed

lemma digit_plain: "is_digit c \<Longrightarrow> plain c"
  by (simp add: is_digit_def plain_def)

lemma show_nat_plain: "\<forall>c \<in> set (show_nat n). plain c"
  by (auto intro: digit_plain dest: show_nat_digits)

lemma hd_show_nat: "is_digit (hd (show_nat n))"
  by (rule show_nat_digits [of _ n]) simp

lemma length_show_nat: "n < 10 ^ Suc k \<Longrightarrow> length (show_nat n) \<le> Suc k"
proof (induction k arbitrary: n)
  case (Suc k)
  show ?case
  proof (cases "n < 10")
    case False
    have "n div 10 < 10 ^ Suc k" using Suc.prems by simp
    from Suc.IH [OF this] False show ?thesis by (subst show_nat.simps) simp
  qed (subst show_nat.simps, simp)
qed (subst show_nat.simps, simp)

lemma atoi_show_int:
  assumes "- (2 ^ 63) \<le> n" and "n < 2 ^ 63"
  shows "atoi (show_int n) = Some n"
proof (cases "n < 0")
  case True
  then show ?thesis using assms by (simp add: atoi_def show_int_def Let_def parse_show_nat)
next
  case False
  obtain c s where cs: "show_nat (nat n) = c # s" by (cases "show_nat (nat n)") auto
  have "is_digit c" using hd_show_nat [of "nat n"] cs by simp
  then have sign: "c \<noteq> CHR ''-''" "c \<noteq> CHR ''+''" by (auto simp: is_digit_def)
  have "parse_digits 0 (c # s) = Some n"
    using parse_show_nat [of "nat n"] cs False by simp
  then show ?thesis using False assms cs sign by (simp add: atoi_def show_int_def Let_def)
qed

text \<open>\<open>strings.ToLower\<close> on the ASCII letters.\<close>

definition to_lower_char :: "char \<Rightarrow> char" where
  "to_lower_char c =
     (let n = of_char c :: nat in if 65 \<le> n \<and> n \<le> 90 then char_of (n + 32) else c)"

definition to_lower :: "string \<Rightarrow> string" where
  "to_lower s = map to_lower_char s"

end
