(* ===== verification/CoreErrors.thy ===== *)
theory CoreErrors
  imports GoStrings
begin

text \<open>
  The package \<open>internal/core/errors\<close> and what Go's \<open>errors\<close>, \<open>context\<close>,
  \<open>io\<close>, \<open>net\<close> and \<open>os\<close> packages contribute to it: error values with their
  \<open>Unwrap\<close> chain, \<open>errors.Is\<close>, \<open>os.IsTimeout\<close>, and \<open>Classify\<close>.
\<close>

section \<open>Error values\<close>

text \<open>
  The sentinels of the package come first, then \<open>context.Canceled\<close>,
  \<open>context.DeadlineExceeded\<close>, \<open>io.EOF\<close>, a network time-out (an error whose
  \<open>Timeout()\<close> method returns true), an error made by \<open>errors.New\<close> or by
  \<open>fmt.Errorf\<close> without \<open>%w\<close>, an error wrapped by \<open>fmt.Errorf\<close> with \<open>%w\<close>
  (its whole text, and the wrapped error), and a \<open>*net.OpError\<close> (its text before the
  inner error, and the inner error).
\<close>

datatype go_error =
    ErrDeviceNotFound
  | ErrUnsupportedProtocol
  | ErrTimeout
  | ErrNetwork
  | ErrQueueFull
  | CtxCanceled
  | CtxDeadlineExceeded
  | IoEOF
  | NetTimeout string
  | OtherErr string
  | Wrapf string go_error
  | OpError string go_error

type_synonym 'a result = "go_error + 'a"

fun error_text :: "go_error \<Rightarrow> string" where
  "error_text ErrDeviceNotFound = ''device not found in registry''"
| "error_text ErrUnsupportedProtocol = ''unsupported protocol''"
| "error_text ErrTimeout = ''operation timed out''"
| "error_text ErrNetwork = ''network error occurred''"
| "error_text ErrQueueFull = ''command queue is full''"
| "error_text CtxCanceled = ''context canceled''"
| "error_text CtxDeadlineExceeded = ''context deadline exceeded''"
| "error_text IoEOF = ''EOF''"
| "error_text (NetTimeout m) = m"
| "error_text (OtherErr m) = m"
| "error_text (Wrapf m e) = m"
| "error_text (OpError m e) = m @ '': '' @ error_text e"

text \<open>\<open>fmt.Errorf("...%w...", e)\<close> with the error first, or last, in the text.\<close>

definition wrap_first :: "go_error \<Rightarrow> string \<Rightarrow> go_error" where
  "wrap_first e rest = Wrapf (error_text e @ '': '' @ rest) e"

definition wrap_last :: "string \<Rightarrow> go_error \<Rightarrow> go_error" where
  "wrap_last msg e = Wrapf (msg @ '': '' @ error_text e) e"

text \<open>\<open>errors.Is\<close> follows \<open>Unwrap\<close>.\<close>

fun errors_is :: "go_error \<Rightarrow> go_error \<Rightarrow> bool" where
  "errors_is (Wrapf m e) t = (Wrapf m e = t \<or> errors_is e t)"
| "errors_is (OpError m e) t = (OpError m e = t \<or> errors_is e t)"
| "errors_is e t = (e = t)"

text \<open>
  \<open>os.IsTimeout\<close> asks the error itself for a \<open>Timeout()\<close> method: the \<open>net\<close> errors
  have one, an error wrapped by \<open>fmt.Errorf\<close> has none.
\<close>

fun os_is_timeout :: "go_error \<Rightarrow> bool" where
  "os_is_timeout CtxDeadlineExceeded = True"
| "os_is_timeout (NetTimeout m) = True"
| "os_is_timeout (OpError m e) = os_is_timeout e"
| "os_is_timeout _ = False"

text \<open>The error at the end of the \<open>Unwrap\<close> chain.\<close>

fun root_cause :: "go_error \<Rightarrow> go_error" where
  "root_cause (Wrapf m e) = root_cause e"
| "root_cause (OpError m e) = root_cause e"
| "root_cause e = e"

definition sentinel :: "go_error \<Rightarrow> bool" where
  "sentinel e \<longleftrightarrow> e \<in> {ErrDeviceNotFound, ErrUnsupportedProtocol, ErrTimeout, ErrNetwork,
     ErrQueueFull, CtxCanceled, CtxDeadlineExceeded, IoEOF}"

lemma errors_is_root: "sentinel t \<Longrightarrow> errors_is e t \<longleftrightarrow> root_cause e = t"
  by (induction e) (auto simp: sentinel_def)

lemma sentinels [simp]:
  "sentinel ErrDeviceNotFound" "sentinel ErrUnsupportedProtocol" "sentinel ErrTimeout"
  "sentinel ErrNetwork" "sentinel ErrQueueFull" "sentinel CtxCanceled"
  "sentinel CtxDeadlineExceeded" "sentinel IoEOF"
  by (simp_all add: sentinel_def)

lemma root_cause_wrap [simp]:
  "root_cause (wrap_first e m) = root_cause e" "root_cause (wrap_last m e) = root_cause e"
  by (simp_all add: wrap_first_def wrap_last_def)

section \<open>Classification\<close>

datatype error_class = ClassRetryable | ClassFatal | ClassWarning

definition Classify :: "go_error \<Rightarrow> error_class" where
  "Classify err =
     (if errors_is err ErrTimeout \<or> errors_is err ErrNetwork \<or> errors_is err ErrQueueFull
      then ClassRetryable
      else if errors_is err ErrDeviceNotFound \<or> errors_is err ErrUnsupportedProtocol
      then ClassFatal
      else ClassWarning)"

definition retryable :: "go_error \<Rightarrow> bool" where
  "retryable e \<longleftrightarrow> Classify e = ClassRetryable"

lemma Classify_root:
  "Classify e = (case root_cause e of
      ErrTimeout \<Rightarrow> ClassRetryable | ErrNetwork \<Rightarrow> ClassRetryable
    | ErrQueueFull \<Rightarrow> ClassRetryable | ErrDeviceNotFound \<Rightarrow> ClassFatal
    | ErrUnsupportedProtocol \<Rightarrow> ClassFatal | _ \<Rightarrow> ClassWarning)"
  by (auto simp: Classify_def errors_is_root split: go_error.split)

lemma Classify_wrap [simp]:
  "Classify (wrap_first e m) = Classify e" "Classify (wrap_last m e) = Classify e"
  by (simp_all add: Classify_root)

lemma retryable_iff:
  "retryable e \<longleftrightarrow> root_cause e \<in> {ErrTimeout, ErrNetwork, ErrQueueFull}"
  by (auto simp: retryable_def Classify_root split: go_error.split_asm go_error.split)

lemma retryable_wrap [simp]:
  "retryable (wrap_first e m) = retryable e" "retryable (wrap_last m e) = retryable e"
  by (simp_all add: retryable_def)

section \<open>Properties\<close>

text \<open>\<open>Classify\<close> looks through any nesting of \<open>%w\<close> wrapping and of
  \<open>net.OpError\<close>: the class is decided by the root cause alone, retryable exactly for
  time-out, network and full-queue errors, fatal exactly for an unknown device or protocol.\<close>

lemma classify_by_root_cause:
  "(Classify e = ClassRetryable) = (root_cause e \<in> {ErrTimeout, ErrNetwork, ErrQueueFull}) \<and>
   (Classify e = ClassFatal) = (root_cause e \<in> {ErrDeviceNotFound, ErrUnsupportedProtocol}) \<and>
   Classify (Wrapf m e) = Classify e \<and> Classify (OpError m e) = Classify e"
  by (auto simp: Classify_root split: go_error.splits)

end
