(* ===== verification/GoValues.thy ===== *)
theory GoValues
  imports CoreErrors Complex_Main
begin

text \<open>
  Values that Go's \<open>float64\<close> and \<open>encoding/json\<close> contribute: IEEE comparison with
  infinities and NaN, the conversion of a \<open>uint64\<close> to \<open>float64\<close> with its rounding,
  and JSON documents as trees.  A document handed to \<open>json.Marshal\<close> is kept as the tree
  of what it encodes; the text is not modelled, but the failure of \<open>Marshal\<close> on a number
  that is not finite is.
\<close>

section \<open>float64\<close>

text \<open>Every finite \<open>float64\<close> is a rational number.\<close>

datatype float64 = Fin rat | PosInf | NegInf | NaN

fun f_lt :: "float64 \<Rightarrow> float64 \<Rightarrow> bool" where
  "f_lt (Fin a) (Fin b) = (a < b)"
| "f_lt (Fin a) PosInf = True"
| "f_lt NegInf (Fin b) = True"
| "f_lt NegInf PosInf = True"
| "f_lt _ _ = False"

fun f_eq :: "float64 \<Rightarrow> float64 \<Rightarrow> bool" where
  "f_eq (Fin a) (Fin b) = (a = b)"
| "f_eq PosInf PosInf = True"
| "f_eq NegInf NegInf = True"
| "f_eq _ _ = False"

definition f_gt :: "float64 \<Rightarrow> float64 \<Rightarrow> bool" where
  "f_gt a b = f_lt b a"

fun f_finite :: "float64 \<Rightarrow> bool" where
  "f_finite (Fin a) = True"
| "f_finite _ = False"

lemma f_nan [simp]:
  "\<not> f_lt NaN x" "\<not> f_lt x NaN" "\<not> f_gt NaN x" "\<not> f_gt x NaN" "\<not> f_eq NaN x" "\<not> f_eq x NaN"
  by (cases x; simp add: f_gt_def)+

lemma f_gt_Fin [simp]: "f_gt (Fin a) (Fin b) = (b < a)"
  by (simp add: f_gt_def)

text \<open>
  \<open>float64(n)\<close> for an unsigned integer: exact below \<open>2^53\<close>, otherwise the 53 leading
  bits, rounded to the nearest, ties to even.
\<close>

fun bit_len :: "nat \<Rightarrow> nat" where
  "bit_len n = (if n = 0 then 0 else Suc (bit_len (n div 2)))"

declare bit_len.simps [simp del]

definition round53 :: "nat \<Rightarrow> nat" where
  "round53 n =
     (if n < 2 ^ 53 then n
      else let e = bit_len n - 53; q = n div 2 ^ e; r = n mod 2 ^ e; h = 2 ^ (e - 1)
           in (if r < h \<or> (r = h \<and> even q) then q else q + 1) * 2 ^ e)"

definition f_of_u64 :: "64 word \<Rightarrow> float64" where
  "f_of_u64 n = Fin (of_nat (round53 (unat n)))"

lemma bit_len_bounds: "0 < n \<Longrightarrow> 2 ^ (bit_len n - 1) \<le> n \<and> n < 2 ^ bit_len n \<and> 0 < bit_len n"
proof (induction n rule: bit_len.induct)
  case (1 n)
  show ?case
  proof (cases "n = 1")
    case True
    then show ?thesis by (simp add: bit_len.simps)
  next
    case False
    with "1.prems" have pos: "0 < n div 2" by simp
    with "1.prems" "1.IH" have IH: "2 ^ (bit_len (n div 2) - 1) \<le> n div 2"
      "n div 2 < 2 ^ bit_len (n div 2)" "0 < bit_len (n div 2)" by auto
    have eq: "bit_len n = Suc (bit_len (n div 2))"
      using "1.prems" by (subst bit_len.simps) simp
    obtain k where k: "bit_len (n div 2) = Suc k" using IH(3) gr0_conv_Suc by auto
    from IH(1,2) have "2 * 2 ^ k \<le> n" "n < 2 * 2 ^ Suc k" unfolding k by simp_all
    then show ?thesis by (simp add: eq k)
  qed
qed

lemma round53_exact: "n < 2 ^ 53 \<Longrightarrow> round53 n = n"
  by (simp add: round53_def)

lemma round53_large: "2 ^ 53 \<le> n \<Longrightarrow> 2 ^ 53 \<le> round53 n"
proof -
  assume n: "2 ^ 53 \<le> n"
  then have "0 < n" by (simp add: order_less_le_trans [of 0 "2 ^ 53"])
  with bit_len_bounds have lo: "2 ^ (bit_len n - 1) \<le> n" and hi: "n < 2 ^ bit_len n" by auto
  have "(2::nat) ^ 53 < 2 ^ bit_len n" using n hi by linarith
  then have "53 < bit_len n" using power_less_imp_less_exp [of "2::nat" 53] by simp
  then obtain e where e: "bit_len n = 53 + Suc e" by (metis add_Suc_right less_iff_Suc_add)
  have "(2::nat) ^ 52 * 2 ^ Suc e \<le> n" using lo by (simp add: e power_add)
  then have "2 ^ 52 \<le> n div 2 ^ Suc e" by (simp add: less_eq_div_iff_mult_less_eq)
  then have q: "(2 ^ 52) * 2 ^ Suc e \<le> (n div 2 ^ Suc e) * (2::nat) ^ Suc e"
    by (rule mult_le_mono1)
  have "(2::nat) ^ 53 \<le> 2 ^ 52 * 2 ^ Suc e" by simp
  from this q have "2 ^ 53 \<le> (n div 2 ^ Suc e) * (2::nat) ^ Suc e" by (rule order_trans)
  also have "\<dots> \<le> round53 n"
    using n by (simp add: round53_def e Let_def)
  finally show ?thesis .
qed

text \<open>So comparing with a small threshold is comparing the integers.\<close>

lemma f_of_u64_gt:
  assumes "k < 2 ^ 53"
  shows "f_gt (f_of_u64 n) (Fin (of_nat k)) \<longleftrightarrow> k < unat n"
proof (cases "unat n < 2 ^ 53")
  case True
  show ?thesis
    by (simp only: f_of_u64_def round53_exact [OF True] f_gt_Fin of_nat_less_iff)
next
  case False
  then have "2 ^ 53 \<le> round53 (unat n)" by (intro round53_large) simp
  then show ?thesis using False assms by (simp add: f_of_u64_def)
qed

section \<open>JSON\<close>

datatype json =
    JNull
  | JBool bool
  | JNum float64
  | JInt int
  | JStr string
  | JTime time
  | JArr "json list"
  | JObj "(string \<times> json) list"

text \<open>\<open>json.Marshal\<close> rejects a document that holds NaN or an infinity.\<close>

fun json_finite :: "json \<Rightarrow> bool" where
  "json_finite (JNum x) = f_finite x"
| "json_finite (JArr xs) = list_all json_finite xs"
| "json_finite (JObj kvs) = list_all (\<lambda>kv. json_finite (snd kv)) kvs"
| "json_finite _ = True"

definition json_Marshal :: "json \<Rightarrow> json result" where
  "json_Marshal v = (if json_finite v then Inr v else Inl (OtherErr ''json: unsupported value''))"

text \<open>A Go map is written with its keys sorted.\<close>

definition json_map :: "('v \<Rightarrow> json) \<Rightarrow> (string \<times> 'v) list \<Rightarrow> json" where
  "json_map f m = JObj (sort_key fst (map (\<lambda>(k, v). (k, f v)) m))"

lemma json_finite_map: "json_finite (json_map f m) \<longleftrightarrow> (\<forall>(k, v) \<in> set m. json_finite (f v))"
  by (auto simp: json_map_def list_all_iff)

lemma json_finite_map_str [simp]: "json_finite (json_map JStr m)"
  by (auto simp: json_finite_map)

end
