(* ===== verification/Domain.thy ===== *)
theory Domain
  imports GoValues
begin

text \<open>
  The packages \<open>internal/core/domain\<close> (the data that moves through the gateway, with its
  JSON form) and \<open>internal/core/ports\<close> (the interfaces between the components, each a
  record of the operations its clients call, over the provider's state).
\<close>

section \<open>String-typed enumerations\<close>

text \<open>Go's \<open>type Status string\<close> and its siblings hold any string, the constants included.\<close>

type_synonym status = string
type_synonym protocol = string
type_synonym command_type = string

definition StatusOnline :: status where [consts_simps]: "StatusOnline = ''ONLINE''"
definition StatusOffline :: status where [consts_simps]: "StatusOffline = ''OFFLINE''"
definition StatusDegraded :: status where [consts_simps]: "StatusDegraded = ''DEGRADED''"
definition StatusError :: status where [consts_simps]: "StatusError = ''ERROR''"
definition StatusMaintenance :: status where [consts_simps]: "StatusMaintenance = ''MAINTENANCE''"
definition StatusUnknown :: status where [consts_simps]: "StatusUnknown = ''UNKNOWN''"

definition ProtocolPJLink :: protocol where [consts_simps]: "ProtocolPJLink = ''PJLink''"
definition ProtocolONVIF :: protocol where [consts_simps]: "ProtocolONVIF = ''ONVIF''"
definition ProtocolISAPI :: protocol where [consts_simps]: "ProtocolISAPI = ''ISAPI''"
definition ProtocolShure :: protocol where [consts_simps]: "ProtocolShure = ''ShureAPI''"

definition CmdTurnOn :: command_type where [consts_simps]: "CmdTurnOn = ''TURN_ON''"
definition CmdTurnOff :: command_type where [consts_simps]: "CmdTurnOff = ''TURN_OFF''"
definition CmdGetStatus :: command_type where [consts_simps]: "CmdGetStatus = ''GET_STATUS''"
definition CmdReboot :: command_type where [consts_simps]: "CmdReboot = ''REBOOT''"

section \<open>Records\<close>

text \<open>
  \<open>dev_Metadata\<close> is an option because \<open>Update\<close> tells a nil map from an empty one;
  nothing tells a nil \<open>Telemetry\<close> or \<open>Capabilities\<close> from an empty one.
\<close>

record device =
  dev_ID :: string
  dev_Name :: string
  dev_Model :: string
  dev_Vendor :: string
  dev_Room :: string
  dev_MACAddress :: string
  dev_IP :: string
  dev_Port :: int
  dev_Protocol :: protocol
  dev_Capabilities :: "string list"
  dev_Metadata :: "string gomap option"
  dev_Status :: status
  dev_LastSeen :: time
  dev_Telemetry :: "json gomap"

record cloud_command =
  cmd_CorrelationID :: string
  cmd_DeviceID :: string
  cmd_CommandName :: command_type
  cmd_Payload :: bytes
  cmd_IssuedAt :: time

record device_telemetry =
  tel_CorrelationID :: string
  tel_DeviceID :: string
  tel_Timestamp :: time
  tel_Data :: "json gomap"

record alert_payload =
  alert_Severity :: string
  alert_Message :: string
  alert_MetricName :: string
  alert_Value :: float64
  alert_Threshold :: float64
  alert_Labels :: "string gomap"
  alert_Timestamp :: time

text \<open>The JSON documents of the records the gateway sends or stores, by their field tags.\<close>

definition telemetry_json :: "device_telemetry \<Rightarrow> json" where
  "telemetry_json t = JObj
     [(''correlation_id'', JStr (tel_CorrelationID t)), (''device_id'', JStr (tel_DeviceID t)),
      (''timestamp'', JTime (tel_Timestamp t)), (''data'', json_map (\<lambda>v. v) (tel_Data t))]"

definition alert_json :: "alert_payload \<Rightarrow> json" where
  "alert_json a = JObj
     [(''severity'', JStr (alert_Severity a)), (''message'', JStr (alert_Message a)),
      (''metric_name'', JStr (alert_MetricName a)), (''value'', JNum (alert_Value a)),
      (''threshold'', JNum (alert_Threshold a)), (''labels'', json_map JStr (alert_Labels a)),
      (''timestamp'', JTime (alert_Timestamp a))]"

lemma json_finite_telemetry:
  "json_finite (telemetry_json t) \<longleftrightarrow> (\<forall>(k, v) \<in> set (tel_Data t). json_finite v)"
  by (simp add: telemetry_json_def json_finite_map)

lemma json_finite_alert:
  "json_finite (alert_json a) \<longleftrightarrow> f_finite (alert_Value a) \<and> f_finite (alert_Threshold a)"
  by (simp add: alert_json_def)

text \<open>
  What the registry may never change at run time: every field of a device but its status,
  the time it was last seen and its metadata.
\<close>

definition core_config :: "device \<Rightarrow> device" where
  "core_config d = d\<lparr>dev_Status := [], dev_LastSeen := 0, dev_Metadata := None\<rparr>"

lemma core_config_runtime [simp]:
  "core_config (d\<lparr>dev_Status := s\<rparr>) = core_config d"
  "core_config (d\<lparr>dev_LastSeen := t\<rparr>) = core_config d"
  "core_config (d\<lparr>dev_Metadata := m\<rparr>) = core_config d"
  by (simp_all add: core_config_def)

text \<open>A device of the kind \<open>devices.json\<close> lists, for the concrete instances.\<close>

definition projector :: device where
  "projector = \<lparr>dev_ID = ''Projector01'', dev_Name = [], dev_Model = [], dev_Vendor = ''Epson'',
     dev_Room = [], dev_MACAddress = [], dev_IP = ''10.10.1.55'', dev_Port = 4352,
     dev_Protocol = ProtocolPJLink, dev_Capabilities = [], dev_Metadata = None,
     dev_Status = StatusUnknown, dev_LastSeen = 0, dev_Telemetry = []\<rparr>"

lemma projector_simps [simp]:
  "dev_ID projector = ''Projector01''" "dev_IP projector = ''10.10.1.55''"
  "dev_Port projector = 4352" "dev_Protocol projector = ProtocolPJLink"
  "dev_Status projector = StatusUnknown" "dev_Telemetry projector = []"
  "dev_Metadata projector = None" "dev_LastSeen projector = 0"
  by (simp_all add: projector_def)

section \<open>Ports\<close>

text \<open>
  An interface value is a record of functions.  Of \<open>ctx\<close> an operation gets what it uses:
  \<open>SendCommand\<close> its deadline, the others nothing; a wait that a cancelled context
  interrupts is in the caller's model.  \<open>CommandChainAdapter\<close> is an adapter whose \<open>ad_FollowUpCommands\<close>
  is present, as the type assertion in the router tests.
\<close>

record adapter =
  ad_TranslateCommand :: "cloud_command \<Rightarrow> bytes result"
  ad_ParseTelemetry :: "bytes \<Rightarrow> json gomap result"
  ad_FollowUpCommands :: "(cloud_command \<Rightarrow> bytes list result) option"

record 'r registry_ops =
  op_GetDevice :: "'r \<Rightarrow> string \<Rightarrow> device result"
  op_ListDevices :: "'r \<Rightarrow> device list"
  op_Register :: "'r \<Rightarrow> device \<Rightarrow> 'r \<times> go_error option"
  op_Update :: "'r \<Rightarrow> device \<Rightarrow> 'r \<times> go_error option"
  op_Remove :: "'r \<Rightarrow> string \<Rightarrow> 'r"

record 'n communicator_ops =
  op_SendCommand :: "'n \<Rightarrow> time option \<Rightarrow> device \<Rightarrow> bytes \<Rightarrow> 'n \<times> bytes result"

record 'f factory_ops =
  op_GetAdapter :: "'f \<Rightarrow> protocol \<Rightarrow> adapter result"

record 'c cloud_ops =
  op_IsConnected :: "'c \<Rightarrow> bool"
  op_Publish :: "'c \<Rightarrow> string \<Rightarrow> json \<Rightarrow> 'c \<times> go_error option"
  op_SendTelemetry :: "'c \<Rightarrow> device_telemetry \<Rightarrow> 'c \<times> go_error option"

record 'm metrics_ops =
  op_RecordCommandLatency :: "'m \<Rightarrow> protocol \<Rightarrow> string \<Rightarrow> int \<Rightarrow> 'm"
  op_RecordCommandDropped :: "'m \<Rightarrow> 'm"

text \<open>The interface \<open>buffer.Buffer\<close> and its items; \<open>AddData\<close> reads the clock itself, so it takes the reading.\<close>

record buffered_item =
  item_Timestamp :: time
  item_DataType :: string
  item_Payload :: json

record 'b buffer_ops =
  op_AddData :: "'b \<Rightarrow> time \<Rightarrow> string \<Rightarrow> json \<Rightarrow> 'b \<times> go_error option"
  op_Fetch :: "'b \<Rightarrow> 'b \<times> buffered_item list result"

end
