(* ===== verification/Registry.thy ===== *)
theory Registry
  imports Domain
begin

text \<open>
  \<open>internal/adapters/registry/static_json_registry.go\<close>: the device registry, loaded from
  a JSON file or an HTTP endpoint and polled in the second case.  Every operation holds the
  registry's lock, so it is one atomic function here.  A device is handed out as a copy of
  the struct; no code of the gateway writes through the maps the copy shares, so copies are
  values.
\<close>

record registry =
  reg_devices :: "device gomap"
  reg_path :: string

definition NewStaticJSONRegistry :: "string \<Rightarrow> registry" where
  "NewStaticJSONRegistry path = \<lparr>reg_devices = [], reg_path = path\<rparr>"

section \<open>Validation and loading\<close>

definition validateDevice :: "device \<Rightarrow> go_error option" where
  "validateDevice dev =
     (if dev_ID dev = [] then Some (OtherErr ''device ID cannot be empty'')
      else if dev_IP dev = [] then Some (OtherErr ''ip address or hostname cannot be empty'')
      else if dev_Port dev \<le> 0 \<or> dev_Port dev > 65535
      then Some (OtherErr (''invalid port: '' @ show_int (dev_Port dev)))
      else None)"

text \<open>
  The loop over the decoded list.  A JSON \<open>null\<close> decodes into a nil pointer (\<open>None\<close>),
  which \<open>validateDevice\<close> dereferences.
\<close>

fun load_loop :: "device gomap \<Rightarrow> device option list \<Rightarrow> device gomap \<Rightarrow> device gomap outcome" where
  "load_loop old [] newDevices = Ret newDevices"
| "load_loop old (None # deviceList) newDevices = Panic ''nil pointer dereference''"
| "load_loop old (Some dev # deviceList) newDevices =
     (if validateDevice dev \<noteq> None then load_loop old deviceList newDevices
      else
        (let dev' = (case go_get old (dev_ID dev) of
                       Some existing \<Rightarrow> dev\<lparr>dev_Status := dev_Status existing,
                          dev_LastSeen := dev_LastSeen existing,
                          dev_Metadata := dev_Metadata existing\<rparr>
                     | None \<Rightarrow> dev\<lparr>dev_Status := StatusUnknown\<rparr>)
         in load_loop old deviceList (go_put (dev_ID dev) dev' newDevices)))"

text \<open>
  What the outside answers to one load: the HTTP request, the opening of the file, and the
  JSON decoder applied to the body.
\<close>

record 'body load_env =
  env_http_Get :: "go_error + (int \<times> 'body)"
  env_os_Open :: "go_error + 'body"
  env_Decode :: "'body \<Rightarrow> device option list result"

definition is_url :: "string \<Rightarrow> bool" where
  "is_url path \<longleftrightarrow> has_prefix path ''http://'' \<or> has_prefix path ''https://''"

definition fetch_body :: "'body load_env \<Rightarrow> string \<Rightarrow> 'body result" where
  "fetch_body env path =
     (if is_url path
      then (case env_http_Get env of
              Inl err \<Rightarrow> Inl (wrap_last ''failed to fetch registry'' err)
            | Inr (statusCode, body) \<Rightarrow>
                (if statusCode \<noteq> 200
                 then Inl (OtherErr (''bad status fetching registry: '' @ show_int statusCode))
                 else Inr body))
      else (case env_os_Open env of
              Inl err \<Rightarrow> Inl (wrap_last ''failed to open registry file'' err)
            | Inr body \<Rightarrow> Inr body))"

definition loadOnce :: "'body load_env \<Rightarrow> registry \<Rightarrow> (registry \<times> go_error option) outcome" where
  "loadOnce env r =
     (case fetch_body env (reg_path r) of
        Inl err \<Rightarrow> Ret (r, Some err)
      | Inr body \<Rightarrow>
          (case env_Decode env body of
             Inl err \<Rightarrow> Ret (r, Some (wrap_last ''failed to decode registry JSON'' err))
           | Inr deviceList \<Rightarrow>
               (case load_loop (reg_devices r) deviceList [] of
                  Panic m \<Rightarrow> Panic m
                | Ret newDevices \<Rightarrow> Ret (r\<lparr>reg_devices := newDevices\<rparr>, None))))"

text \<open>
  \<open>poll\<close>, over the time of its goroutine: \<open>pl_now\<close> is when it comes to the \<open>select\<close>,
  \<open>pl_next\<close> the time of the first tick that it has not received (the ticker holds one tick and
  drops those that come while it is held), \<open>pl_deadline\<close> when its context is done.
\<close>

record poller =
  pl_deadline :: time
  pl_now :: time
  pl_next :: time

definition poll_interval :: time where
  "poll_interval = 5 * 1000000000"

definition start_poller :: "time \<Rightarrow> time \<Rightarrow> poller" where
  "start_poller deadline now = \<lparr>pl_deadline = deadline, pl_now = now, pl_next = now + poll_interval\<rparr>"

definition next_tick :: "time \<Rightarrow> time \<Rightarrow> time" where
  "next_tick t tick = tick + poll_interval * ((t - tick) div poll_interval + 1)"

text \<open>
  One turn of the loop.  If only one of tick and \<open>ctx.Done()\<close> is ready first, that one is taken;
  if both are, \<open>done_first\<close> chooses.  \<open>took\<close> is the time until the loop is back at the
  \<open>select\<close>.  The load itself does not look at the context.  \<open>None\<close>: the loop has ended.
\<close>

definition poll_turn :: "bool \<Rightarrow> time \<Rightarrow> 'body load_env \<Rightarrow> poller \<Rightarrow> registry \<Rightarrow>
    (poller option \<times> registry) outcome" where
  "poll_turn done_first took env pl r =
     (let t = max (pl_now pl) (pl_next pl);
          done_alone = (pl_now pl < pl_next pl \<and> pl_deadline pl < pl_next pl)
      in if pl_deadline pl \<le> t \<and> (done_first \<or> done_alone) then Ret (None, r)
         else (case loadOnce env r of
                 Panic m \<Rightarrow> Panic m
               | Ret (r', err) \<Rightarrow>
                   Ret (Some (pl\<lparr>pl_now := t + took, pl_next := next_tick t (pl_next pl)\<rparr>), r')))"

fun poll :: "(bool \<times> time \<times> 'body load_env) list \<Rightarrow> poller \<Rightarrow> registry \<Rightarrow> registry outcome" where
  "poll [] pl r = Ret r"
| "poll ((done_first, took, env) # turns) pl r =
     (case poll_turn done_first took env pl r of
        Panic m \<Rightarrow> Panic m
      | Ret (None, r') \<Rightarrow> Ret r'
      | Ret (Some pl', r') \<Rightarrow> poll turns pl' r')"

text \<open>\<open>Load\<close>: the first load, and the poller that is started at \<open>now\<close>, if any, with the context given.\<close>

definition Load :: "'body load_env \<Rightarrow> time \<Rightarrow> time \<Rightarrow> registry \<Rightarrow>
    (registry \<times> go_error option \<times> poller option) outcome" where
  "Load env deadline now r =
     (case loadOnce env r of
        Panic m \<Rightarrow> Panic m
      | Ret (r', Some err) \<Rightarrow> Ret (r', Some err, None)
      | Ret (r', None) \<Rightarrow>
          Ret (r', None, if is_url (reg_path r') then Some (start_poller deadline now) else None))"

section \<open>Operations\<close>

definition GetDevice :: "registry \<Rightarrow> string \<Rightarrow> device result" where
  "GetDevice r did =
     (case go_get (reg_devices r) did of Some dev \<Rightarrow> Inr dev | None \<Rightarrow> Inl ErrDeviceNotFound)"

text \<open>\<open>ord\<close> is the order in which this run ranges over the map.\<close>

definition ListDevices :: "(device list \<Rightarrow> device list) \<Rightarrow> registry \<Rightarrow> device list" where
  "ListDevices ord r = ord (map snd (reg_devices r))"

definition RegisterDevice :: "registry \<Rightarrow> device \<Rightarrow> registry \<times> go_error option" where
  "RegisterDevice r dev =
     (case validateDevice dev of
        Some err \<Rightarrow> (r, Some err)
      | None \<Rightarrow>
          (if go_get (reg_devices r) (dev_ID dev) \<noteq> None
           then (r, Some (OtherErr (''cannot register: device '' @ dev_ID dev @ '' already exists'')))
           else (r\<lparr>reg_devices := go_put (dev_ID dev) dev (reg_devices r)\<rparr>, None)))"

definition apply_runtime :: "device \<Rightarrow> device \<Rightarrow> device" where
  "apply_runtime existing updatedDev =
     (let d = existing\<lparr>dev_Status := dev_Status updatedDev, dev_LastSeen := dev_LastSeen updatedDev\<rparr>
      in if dev_Metadata updatedDev \<noteq> None then d\<lparr>dev_Metadata := dev_Metadata updatedDev\<rparr> else d)"

definition UpdateDevice :: "registry \<Rightarrow> device \<Rightarrow> registry \<times> go_error option" where
  "UpdateDevice r updatedDev =
     (case go_get (reg_devices r) (dev_ID updatedDev) of
        None \<Rightarrow> (r, Some ErrDeviceNotFound)
      | Some existing \<Rightarrow>
          (r\<lparr>reg_devices := go_put (dev_ID updatedDev) (apply_runtime existing updatedDev)
                              (reg_devices r)\<rparr>, None))"

definition RemoveDevice :: "registry \<Rightarrow> string \<Rightarrow> registry" where
  "RemoveDevice r did = r\<lparr>reg_devices := go_del did (reg_devices r)\<rparr>"

definition static_registry_ops :: "(device list \<Rightarrow> device list) \<Rightarrow> registry registry_ops" where
  "static_registry_ops ord = \<lparr>op_GetDevice = GetDevice, op_ListDevices = ListDevices ord,
     op_Register = RegisterDevice, op_Update = UpdateDevice, op_Remove = RemoveDevice\<rparr>"

lemma static_registry_ops_simps [simp]:
  "op_GetDevice (static_registry_ops ord) = GetDevice"
  "op_ListDevices (static_registry_ops ord) = ListDevices ord"
  "op_Register (static_registry_ops ord) = RegisterDevice"
  "op_Update (static_registry_ops ord) = UpdateDevice"
  "op_Remove (static_registry_ops ord) = RemoveDevice"
  by (simp_all add: static_registry_ops_def)

section \<open>Invariant\<close>

text \<open>Every device is stored under its own ID and passed validation.\<close>

definition valid_device :: "device \<Rightarrow> bool" where
  "valid_device d \<longleftrightarrow> dev_ID d \<noteq> [] \<and> dev_IP d \<noteq> [] \<and> 0 < dev_Port d \<and> dev_Port d \<le> 65535"

definition reg_ok :: "registry \<Rightarrow> bool" where
  "reg_ok r \<longleftrightarrow> map_ok (reg_devices r) \<and>
     (\<forall>did d. go_get (reg_devices r) did = Some d \<longrightarrow> dev_ID d = did \<and> valid_device d)"

lemma validateDevice_None: "validateDevice d = None \<longleftrightarrow> valid_device d"
  by (auto simp: validateDevice_def valid_device_def)

lemma valid_device_runtime [simp]:
  "valid_device (d\<lparr>dev_Status := s\<rparr>) = valid_device d"
  "valid_device (d\<lparr>dev_LastSeen := t\<rparr>) = valid_device d"
  "valid_device (d\<lparr>dev_Metadata := m\<rparr>) = valid_device d"
  by (simp_all add: valid_device_def)

lemma apply_runtime_simps [simp]:
  "dev_ID (apply_runtime e u) = dev_ID e"
  "valid_device (apply_runtime e u) = valid_device e"
  "core_config (apply_runtime e u) = core_config e"
  "dev_Status (apply_runtime e u) = dev_Status u"
  "dev_LastSeen (apply_runtime e u) = dev_LastSeen u"
  by (simp_all add: apply_runtime_def Let_def)

lemma reg_ok_New: "reg_ok (NewStaticJSONRegistry path)"
  by (simp add: reg_ok_def NewStaticJSONRegistry_def)

lemma reg_ok_put:
  "reg_ok r \<Longrightarrow> dev_ID d = did \<Longrightarrow> valid_device d \<Longrightarrow>
     reg_ok (r\<lparr>reg_devices := go_put did d (reg_devices r)\<rparr>)"
  by (auto simp: reg_ok_def get_put)

lemma reg_ok_get: "reg_ok r \<Longrightarrow> go_get (reg_devices r) did = Some d \<Longrightarrow> dev_ID d = did \<and> valid_device d"
  by (simp add: reg_ok_def)

lemma UpdateDevice_ok: "reg_ok r \<Longrightarrow> reg_ok (fst (UpdateDevice r d))"
  using reg_ok_get [of r] by (auto simp: UpdateDevice_def intro!: reg_ok_put split: option.split)

lemma RegisterDevice_ok: "reg_ok r \<Longrightarrow> reg_ok (fst (RegisterDevice r d))"
  by (auto simp: RegisterDevice_def validateDevice_None intro!: reg_ok_put split: option.split)

lemma RemoveDevice_ok: "reg_ok r \<Longrightarrow> reg_ok (RemoveDevice r did)"
  by (simp add: RemoveDevice_def reg_ok_def get_del)

section \<open>The load loop\<close>

text \<open>The last valid entry for an ID wins; a known device keeps its runtime state.\<close>

fun last_valid :: "string \<Rightarrow> device option list \<Rightarrow> device option" where
  "last_valid did [] = None"
| "last_valid did (d # ds) =
     (case last_valid did ds of
        Some x \<Rightarrow> Some x
      | None \<Rightarrow> (case d of Some x \<Rightarrow> if dev_ID x = did \<and> valid_device x then Some x else None
                         | None \<Rightarrow> None))"

definition reloaded :: "device gomap \<Rightarrow> device \<Rightarrow> device" where
  "reloaded old d =
     (case go_get old (dev_ID d) of
        Some e \<Rightarrow> d\<lparr>dev_Status := dev_Status e, dev_LastSeen := dev_LastSeen e,
                    dev_Metadata := dev_Metadata e\<rparr>
      | None \<Rightarrow> d\<lparr>dev_Status := StatusUnknown\<rparr>)"

lemma reloaded_simps [simp]:
  "dev_ID (reloaded old d) = dev_ID d" "valid_device (reloaded old d) = valid_device d"
  "core_config (reloaded old d) = core_config d"
  by (simp_all add: reloaded_def split: option.split)

lemma load_loop_Some:
  "load_loop old (Some d # ds) new =
     (if valid_device d then load_loop old ds (go_put (dev_ID d) (reloaded old d) new)
      else load_loop old ds new)"
  by (simp add: validateDevice_None reloaded_def)

lemma load_loop_panics: "is_panic (load_loop old ds new) \<longleftrightarrow> None \<in> set ds"
  by (induction old ds new rule: load_loop.induct) (auto simp: Let_def)

lemma load_loop_get:
  "load_loop old ds new = Ret m \<Longrightarrow>
     go_get m did = (case last_valid did ds of Some d \<Rightarrow> Some (reloaded old d)
                                           | None \<Rightarrow> go_get new did)"
proof (induction ds arbitrary: new)
  case (Cons x ds)
  then obtain d where x: "x = Some d" by (cases x) auto
  show ?case
  proof (cases "valid_device d")
    case True
    with Cons.prems have "load_loop old ds (go_put (dev_ID d) (reloaded old d) new) = Ret m"
      by (simp only: x load_loop_Some if_True)
    from Cons.IH [OF this] True show ?thesis
      by (auto simp: x get_put split: option.split)
  next
    case False
    with Cons.prems have "load_loop old ds new = Ret m"
      by (simp only: x load_loop_Some if_False)
    from Cons.IH [OF this] False show ?thesis
      by (auto simp: x split: option.split)
  qed
qed simp

lemma load_loop_map_ok: "load_loop old ds new = Ret m \<Longrightarrow> map_ok new \<Longrightarrow> map_ok m"
  by (induction old ds new rule: load_loop.induct) (auto simp: Let_def split: if_splits)

lemma last_valid_ok: "last_valid did ds = Some d \<Longrightarrow> dev_ID d = did \<and> valid_device d"
  by (induction ds) (auto split: option.splits if_splits)

lemma load_loop_reg_ok:
  assumes "load_loop (reg_devices r) ds [] = Ret m"
  shows "reg_ok (r\<lparr>reg_devices := m\<rparr>)"
  using load_loop_map_ok [OF assms] load_loop_get [OF assms]
  by (auto simp: reg_ok_def dest!: last_valid_ok split: option.splits)

lemma loadOnce_cases:
  assumes "loadOnce env r = Ret (r', err)"
  obtains (failed) e where "r' = r" "err = Some e"
  | (loaded) body ds m where "fetch_body env (reg_path r) = Inr body" "env_Decode env body = Inr ds"
      "load_loop (reg_devices r) ds [] = Ret m" "r' = r\<lparr>reg_devices := m\<rparr>" "err = None"
proof (cases "fetch_body env (reg_path r)")
  case (Inl e)
  with assms show ?thesis by (intro failed) (auto simp: loadOnce_def)
next
  case (Inr body)
  show ?thesis
  proof (cases "env_Decode env body")
    case (Inl e)
    with assms Inr show ?thesis by (intro failed) (auto simp: loadOnce_def)
  next
    case ds: (Inr ds)
    show ?thesis
    proof (cases "load_loop (reg_devices r) ds []")
      case (Panic m)
      with assms Inr ds show ?thesis by (simp add: loadOnce_def)
    next
      case (Ret m)
      with assms Inr ds show ?thesis by (intro loaded) (auto simp: loadOnce_def)
    qed
  qed
qed

lemma loadOnce_ok:
  assumes "reg_ok r" and "loadOnce env r = Ret (r', err)"
  shows "reg_ok r'"
  using assms(2) by (cases rule: loadOnce_cases) (auto simp: assms(1) load_loop_reg_ok)

lemma loadOnce_path: "loadOnce env r = Ret (r', err) \<Longrightarrow> reg_path r' = reg_path r"
  by (erule loadOnce_cases) auto

lemma loadOnce_panic:
  "loadOnce env r = Panic m \<Longrightarrow>
     \<exists>body ds. fetch_body env (reg_path r) = Inr body \<and> env_Decode env body = Inr ds \<and> None \<in> set ds"
  by (fastforce simp: loadOnce_def load_loop_panics [of "reg_devices r" _ "[]", symmetric]
      split: sum.splits outcome.splits)

lemma loadOnce_unreachable:
  "is_url (reg_path r) \<Longrightarrow> isl (env_http_Get env) \<Longrightarrow> \<exists>err. loadOnce env r = Ret (r, err)"
  by (auto simp: loadOnce_def fetch_body_def split: sum.splits)

lemma poll_turn_cases:
  assumes "poll_turn done_first took env pl r = Ret (pl', r')"
  obtains (ended) "pl' = None" "r' = r"
  | (loaded) err t where "t = max (pl_now pl) (pl_next pl)" "loadOnce env r = Ret (r', err)"
      "pl' = Some (pl\<lparr>pl_now := t + took, pl_next := next_tick t (pl_next pl)\<rparr>)"
      "pl_now pl < pl_next pl \<Longrightarrow> pl_next pl \<le> pl_deadline pl"
  using assms by (auto simp: poll_turn_def Let_def max_def split: if_splits outcome.splits prod.splits)

lemma poll_turn_panic:
  "poll_turn done_first took env pl r = Panic m \<Longrightarrow> loadOnce env r = Panic m"
  by (auto simp: poll_turn_def Let_def split: if_splits outcome.splits prod.splits)

lemma poll_ok: "reg_ok r \<Longrightarrow> poll turns pl r = Ret r' \<Longrightarrow> reg_ok r'"
  by (induction turns pl r rule: poll.induct)
    (auto split: outcome.splits option.splits elim!: poll_turn_cases dest: loadOnce_ok)

text \<open>A turn that finds only the context done ends the loop; an overdue tick may be taken after that.\<close>

lemma next_tick_after: "tick \<le> t \<Longrightarrow> t < next_tick t tick"
  using pos_mod_bound [of poll_interval "t - tick"] mult_div_mod_eq [of poll_interval "t - tick"]
  by (simp add: next_tick_def distrib_left poll_interval_def)

lemma next_tick_same [simp]: "next_tick tick tick = tick + poll_interval"
  by (simp add: next_tick_def)

lemma poll_turn_overdue:
  assumes "pl_next pl \<le> pl_now pl" and "loadOnce env r = Ret (r', err)"
  shows "poll_turn False took env pl r =
    Ret (Some (pl\<lparr>pl_now := pl_now pl + took, pl_next := next_tick (pl_now pl) (pl_next pl)\<rparr>), r')"
  using assms by (simp add: poll_turn_def Let_def max_def)

section \<open>The interface of a device registry\<close>

text \<open>
  What a client of \<open>ports.DeviceRegistry\<close> may rely on, over the abstract view of a
  registry as a partial function from IDs to devices.
\<close>

locale device_registry =
  fixes ops :: "'r registry_ops" and inv :: "'r \<Rightarrow> bool" and view :: "'r \<Rightarrow> string \<Rightarrow> device option"
  assumes get_spec: "inv r \<Longrightarrow> op_GetDevice ops r did =
        (case view r did of None \<Rightarrow> Inl ErrDeviceNotFound | Some d \<Rightarrow> Inr d)"
    and view_id: "inv r \<Longrightarrow> view r did = Some d \<Longrightarrow> dev_ID d = did"
    and update_view: "inv r \<Longrightarrow> view (fst (op_Update ops r d)) did =
        (if did = dev_ID d then map_option (\<lambda>e. apply_runtime e d) (view r did) else view r did)"
    and update_err: "inv r \<Longrightarrow> snd (op_Update ops r d) =
        (if view r (dev_ID d) = None then Some ErrDeviceNotFound else None)"
    and register_view: "inv r \<Longrightarrow> snd (op_Register ops r d) = None \<Longrightarrow>
        view r (dev_ID d) = None \<and> view (fst (op_Register ops r d)) = (view r)(dev_ID d \<mapsto> d)"
    and register_err: "inv r \<Longrightarrow> snd (op_Register ops r d) \<noteq> None \<Longrightarrow> fst (op_Register ops r d) = r"
    and remove_view: "inv r \<Longrightarrow> view (op_Remove ops r did) = (view r)(did := None)"
    and list_view: "inv r \<Longrightarrow> set (op_ListDevices ops r) = ran (view r)"
    and inv_update: "inv r \<Longrightarrow> inv (fst (op_Update ops r d))"
    and inv_register: "inv r \<Longrightarrow> inv (fst (op_Register ops r d))"
    and inv_remove: "inv r \<Longrightarrow> inv (op_Remove ops r did)"
begin

lemma get_found: "inv r \<Longrightarrow> op_GetDevice ops r did = Inr d \<longleftrightarrow> view r did = Some d"
  by (simp add: get_spec split: option.split)

lemma get_id: "inv r \<Longrightarrow> op_GetDevice ops r did = Inr d \<Longrightarrow> dev_ID d = did"
  using get_found view_id by blast

text \<open>No sequence of updates changes the core configuration of a device, or its presence.\<close>

lemma updates_core:
  "inv r \<Longrightarrow>
     map_option core_config (view (fold (\<lambda>d r. fst (op_Update ops r d)) ds r) did) =
     map_option core_config (view r did)"
proof (induction ds arbitrary: r)
  case (Cons d ds)
  have "map_option core_config (view (fst (op_Update ops r d)) did) = map_option core_config (view r did)"
    using Cons.prems by (simp add: update_view option.map_comp comp_def)
  with Cons inv_update show ?case by simp
qed simp

text \<open>Read, change the runtime state, write back: what the router does after a command.\<close>

lemma get_update:
  assumes "inv r" and "op_GetDevice ops r did = Inr d"
  shows "view (fst (op_Update ops r (d\<lparr>dev_Status := s, dev_LastSeen := t\<rparr>))) =
     (view r)(did \<mapsto> d\<lparr>dev_Status := s, dev_LastSeen := t\<rparr>)"
proof -
  have v: "view r did = Some d" and i: "dev_ID d = did"
    using assms get_found get_id by auto
  have a: "apply_runtime d (d\<lparr>dev_Status := s, dev_LastSeen := t\<rparr>) = d\<lparr>dev_Status := s, dev_LastSeen := t\<rparr>"
    by (cases d) (simp add: apply_runtime_def Let_def)
  show ?thesis using assms(1) v i a by (auto simp: fun_eq_iff update_view)
qed

end

definition reg_view :: "registry \<Rightarrow> string \<Rightarrow> device option" where
  "reg_view r = go_get (reg_devices r)"

definition map_order :: "('a list \<Rightarrow> 'a list) \<Rightarrow> bool" where
  "map_order ord \<longleftrightarrow> (\<forall>xs. set (ord xs) = set xs)"

text \<open>
  The static registry meets the interface; the order in which it ranges over its map stays a
  parameter, here the order of insertion.
\<close>

lemma ran_view: "map_ok m \<Longrightarrow> ran (go_get m) = snd ` set m"
  by (simp add: map_ok_def ran_distinct)

lemma static_registry_interface:
  assumes "map_order ord"
  shows "device_registry (static_registry_ops ord) reg_ok reg_view"
proof (unfold_locales, goal_cases)
  case (8 r)
  then show ?case using assms
    by (simp add: ListDevices_def map_order_def reg_view_def ran_view reg_ok_def)
qed (auto simp: GetDevice_def reg_view_def UpdateDevice_def RegisterDevice_def RemoveDevice_def
      get_put get_del reg_ok_get reg_ok_put UpdateDevice_ok [unfolded UpdateDevice_def]
      RegisterDevice_ok [unfolded RegisterDevice_def] RemoveDevice_ok [unfolded RemoveDevice_def]
      fun_eq_iff split: option.splits if_splits)

lemma map_order_id: "map_order (\<lambda>xs. xs)"
  by (simp add: map_order_def)

interpretation sreg: device_registry "static_registry_ops (\<lambda>xs. xs)" reg_ok reg_view
  by (rule static_registry_interface [OF map_order_id])

section \<open>Every run of the registry\<close>

text \<open>The operations and loads of a run, in any order, a load meeting any of \<open>envs\<close>; a load that panics ends the program.\<close>

inductive registry_step :: "'body load_env set \<Rightarrow> registry \<Rightarrow> registry \<Rightarrow> bool" for envs where
  reg_register: "registry_step envs r (fst (RegisterDevice r d))"
| reg_update: "registry_step envs r (fst (UpdateDevice r d))"
| reg_remove: "registry_step envs r (RemoveDevice r did)"
| reg_load: "env \<in> envs \<Longrightarrow> loadOnce env r = Ret (r', err) \<Longrightarrow> registry_step envs r r'"

definition registry_init :: "registry \<Rightarrow> bool" where
  "registry_init r \<longleftrightarrow> r = NewStaticJSONRegistry (reg_path r)"

lemma registry_step_ok: "registry_step envs r r' \<Longrightarrow> reg_ok r \<Longrightarrow> reg_ok r'"
  by (induction rule: registry_step.induct)
    (simp_all add: RegisterDevice_ok UpdateDevice_ok RemoveDevice_ok loadOnce_ok)

interpretation regsys: invariant_system registry_init "registry_step envs" reg_ok for envs
  by unfold_locales (metis registry_init_def reg_ok_New, rule registry_step_ok)

section \<open>Properties\<close>

text \<open>C11: loading the registry is all or nothing.  A failure (fetch, status, open, decode)
  leaves it as it was; a success replaces it by the last valid entry of each ID in the list,
  a known device keeping its status, its last-seen time and its metadata; it panics only on
  a JSON \<open>null\<close> among the devices.\<close>

theorem load_all_or_nothing:
  "case loadOnce env r of
     Panic m \<Rightarrow> \<exists>body ds. fetch_body env (reg_path r) = Inr body \<and> env_Decode env body = Inr ds \<and>
       None \<in> set ds
   | Ret (r', Some err) \<Rightarrow> r' = r
   | Ret (r', None) \<Rightarrow> \<exists>body ds. fetch_body env (reg_path r) = Inr body \<and>
       env_Decode env body = Inr ds \<and> reg_ok r' \<and>
       (\<forall>did. GetDevice r' did =
          (case last_valid did ds of None \<Rightarrow> Inl ErrDeviceNotFound
           | Some d \<Rightarrow> Inr (reloaded (reg_devices r) d)))"
proof (cases "loadOnce env r")
  case (Panic m)
  with loadOnce_panic [OF Panic] show ?thesis by simp
next
  case (Ret res)
  obtain r' err where res: "res = (r', err)" by (metis surj_pair)
  from Ret have "loadOnce env r = Ret (r', err)" by (simp add: res)
  then show ?thesis
  proof (cases rule: loadOnce_cases)
    case (failed e)
    then show ?thesis by (simp add: Ret res)
  next
    case (loaded body ds m)
    then show ?thesis using load_loop_get [OF loaded(3)] load_loop_reg_ok [OF loaded(3)]
      by (auto simp: Ret res GetDevice_def split: option.split)
  qed
qed

text \<open>C12: however registrations, updates, removals and (re)loads follow each other,
  what a lookup returns carries the ID asked for and passed validation: an ID, an address and
  a port between 1 and 65535.\<close>

theorem registry_always_valid:
  assumes "reach registry_init (registry_step envs) r"
  shows "case GetDevice r did of
    Inr d \<Rightarrow> dev_ID d = did \<and> did \<noteq> [] \<and> dev_IP d \<noteq> [] \<and> 0 < dev_Port d \<and> dev_Port d \<le> 65535
  | Inl e \<Rightarrow> e = ErrDeviceNotFound"
  using regsys.reach_inv [OF assms]
  by (auto simp: GetDevice_def reg_ok_def valid_device_def split: option.split)

lemma registry_always_valid_witness:
  "dev_ID projector = ''Projector01'' \<and> ''Projector01'' \<noteq> [] \<and> dev_IP projector \<noteq> [] \<and>
   0 < dev_Port projector \<and> dev_Port projector \<le> 65535"
proof -
  let ?start = "NewStaticJSONRegistry []" let ?r = "fst (RegisterDevice ?start projector)"
  have "reach registry_init (registry_step ({} :: unit load_env set)) ?start"
    by (rule reach_init) (simp add: registry_init_def NewStaticJSONRegistry_def)
  then have "reach registry_init (registry_step ({} :: unit load_env set)) ?r"
    by (rule reach_step) (rule reg_register)
  moreover have "GetDevice ?r ''Projector01'' = Inr projector"
    by (simp add: GetDevice_def RegisterDevice_def NewStaticJSONRegistry_def validateDevice_def)
  ultimately show ?thesis using registry_always_valid [of "{} :: unit load_env set" ?r "''Projector01''"]
    by simp
qed

text \<open>Updates are limited to runtime state.  After any sequence of them, with any
  content, the same devices are present and each has the core configuration it had; an update
  of an unknown device is refused and changes nothing.\<close>

lemma updates_keep_config:
  assumes "reg_ok r"
  shows "map_option core_config (go_get (reg_devices (fold (\<lambda>d r. fst (UpdateDevice r d)) ds r)) did) =
      map_option core_config (go_get (reg_devices r) did) \<and>
    (go_get (reg_devices r) (dev_ID d) = None) = (UpdateDevice r d = (r, Some ErrDeviceNotFound))"
  using sreg.updates_core [OF assms, of ds did]
  by (auto simp: reg_view_def UpdateDevice_def split: option.split)

end
