(* ===== verification/SQLiteBuffer.thy ===== *)
theory SQLiteBuffer
  imports Domain
begin

text \<open>
  \<open>internal/buffer/sqlite_buffer.go\<close>: the telemetry buffer.  The table is the list of its
  rows in insertion order, with the AUTOINCREMENT counter; the SQL statements of the source
  are functions on it.  The driver may fail in every call: \<open>db_faults\<close> holds the outcome of
  the successive calls, success once used up.  The order that \<open>ORDER BY timestamp ASC\<close>
  gives to equal timestamps is the engine's, so the ordering is a parameter \<open>ord\<close>.
\<close>

section \<open>The table\<close>

record row =
  row_id :: int
  row_timestamp :: time
  row_data_type :: string
  row_payload :: json

record sqlite =
  db_rows :: "row list"
  db_seq :: int
  db_faults :: "go_error option list"
  db_closed :: bool

text \<open>One call of the driver: its error, if any.  A closed database fails every call.\<close>

definition db_call :: "sqlite \<Rightarrow> sqlite \<times> go_error option" where
  "db_call db =
     (if db_closed db then (db, Some (OtherErr ''sql: database is closed''))
      else (db\<lparr>db_faults := tl (db_faults db)\<rparr>,
            (case db_faults db of [] \<Rightarrow> None | f # _ \<Rightarrow> f)))"

text \<open>
  What opening the database meets: the directory, the file with the table it already holds
  (nothing, for a new file), and the outcomes of the driver's calls.
\<close>

record sqlite_env =
  se_MkdirAll :: "go_error option"
  se_Open :: "go_error + (row list \<times> int)"
  se_faults :: "go_error option list"

definition NewSQLiteBuffer :: "sqlite_env \<Rightarrow> sqlite result" where
  "NewSQLiteBuffer env =
     (case se_MkdirAll env of
        Some err \<Rightarrow> Inl (wrap_last ''failed to create directory for database'' err)
      | None \<Rightarrow>
          (case se_Open env of
             Inl err \<Rightarrow> Inl (wrap_last ''failed to open database'' err)
           | Inr (rows, seq) \<Rightarrow>
               (case db_call \<lparr>db_rows = rows, db_seq = seq, db_faults = se_faults env, db_closed = False\<rparr> of
                  (db, Some err) \<Rightarrow> Inl (wrap_last ''failed to initialize schema'' err)
                | (db, None) \<Rightarrow> Inr db)))"

text \<open>A new, healthy database.\<close>

definition empty_db :: sqlite where
  "empty_db = \<lparr>db_rows = [], db_seq = 0, db_faults = [], db_closed = False\<rparr>"

definition insert_row :: "sqlite \<Rightarrow> time \<Rightarrow> string \<Rightarrow> json \<Rightarrow> sqlite" where
  "insert_row db now dataType payload =
     db\<lparr>db_rows := db_rows db @ [\<lparr>row_id = db_seq db + 1, row_timestamp = now,
           row_data_type = dataType, row_payload = payload\<rparr>],
        db_seq := db_seq db + 1\<rparr>"

definition delete_upto :: "sqlite \<Rightarrow> int \<Rightarrow> sqlite" where
  "delete_upto db maxId = db\<lparr>db_rows := filter (\<lambda>r. \<not> row_id r \<le> maxId) (db_rows db)\<rparr>"

definition delete_before :: "sqlite \<Rightarrow> time \<Rightarrow> sqlite" where
  "delete_before db cutoff = db\<lparr>db_rows := filter (\<lambda>r. \<not> row_timestamp r < cutoff) (db_rows db)\<rparr>"

definition row_item :: "row \<Rightarrow> buffered_item" where
  "row_item r = \<lparr>item_Timestamp = row_timestamp r, item_DataType = row_data_type r,
     item_Payload = row_payload r\<rparr>"

section \<open>Operations\<close>

definition AddData :: "sqlite \<Rightarrow> time \<Rightarrow> string \<Rightarrow> json \<Rightarrow> sqlite \<times> go_error option" where
  "AddData db now dataType payload =
     (case json_Marshal payload of
        Inl err \<Rightarrow> (db, Some (wrap_last ''failed to marshal payload'' err))
      | Inr payloadBytes \<Rightarrow>
          (case db_call db of
             (db1, Some err) \<Rightarrow> (db1, Some (wrap_last ''failed to insert data'' err))
           | (db1, None) \<Rightarrow> (insert_row db1 now dataType payloadBytes, None)))"

text \<open>
  The loop over the result set.  \<open>rows.Next\<close> returns false at the end and on an error
  alike; \<open>rows.Scan\<close> returns its error.  The rows scanned so far, and that error.
\<close>

fun scan_rows :: "row list \<Rightarrow> sqlite \<Rightarrow> sqlite \<times> row list \<times> go_error option" where
  "scan_rows [] db = (fst (db_call db), [], None)"
| "scan_rows (r # rs) db =
     (case db_call db of
        (db1, Some err) \<Rightarrow> (db1, [], None)
      | (db1, None) \<Rightarrow>
          (case db_call db1 of
             (db2, Some err) \<Rightarrow> (db2, [], Some (wrap_last ''failed to scan row'' err))
           | (db2, None) \<Rightarrow>
               (let (db3, scanned, e) = scan_rows rs db2 in (db3, r # scanned, e))))"

text \<open>\<open>Rollback\<close>: the rows are those of the start of the transaction.\<close>

definition rollback :: "sqlite \<Rightarrow> sqlite \<Rightarrow> sqlite" where
  "rollback db0 db = db\<lparr>db_rows := db_rows db0\<rparr>"

definition Fetch :: "(row list \<Rightarrow> row list) \<Rightarrow> sqlite \<Rightarrow> sqlite \<times> buffered_item list result" where
  "Fetch ord db =
     (case db_call db of
        (db1, Some err) \<Rightarrow> (db1, Inl (wrap_last ''failed to begin transaction'' err))
      | (db1, None) \<Rightarrow>
          (case db_call db1 of
             (db2, Some err) \<Rightarrow> (rollback db db2, Inl (wrap_last ''failed to query buffer'' err))
           | (db2, None) \<Rightarrow>
               (case scan_rows (ord (db_rows db2)) db2 of
                  (db3, scanned, Some err) \<Rightarrow> (rollback db db3, Inl err)
                | (db3, scanned, None) \<Rightarrow>
                    (let items = map row_item scanned;
                         ids = map row_id scanned;
                         (db4, delErr) =
                           (if ids \<noteq> []
                            then (case db_call db3 of
                                    (d, Some err) \<Rightarrow>
                                      (d, Some (wrap_last ''failed to delete fetched rows'' err))
                                  | (d, None) \<Rightarrow> (delete_upto d (last ids), None))
                            else (db3, None))
                     in case delErr of
                          Some err \<Rightarrow> (rollback db db4, Inl err)
                        | None \<Rightarrow>
                            (case db_call db4 of
                               (db5, Some err) \<Rightarrow>
                                 (rollback db db5, Inl (wrap_last ''failed to commit transaction'' err))
                             | (db5, None) \<Rightarrow> (db5, Inr items))))))"

text \<open>One tick of the cleanup ticker, and the loop; \<open>None\<close> is the end of its context.\<close>

definition cleanup_tick :: "duration \<Rightarrow> sqlite \<Rightarrow> time \<Rightarrow> sqlite" where
  "cleanup_tick retention db now =
     (let cutoff = now + sint (- retention)
      in case db_call db of
           (db1, Some err) \<Rightarrow> db1
         | (db1, None) \<Rightarrow> delete_before db1 cutoff)"

fun StartCleanup :: "duration \<Rightarrow> sqlite \<Rightarrow> time option list \<Rightarrow> sqlite" where
  "StartCleanup retention db [] = db"
| "StartCleanup retention db (None # evs) = db"
| "StartCleanup retention db (Some now # evs) = StartCleanup retention (cleanup_tick retention db now) evs"

definition CloseBuffer :: "sqlite \<Rightarrow> sqlite" where
  "CloseBuffer db = db\<lparr>db_closed := True\<rparr>"

definition sqlite_buffer_ops :: "(row list \<Rightarrow> row list) \<Rightarrow> sqlite buffer_ops" where
  "sqlite_buffer_ops ord = \<lparr>op_AddData = AddData, op_Fetch = Fetch ord\<rparr>"

lemma sqlite_buffer_ops_simps [simp]:
  "op_AddData (sqlite_buffer_ops ord) = AddData" "op_Fetch (sqlite_buffer_ops ord) = Fetch ord"
  by (simp_all add: sqlite_buffer_ops_def)

section \<open>Lemmas on single calls\<close>

text \<open>The engine's ordering: a permutation, sorted by timestamp.\<close>

definition sql_order :: "(row list \<Rightarrow> row list) \<Rightarrow> bool" where
  "sql_order ord \<longleftrightarrow> (\<forall>rs. mset (ord rs) = mset rs \<and> sorted (map row_timestamp (ord rs)))"

lemma sql_order_sort: "sql_order (sort_key row_timestamp)"
  by (simp add: sql_order_def)

definition healthy :: "sqlite \<Rightarrow> bool" where
  "healthy db \<longleftrightarrow> \<not> db_closed db \<and> (\<forall>f \<in> set (db_faults db). f = None)"

lemma db_call_frame [simp]:
  "db_rows (fst (db_call db)) = db_rows db" "db_seq (fst (db_call db)) = db_seq db"
  "db_closed (fst (db_call db)) = db_closed db"
  by (simp_all add: db_call_def)

lemma db_call_rows:
  "db_call db = (db', e) \<Longrightarrow> db_rows db' = db_rows db \<and> db_seq db' = db_seq db \<and> db_closed db' = db_closed db"
  by (metis db_call_frame fst_conv)

lemma db_call_healthy: "healthy db \<Longrightarrow> \<exists>db'. db_call db = (db', None) \<and> healthy db'"
  by (cases "db_faults db") (auto simp: healthy_def db_call_def)

lemma scan_rows_frame:
  "scan_rows rs db = (db', sc, e) \<Longrightarrow>
     db_rows db' = db_rows db \<and> db_seq db' = db_seq db \<and> prefix sc rs"
proof (induction rs arbitrary: db db' sc e)
  case (Cons r rs)
  then show ?case
    by (auto split: prod.splits option.splits dest!: db_call_rows)
qed auto

lemma scan_rows_healthy:
  "healthy db \<Longrightarrow> \<exists>db'. scan_rows rs db = (db', rs, None) \<and> healthy db'"
proof (induction rs arbitrary: db)
  case Nil
  then show ?case using db_call_healthy [of db] by auto
next
  case (Cons r rs)
  obtain d1 where d1: "db_call db = (d1, None)" "healthy d1" using db_call_healthy [OF Cons.prems] by auto
  obtain d2 where d2: "db_call d1 = (d2, None)" "healthy d2" using db_call_healthy [OF d1(2)] by auto
  obtain d3 where d3: "scan_rows rs d2 = (d3, rs, None)" "healthy d3" using Cons.IH [OF d2(2)] by auto
  from d1 d2 d3 show ?case by simp
qed

lemma AddData_cases:
  "AddData db now ty p = (db', e) \<Longrightarrow>
     (e \<noteq> None \<and> db_rows db' = db_rows db \<and> db_seq db' = db_seq db) \<or>
     (e = None \<and> json_finite p \<and> db_seq db' = db_seq db + 1 \<and>
      db_rows db' = db_rows db @ [\<lparr>row_id = db_seq db + 1, row_timestamp = now,
        row_data_type = ty, row_payload = p\<rparr>])"
  by (auto simp: AddData_def json_Marshal_def insert_row_def split: if_splits prod.splits option.splits
      dest: db_call_rows)

lemma AddData_healthy:
  assumes "healthy db" and "json_finite p"
  shows "\<exists>db'. AddData db now ty p = (db', None) \<and> healthy db' \<and> db_seq db' = db_seq db + 1 \<and>
    db_rows db' = db_rows db @ [\<lparr>row_id = db_seq db + 1, row_timestamp = now,
        row_data_type = ty, row_payload = p\<rparr>]"
proof -
  obtain d1 where d1: "db_call db = (d1, None)" "healthy d1" using db_call_healthy [OF assms(1)] by auto
  then show ?thesis using assms(2) db_call_rows [OF d1(1)]
    by (auto simp: AddData_def json_Marshal_def insert_row_def healthy_def)
qed

section \<open>Lemmas on Fetch\<close>

lemma Fetch_error:
  "Fetch ord db = (db', Inl e) \<Longrightarrow> db_rows db' = db_rows db"
  by (auto simp: Fetch_def rollback_def Let_def split: prod.splits option.splits if_splits
      dest: db_call_rows)

definition unfetched :: "row list \<Rightarrow> row list \<Rightarrow> row list" where
  "unfetched scanned rows =
     (if scanned = [] then rows else filter (\<lambda>r. row_id (last scanned) < row_id r) rows)"

lemma Fetch_success:
  assumes "Fetch ord db = (db', Inr items)"
  shows "\<exists>sc. prefix sc (ord (db_rows db)) \<and> items = map row_item sc \<and>
    db_rows db' = unfetched sc (db_rows db) \<and> db_seq db' = db_seq db"
proof -
  obtain d1 e1 where c1: "db_call db = (d1, e1)" by (metis surj_pair)
  obtain d2 e2 where c2: "db_call d1 = (d2, e2)" by (metis surj_pair)
  obtain d3 sc e3 where c3: "scan_rows (ord (db_rows d2)) d2 = (d3, sc, e3)" by (metis prod_cases3)
  obtain d4 e4 where c4: "db_call d3 = (d4, e4)" by (metis surj_pair)
  have ok: "e1 = None" "e2 = None" "e3 = None"
    using assms c1 c2 c3 by (auto simp: Fetch_def split: option.splits)
  have rows: "db_rows d4 = db_rows db" "db_rows d3 = db_rows db" "db_rows d2 = db_rows db"
    "db_seq d4 = db_seq db" "db_seq d3 = db_seq db"
    using db_call_rows [OF c1] db_call_rows [OF c2] scan_rows_frame [OF c3] db_call_rows [OF c4] by auto
  have pre: "prefix sc (ord (db_rows db))" using scan_rows_frame [OF c3] rows by simp
  show ?thesis
  proof (cases "sc = []")
    case True
    with assms c1 c2 c3 c4 ok rows have "items = [] \<and> db_rows db' = db_rows db \<and> db_seq db' = db_seq db"
      by (auto simp: Fetch_def Let_def split: option.splits)
    with True show ?thesis by (intro exI [of _ "[]"]) (simp add: unfetched_def)
  next
    case False
    obtain d5 e5 where c5: "db_call (delete_upto d4 (last (map row_id sc))) = (d5, e5)"
      by (metis surj_pair)
    have "db_rows d5 = filter (\<lambda>r. \<not> row_id r \<le> last (map row_id sc)) (db_rows db)"
      "db_seq d5 = db_seq db"
      using db_call_rows [OF c5] rows by (simp_all add: delete_upto_def)
    with assms c1 c2 c3 c4 c5 ok rows pre False show ?thesis
      by (intro exI [of _ sc])
        (auto simp: Fetch_def Let_def unfetched_def last_map not_le split: option.splits)
  qed
qed

lemma Fetch_healthy:
  assumes "healthy db"
  shows "\<exists>db'. Fetch ord db = (db', Inr (map row_item (ord (db_rows db)))) \<and> healthy db' \<and>
    db_rows db' = unfetched (ord (db_rows db)) (db_rows db) \<and> db_seq db' = db_seq db"
proof -
  obtain d1 where c1: "db_call db = (d1, None)" "healthy d1" using db_call_healthy [OF assms] by auto
  obtain d2 where c2: "db_call d1 = (d2, None)" "healthy d2" using db_call_healthy [OF c1(2)] by auto
  obtain d3 where c3: "scan_rows (ord (db_rows d2)) d2 = (d3, ord (db_rows d2), None)" "healthy d3"
    using scan_rows_healthy [OF c2(2)] by auto
  obtain d4 where c4: "db_call d3 = (d4, None)" "healthy d4" using db_call_healthy [OF c3(2)] by auto
  have rows: "db_rows d4 = db_rows db" "db_rows d3 = db_rows db" "db_rows d2 = db_rows db"
    "db_seq d4 = db_seq db" "db_seq d3 = db_seq db"
    using db_call_rows [OF c1(1)] db_call_rows [OF c2(1)] scan_rows_frame [OF c3(1)]
      db_call_rows [OF c4(1)] by auto
  show ?thesis
  proof (cases "ord (db_rows db) = []")
    case True
    with c1 c2 c3 c4 rows show ?thesis by (simp add: Fetch_def Let_def unfetched_def)
  next
    case False
    let ?d = "delete_upto d4 (last (map row_id (ord (db_rows db))))"
    have "healthy ?d" using c4(2) by (simp add: healthy_def delete_upto_def)
    then obtain d5 where c5: "db_call ?d = (d5, None)" "healthy d5" using db_call_healthy by blast
    have "db_rows d5 = unfetched (ord (db_rows db)) (db_rows db)" "db_seq d5 = db_seq db"
      using db_call_rows [OF c5(1)] rows False
      by (simp_all add: delete_upto_def unfetched_def last_map not_le)
    with c1 c2 c3 c4 c5 rows False show ?thesis by (simp add: Fetch_def Let_def)
  qed
qed

section \<open>Invariant\<close>

text \<open>Row IDs increase in insertion order and never pass the counter.\<close>

definition db_ok :: "sqlite \<Rightarrow> bool" where
  "db_ok db \<longleftrightarrow> sorted_wrt (<) (map row_id (db_rows db)) \<and> (\<forall>r \<in> set (db_rows db). row_id r \<le> db_seq db)"

lemma db_ok_empty [simp]: "db_ok empty_db"
  by (simp add: db_ok_def empty_db_def)

lemma healthy_empty [simp]: "healthy empty_db"
  by (simp add: healthy_def empty_db_def)

lemma db_ok_filter:
  "db_ok db \<Longrightarrow> db_rows db' = filter P (db_rows db) \<Longrightarrow> db_seq db' = db_seq db \<Longrightarrow> db_ok db'"
  by (auto simp: db_ok_def sorted_wrt_map sorted_wrt_filter)

lemma db_ok_same: "db_ok db \<Longrightarrow> db_rows db' = db_rows db \<Longrightarrow> db_seq db' = db_seq db \<Longrightarrow> db_ok db'"
  by (simp add: db_ok_def)

lemma AddData_ok:
  assumes "db_ok db"
  shows "db_ok (fst (AddData db now ty p))"
proof -
  have le: "row_id r < db_seq db + 1" if "r \<in> set (db_rows db)" for r
    using assms that by (fastforce simp: db_ok_def)
  then have "\<forall>r \<in> set (db_rows db). row_id r \<le> db_seq db + 1" by (blast intro: less_imp_le)
  with le show ?thesis
    using assms AddData_cases [of db now ty p "fst (AddData db now ty p)" "snd (AddData db now ty p)"]
    by (auto simp: db_ok_def sorted_wrt_append)
qed

lemma Fetch_seq: "db_seq (fst (Fetch ord db)) = db_seq db"
  by (auto simp: Fetch_def rollback_def Let_def delete_upto_def
      split: prod.splits option.splits if_splits dest!: db_call_rows scan_rows_frame)

lemma Fetch_ok:
  assumes "db_ok db"
  shows "db_ok (fst (Fetch ord db))"
proof -
  obtain db' r where f: "Fetch ord db = (db', r)" by (metis surj_pair)
  have seq: "db_seq db' = db_seq db" using Fetch_seq [of ord db] f by simp
  show ?thesis
  proof (cases r)
    case (Inl e)
    with f assms seq show ?thesis using Fetch_error db_ok_same by (metis fst_conv)
  next
    case (Inr items)
    with f obtain sc where "db_rows db' = unfetched sc (db_rows db)" using Fetch_success by blast
    with assms seq f show ?thesis
      by (auto simp: unfetched_def intro: db_ok_filter db_ok_same split: if_splits)
  qed
qed

lemma cleanup_ok: "db_ok db \<Longrightarrow> db_ok (cleanup_tick ret db now)"
  by (auto simp: cleanup_tick_def delete_before_def Let_def split: prod.split option.split
      dest!: db_call_rows intro: db_ok_filter [of db] db_ok_same [of db])

text \<open>With timestamps that grow with the row IDs the whole table is fetched, once, in order.\<close>

lemma sql_order_unique:
  assumes "sql_order ord" and "sorted_wrt (<) (map row_timestamp rows)"
  shows "ord rows = rows"
proof (rule map_sorted_distinct_set_unique [of row_timestamp])
  have m: "mset (ord rows) = mset rows" and s: "sorted (map row_timestamp (ord rows))"
    using assms(1) by (simp_all add: sql_order_def)
  have d: "sorted (map row_timestamp rows)" "distinct (map row_timestamp rows)"
    using assms(2) strict_sorted_iff by auto
  show "set (ord rows) = set rows" using m by (metis set_mset_mset)
  show "sorted (map row_timestamp (ord rows))" by (rule s)
  show "sorted (map row_timestamp rows)" "distinct (map row_timestamp rows)" by (fact d)+
  have "mset (map row_timestamp (ord rows)) = mset (map row_timestamp rows)" using m by simp
  then show "distinct (map row_timestamp (ord rows))" using d(2) mset_eq_imp_distinct_iff by blast
  show "inj_on row_timestamp (set (ord rows) \<union> set rows)"
    using d(2) m by (metis Un_absorb distinct_map set_mset_mset)
qed

lemma unfetched_all:
  assumes "db_ok db"
  shows "unfetched (db_rows db) (db_rows db) = []"
proof (cases "db_rows db" rule: rev_cases)
  case (snoc rs r)
  then have "\<forall>x \<in> set rs. row_id x < row_id r" using assms by (auto simp: db_ok_def sorted_wrt_append)
  then show ?thesis by (auto simp: unfetched_def snoc filter_empty_conv)
qed (simp add: unfetched_def)

section \<open>The interface of a telemetry buffer\<close>

datatype buffer_op = BufAdd time string json | BufFetch

text \<open>A run of operations: the items that successful fetches returned, in order.\<close>

fun buf_run :: "'b buffer_ops \<Rightarrow> 'b \<Rightarrow> buffer_op list \<Rightarrow> 'b \<times> buffered_item list" where
  "buf_run ops b [] = (b, [])"
| "buf_run ops b (BufAdd now ty p # cmds) = buf_run ops (fst (op_AddData ops b now ty p)) cmds"
| "buf_run ops b (BufFetch # cmds) =
     (case op_Fetch ops b of
        (b', Inl e) \<Rightarrow> buf_run ops b' cmds
      | (b', Inr items) \<Rightarrow> (let (b2, out) = buf_run ops b' cmds in (b2, items @ out)))"

fun added :: "buffer_op list \<Rightarrow> buffered_item set" where
  "added [] = {}"
| "added (BufAdd now ty p # cmds) =
     insert \<lparr>item_Timestamp = now, item_DataType = ty, item_Payload = p\<rparr> (added cmds)"
| "added (BufFetch # cmds) = added cmds"

locale telemetry_buffer =
  fixes ops :: "'b buffer_ops" and inv :: "'b \<Rightarrow> bool" and contents :: "'b \<Rightarrow> buffered_item list"
  assumes add_ok: "inv b \<Longrightarrow> op_AddData ops b now ty p = (b', None) \<Longrightarrow>
        contents b' = contents b @ [\<lparr>item_Timestamp = now, item_DataType = ty, item_Payload = p\<rparr>]"
    and add_err: "inv b \<Longrightarrow> op_AddData ops b now ty p = (b', Some e) \<Longrightarrow> contents b' = contents b"
    and fetch_err: "inv b \<Longrightarrow> op_Fetch ops b = (b', Inl e) \<Longrightarrow> contents b' = contents b"
    and fetch_items: "inv b \<Longrightarrow> op_Fetch ops b = (b', Inr items) \<Longrightarrow> mset items \<subseteq># mset (contents b)"
    and fetch_rest: "inv b \<Longrightarrow> op_Fetch ops b = (b', Inr items) \<Longrightarrow> subseq (contents b') (contents b)"
    and inv_add: "inv b \<Longrightarrow> inv (fst (op_AddData ops b now ty p))"
    and inv_fetch: "inv b \<Longrightarrow> inv (fst (op_Fetch ops b))"
begin

lemma add_contents:
  assumes "inv b"
  shows "contents (fst (op_AddData ops b now ty p)) =
    contents b @ (if snd (op_AddData ops b now ty p) = None
      then [\<lparr>item_Timestamp = now, item_DataType = ty, item_Payload = p\<rparr>] else [])"
proof (cases "op_AddData ops b now ty p")
  case (Pair b' e)
  then show ?thesis using add_ok [OF assms] add_err [OF assms] by (cases e) auto
qed

text \<open>Nothing comes out of the buffer that was not put in.\<close>

lemma run_delivers:
  "inv b \<Longrightarrow> set (snd (buf_run ops b cmds)) \<subseteq> set (contents b) \<union> added cmds"
proof (induction cmds arbitrary: b)
  case (Cons op cmds)
  show ?case
  proof (cases op)
    case (BufAdd now ty p)
    have "inv (fst (op_AddData ops b now ty p))" using Cons.prems by (rule inv_add)
    from Cons.IH [OF this] BufAdd Cons.prems show ?thesis
      by (auto simp: add_contents split: if_splits)
  next
    case BufFetch
    obtain b' r where f: "op_Fetch ops b = (b', r)" by (metis surj_pair)
    have i: "inv b'" using inv_fetch [OF Cons.prems] f by simp
    show ?thesis
    proof (cases r)
      case (Inl e)
      with Cons.IH [OF i] BufFetch f fetch_err [OF Cons.prems] show ?thesis by simp
    next
      case (Inr items)
      have "set items \<subseteq> set (contents b)"
        using fetch_items [OF Cons.prems] f Inr by (metis set_mset_mono set_mset_mset)
      moreover have "set (contents b') \<subseteq> set (contents b)"
        using fetch_rest [OF Cons.prems] f Inr by (auto dest: subseq_set)
      ultimately show ?thesis using Cons.IH [OF i] BufFetch f Inr by (auto split: prod.splits)
    qed
  qed
qed simp

end

definition db_contents :: "sqlite \<Rightarrow> buffered_item list" where
  "db_contents db = map row_item (db_rows db)"

lemma row_item_simp [simp]:
  "row_item \<lparr>row_id = i, row_timestamp = t, row_data_type = ty, row_payload = p\<rparr> =
     \<lparr>item_Timestamp = t, item_DataType = ty, item_Payload = p\<rparr>"
  by (simp add: row_item_def)

lemma mset_prefix: "prefix xs ys \<Longrightarrow> mset xs \<subseteq># mset ys"
  by (auto simp: prefix_def)

lemma sqlite_buffer_interface:
  assumes "sql_order ord"
  shows "telemetry_buffer (sqlite_buffer_ops ord) db_ok db_contents"
proof (unfold_locales, goal_cases)
  case (1 b now ty p b')
  then show ?case using AddData_cases by (fastforce simp: db_contents_def)
next
  case (2 b now ty p b' e)
  then show ?case using AddData_cases by (fastforce simp: db_contents_def)
next
  case (3 b b' e)
  then show ?case using Fetch_error by (fastforce simp: db_contents_def)
next
  case (4 b b' items)
  then obtain sc where "prefix sc (ord (db_rows b))" "items = map row_item sc"
    using Fetch_success by (metis sqlite_buffer_ops_simps(2))
  moreover have "mset (ord (db_rows b)) = mset (db_rows b)" using assms by (simp add: sql_order_def)
  ultimately show ?case
    using mset_prefix image_mset_subseteq_mono by (metis db_contents_def mset_map)
next
  case (5 b b' items)
  then obtain sc where "db_rows b' = unfetched sc (db_rows b)"
    using Fetch_success by (metis sqlite_buffer_ops_simps(2))
  then show ?case by (simp add: db_contents_def unfetched_def subseq_map)
next
  case (6 b now ty p)
  then show ?case by (simp add: AddData_ok)
next
  case (7 b)
  then show ?case by (simp add: Fetch_ok)
qed

interpretation sbuf: telemetry_buffer "sqlite_buffer_ops (sort_key row_timestamp)" db_ok db_contents
  by (rule sqlite_buffer_interface [OF sql_order_sort])

section \<open>The buffer as a queue\<close>

text \<open>The specification: insertion at the end, a fetch that hands out everything.\<close>

fun queue_run :: "buffered_item list \<Rightarrow> buffer_op list \<Rightarrow> buffered_item list \<times> buffered_item list" where
  "queue_run q [] = (q, [])"
| "queue_run q (BufAdd now ty p # cmds) =
     queue_run (q @ [\<lparr>item_Timestamp = now, item_DataType = ty, item_Payload = p\<rparr>]) cmds"
| "queue_run q (BufFetch # cmds) = (let (q', out) = queue_run [] cmds in (q', q @ out))"

fun add_times :: "buffer_op list \<Rightarrow> time list" where
  "add_times [] = []"
| "add_times (BufAdd now ty p # cmds) = now # add_times cmds"
| "add_times (BufFetch # cmds) = add_times cmds"

fun writable :: "buffer_op \<Rightarrow> bool" where
  "writable (BufAdd now ty p) = json_finite p"
| "writable BufFetch = True"

text \<open>With timestamps that grow from row to row, a healthy fetch returns and deletes everything.\<close>

lemma Fetch_monotone:
  assumes "sql_order ord" and "healthy db" and "db_ok db" and "sorted_wrt (<) (map row_timestamp (db_rows db))"
  shows "\<exists>db'. Fetch ord db = (db', Inr (db_contents db)) \<and> db_rows db' = [] \<and> healthy db'"
proof -
  have "ord (db_rows db) = db_rows db" by (rule sql_order_unique [OF assms(1,4)])
  with Fetch_healthy [OF assms(2), of ord] unfetched_all [OF assms(3)] show ?thesis
    by (auto simp: db_contents_def)
qed

lemma run_refines_queue:
  assumes "sql_order ord"
  shows "healthy db \<Longrightarrow> db_ok db \<Longrightarrow> list_all writable cmds \<Longrightarrow>
     sorted_wrt (<) (map row_timestamp (db_rows db) @ add_times cmds) \<Longrightarrow>
     (case buf_run (sqlite_buffer_ops ord) db cmds of (db', out) \<Rightarrow>
        (db_contents db', out) = queue_run (db_contents db) cmds)"
proof (induction cmds arbitrary: db)
  case (Cons op cmds)
  show ?case
  proof (cases op)
    case (BufAdd now ty p)
    obtain d where d: "AddData db now ty p = (d, None)" "healthy d"
      "db_rows d = db_rows db @ [\<lparr>row_id = db_seq db + 1, row_timestamp = now, row_data_type = ty, row_payload = p\<rparr>]"
      using AddData_healthy [OF Cons.prems(1), of p now ty] Cons.prems(3) BufAdd by auto
    have ok: "db_ok d" using AddData_ok [OF Cons.prems(2), of now ty p] d(1) by simp
    have "db_contents d = db_contents db @ [\<lparr>item_Timestamp = now, item_DataType = ty, item_Payload = p\<rparr>]"
      using d(3) by (simp add: db_contents_def)
    with Cons.IH [OF d(2) ok] Cons.prems(3,4) BufAdd d(1,3) show ?thesis by simp
  next
    case BufFetch
    obtain d where d: "Fetch ord db = (d, Inr (db_contents db))" "db_rows d = []" "healthy d"
      using Fetch_monotone [OF assms Cons.prems(1,2)] Cons.prems(4) by (auto simp: sorted_wrt_append)
    have ok: "db_ok d" using Fetch_ok [OF Cons.prems(2), of ord] d(1) by simp
    have "db_contents d = []" using d(2) by (simp add: db_contents_def)
    with Cons.IH [OF d(3) ok] Cons.prems(3,4) BufFetch d(1,2) show ?thesis
      by (auto simp: sorted_wrt_append split: prod.splits)
  qed
qed simp

lemma sint_minus_minutes:
  assumes "0 \<le> n" and "n * 60000000000 < 2 ^ 63"
  shows "sint (- minutes n) = - (n * 60000000000)"
proof -
  have "- minutes n = of_int (- (n * 60000000000))" by (simp add: minutes_def)
  moreover have "- (2 ^ 63) \<le> - (n * 60000000000)" "- (n * 60000000000) < 2 ^ 63" using assms by auto
  ultimately show ?thesis using sint_of_int_in_range [of "- (n * 60000000000)"] by simp
qed

lemma sql_order_swapped:
  assumes "sql_order ord" and "row_timestamp b < row_timestamp a"
  shows "ord [a, b] = [b, a]"
proof -
  have m: "mset (ord [a, b]) = mset [a, b]" "sorted (map row_timestamp (ord [a, b]))"
    using assms(1) by (simp_all add: sql_order_def)
  obtain x y where xy: "ord [a, b] = [x, y]"
    using mset_eq_length [OF m(1)] by (auto simp: length_Suc_conv)
  with m assms(2) show ?thesis by (auto simp: add_eq_conv_ex)
qed

text \<open>An error of \<open>rows.Next\<close> is taken for the end of the result.  When it comes after
  the first of two rows, and that one has the larger ID, the fetch succeeds with one item and
  deletes both: the other is lost without an error.\<close>

lemma iteration_error_loses_rows:
  assumes "sql_order ord" and "db_rows db = [a, b]" and "row_id a < row_id b"
    and "row_timestamp b < row_timestamp a" and "\<not> db_closed db"
    and "db_faults db = [None, None, None, None, Some err]"
  shows "\<exists>db'. Fetch ord db = (db', Inr [row_item b]) \<and> db_rows db' = []"
proof -
  have "ord [a, b] = [b, a]" by (rule sql_order_swapped [OF assms(1,4)])
  with assms show ?thesis by (simp add: Fetch_def db_call_def delete_upto_def)
qed

section \<open>Properties\<close>

text \<open>C9: on a database that does not fail and a clock that goes forward the buffer implements a
  queue.  For any sequence of insertions and fetches, what the fetches return and what is left in
  the table are what the queue gives: every item once, complete, unchanged and in the order of
  insertion.\<close>

theorem buffer_refines_queue:
  assumes "sql_order ord" and "healthy db" and "db_ok db" and "list_all writable cmds"
    and "sorted_wrt (<) (map row_timestamp (db_rows db) @ add_times cmds)"
  shows "case buf_run (sqlite_buffer_ops ord) db cmds of (db', out) \<Rightarrow>
    (db_contents db', out) = queue_run (db_contents db) cmds"
  by (rule run_refines_queue [OF assms])

lemma buffer_refines_queue_witness:
  "case buf_run (sqlite_buffer_ops (sort_key row_timestamp)) empty_db
       [BufAdd 1 ''telemetry'' JNull, BufAdd 2 ''telemetry'' (JInt 5), BufFetch, BufAdd 3 ''telemetry'' JNull] of (db', out) \<Rightarrow>
    db_contents db' = [\<lparr>item_Timestamp = 3, item_DataType = ''telemetry'', item_Payload = JNull\<rparr>] \<and>
    out = [\<lparr>item_Timestamp = 1, item_DataType = ''telemetry'', item_Payload = JNull\<rparr>,
      \<lparr>item_Timestamp = 2, item_DataType = ''telemetry'', item_Payload = JInt 5\<rparr>]"
  using buffer_refines_queue [OF sql_order_sort healthy_empty db_ok_empty, of
      "[BufAdd 1 ''telemetry'' JNull, BufAdd 2 ''telemetry'' (JInt 5), BufFetch, BufAdd 3 ''telemetry'' JNull]"]
  by (simp add: empty_db_def db_contents_def split: prod.splits)

text \<open>C10: a fetch that fails, at whichever call of the driver, loses nothing: the table
  is as before.  One that succeeds returns rows of the table, sorted by time, and removes none
  that is newer (by ID) than the last one it returned.\<close>

theorem fetch_atomic:
  assumes "sql_order ord"
  shows "case Fetch ord db of
      (db', Inl e) \<Rightarrow> db_rows db' = db_rows db
    | (db', Inr items) \<Rightarrow> \<exists>sc. items = map row_item sc \<and> mset sc \<subseteq># mset (db_rows db) \<and>
        sorted (map row_timestamp sc) \<and>
        db_rows db' = (if sc = [] then db_rows db
          else filter (\<lambda>r. row_id (last sc) < row_id r) (db_rows db))"
proof -
  obtain db' res where f: "Fetch ord db = (db', res)" by (metis surj_pair)
  show ?thesis
  proof (cases res)
    case (Inl e)
    with f Fetch_error [of ord db db' e] show ?thesis by simp
  next
    case (Inr items)
    with f obtain sc where sc: "prefix sc (ord (db_rows db))" "items = map row_item sc"
      "db_rows db' = unfetched sc (db_rows db)" using Fetch_success [of ord db db' items] by auto
    have "mset sc \<subseteq># mset (db_rows db)" "sorted (map row_timestamp sc)"
      using sc(1) assms mset_prefix [OF sc(1)]
      by (auto simp: sql_order_def prefix_def sorted_append dest!: spec [of _ "db_rows db"])
    with f Inr sc show ?thesis by (auto simp: unfetched_def)
  qed
qed

lemma fetch_atomic_witness:
  "case Fetch (sort_key row_timestamp) empty_db of
      (db', Inl e) \<Rightarrow> db_rows db' = db_rows empty_db
    | (db', Inr items) \<Rightarrow> \<exists>sc. items = map row_item sc \<and> mset sc \<subseteq># mset (db_rows empty_db) \<and>
        sorted (map row_timestamp sc) \<and>
        db_rows db' = (if sc = [] then db_rows empty_db
          else filter (\<lambda>r. row_id (last sc) < row_id r) (db_rows empty_db))"
  by (rule fetch_atomic [OF sql_order_sort])

text \<open>Whatever calls of the driver fail, in any sequence of insertions and
  fetches every item a fetch returns was in the table at the start or was inserted, with the
  same type, payload and time.\<close>

lemma nothing_invented:
  assumes "sql_order ord" and "db_ok db"
  shows "set (snd (buf_run (sqlite_buffer_ops ord) db cmds)) \<subseteq> set (db_contents db) \<union> added cmds"
  by (rule telemetry_buffer.run_delivers [OF sqlite_buffer_interface [OF assms(1)] assms(2)])

text \<open>The cleanup removes exactly the rows older than the retention window of \<open>n\<close>
  minutes, for every \<open>n\<close> that a \<open>time.Duration\<close> can hold, and keeps the others in order.\<close>

lemma cleanup_exact:
  assumes "healthy db" and "0 \<le> n" and "n * 60000000000 < 2 ^ 63"
  shows "db_rows (cleanup_tick (minutes n) db now) =
    filter (\<lambda>r. now - n * 60000000000 \<le> row_timestamp r) (db_rows db)"
proof -
  obtain d where "db_call db = (d, None)" "healthy d" using db_call_healthy [OF assms(1)] by auto
  with db_call_rows [of db d None] sint_minus_minutes [OF assms(2,3)] show ?thesis
    by (simp add: cleanup_tick_def delete_before_def Let_def not_less)
qed

text \<open>C36: a clock that steps back between two insertions makes a fetch deliver an item
  twice: the later row is returned but not deleted, since only IDs up to that of the
  last row returned are, and the next fetch returns it again.\<close>

theorem clock_step_duplicates:
  assumes "sql_order ord" and "healthy db" and "db_rows db = [a, b]"
    and "row_id a < row_id b" and "row_timestamp b < row_timestamp a"
  shows "\<exists>db1 db2. Fetch ord db = (db1, Inr [row_item b, row_item a]) \<and>
    Fetch ord db1 = (db2, Inr [row_item b])"
proof -
  note o1 = sql_order_swapped [OF assms(1,5)]
  have "mset (ord [b]) = mset [b]" using assms(1) by (simp add: sql_order_def)
  then have o2: "ord [b] = [b]" by simp
  obtain db1 where 1: "Fetch ord db = (db1, Inr [row_item b, row_item a])" "healthy db1" "db_rows db1 = [b]"
    using Fetch_healthy [OF assms(2), of ord] assms(3,4) o1 by (auto simp: unfetched_def)
  with Fetch_healthy [OF 1(2), of ord] o2 show ?thesis by auto
qed

definition row_pair :: "row list" where
  "row_pair = [\<lparr>row_id = 1, row_timestamp = 20, row_data_type = ''telemetry'', row_payload = JInt 1\<rparr>,
     \<lparr>row_id = 2, row_timestamp = 10, row_data_type = ''telemetry'', row_payload = JInt 2\<rparr>]"

lemma clock_step_duplicates_witness:
  "\<exists>db1 db2. Fetch (sort_key row_timestamp) (empty_db\<lparr>db_rows := row_pair\<rparr>) =
      (db1, Inr [row_item (row_pair ! 1), row_item (row_pair ! 0)]) \<and>
    Fetch (sort_key row_timestamp) db1 = (db2, Inr [row_item (row_pair ! 1)])"
  by (rule clock_step_duplicates [OF sql_order_sort])
    (simp_all add: row_pair_def healthy_def empty_db_def)

end
