(* ===== verification/GoChannel.thy ===== *)
theory GoChannel
  imports Prelude
begin

text \<open>
  A buffered Go channel: its capacity, what it holds in order, and whether it is closed.  A
  non-blocking send is the \<open>select\<close> with a \<open>default\<close> branch; a send on a closed channel
  panics, in a \<open>select\<close> too.  A receive takes the head; on a closed and empty channel it
  returns at once with \<open>ok = false\<close>.  On a channel of capacity 0 a send here finds no
  receiver; the rendezvous with one that waits is a step of its own in the router.
\<close>

record 'a channel =
  ch_cap :: nat
  ch_buf :: "'a list"
  ch_closed :: bool

definition make_chan :: "nat \<Rightarrow> 'a channel" where
  "make_chan n = \<lparr>ch_cap = n, ch_buf = [], ch_closed = False\<rparr>"

datatype send_result = Sent | WouldBlock

definition try_send :: "'a channel \<Rightarrow> 'a \<Rightarrow> ('a channel \<times> send_result) outcome" where
  "try_send ch x =
     (if ch_closed ch then Panic ''send on closed channel''
      else if length (ch_buf ch) < ch_cap ch
      then Ret (ch\<lparr>ch_buf := ch_buf ch @ [x]\<rparr>, Sent)
      else Ret (ch, WouldBlock))"

datatype 'a recv_result = Received 'a | ClosedEmpty | RecvBlocks

definition try_recv :: "'a channel \<Rightarrow> 'a channel \<times> 'a recv_result" where
  "try_recv ch =
     (case ch_buf ch of
        x # xs \<Rightarrow> (ch\<lparr>ch_buf := xs\<rparr>, Received x)
      | [] \<Rightarrow> (ch, if ch_closed ch then ClosedEmpty else RecvBlocks))"

definition close_chan :: "'a channel \<Rightarrow> 'a channel outcome" where
  "close_chan ch =
     (if ch_closed ch then Panic ''close of closed channel'' else Ret (ch\<lparr>ch_closed := True\<rparr>))"

definition chan_ok :: "'a channel \<Rightarrow> bool" where
  "chan_ok ch \<longleftrightarrow> length (ch_buf ch) \<le> ch_cap ch"

lemma chan_ok_make [simp]: "chan_ok (make_chan n)"
  by (simp add: chan_ok_def make_chan_def)

lemma try_send_Ret:
  "try_send ch x = Ret (ch', r) \<longleftrightarrow> \<not> ch_closed ch \<and>
     (if length (ch_buf ch) < ch_cap ch then ch' = ch\<lparr>ch_buf := ch_buf ch @ [x]\<rparr> \<and> r = Sent
      else ch' = ch \<and> r = WouldBlock)"
  by (auto simp: try_send_def)

lemma try_send_panics: "is_panic (try_send ch x) \<longleftrightarrow> ch_closed ch"
  by (simp add: try_send_def)

lemma try_send_ok: "chan_ok ch \<Longrightarrow> try_send ch x = Ret (ch', r) \<Longrightarrow> chan_ok ch'"
  by (auto simp: try_send_Ret chan_ok_def split: if_splits)

lemma try_recv_Received:
  "try_recv ch = (ch', Received x) \<longleftrightarrow> (\<exists>xs. ch_buf ch = x # xs \<and> ch' = ch\<lparr>ch_buf := xs\<rparr>)"
  by (auto simp: try_recv_def split: list.splits if_splits)

lemma try_recv_ok: "chan_ok ch \<Longrightarrow> chan_ok (fst (try_recv ch))"
  by (auto simp: try_recv_def chan_ok_def split: list.split)

text \<open>
  The \<open>select\<close> of the telemetry producers: send, or see the context done, or neither.
  When both are ready Go picks one at random, here \<open>pick_done\<close>.
\<close>

datatype offer_result = Queued | DoneTaken | Dropped

definition offer :: "bool \<Rightarrow> bool \<Rightarrow> 'a channel \<Rightarrow> 'a \<Rightarrow> ('a channel \<times> offer_result) outcome" where
  "offer ctx_done pick_done ch x =
     (let ready = ch_closed ch \<or> length (ch_buf ch) < ch_cap ch
      in if ctx_done \<and> (pick_done \<or> \<not> ready) then Ret (ch, DoneTaken)
         else case try_send ch x of
                Panic m \<Rightarrow> Panic m
              | Ret (ch', Sent) \<Rightarrow> Ret (ch', Queued)
              | Ret (ch', WouldBlock) \<Rightarrow> Ret (ch', Dropped))"

lemma offer_open:
  "\<not> ch_closed ch \<Longrightarrow> offer d p ch x =
     (if d \<and> (p \<or> length (ch_buf ch) \<ge> ch_cap ch) then Ret (ch, DoneTaken)
      else if length (ch_buf ch) < ch_cap ch then Ret (ch\<lparr>ch_buf := ch_buf ch @ [x]\<rparr>, Queued)
      else Ret (ch, Dropped))"
  by (auto simp: offer_def try_send_def Let_def)

lemma offer_returns: "\<not> ch_closed ch \<Longrightarrow> \<exists>q r. offer d p ch x = Ret (q, r)"
  by (auto simp: offer_open)

lemma offer_ok: "chan_ok ch \<Longrightarrow> offer d p ch x = Ret (ch', r) \<Longrightarrow> chan_ok ch'"
  by (auto simp: offer_def Let_def try_send_def chan_ok_def split: if_splits)

end
