(* ===== verification/Router.thy ===== *)
theory Router
  imports Registry SQLiteBuffer GoChannel
begin

text \<open>
  \<open>internal/core/router/engine.go\<close>: the routing engine.  Here is what one command does:
  the overflow policy that admits it, the retry loops, the command chain and
  \<open>processCommand\<close>.  The worker pool around them is in \<open>RouterSystem\<close>.
\<close>

section \<open>The engine and its world\<close>

record retry_policy =
  MaxAttempts :: int
  BaseBackoff :: duration

text \<open>
  The ports of the engine, over the states of their providers; \<open>metrics\<close> and \<open>buffer\<close>
  may be nil.  The adapter factory does not change while the engine runs, so it is the lookup.
\<close>

record ('r, 'c, 'n, 'b, 'm) engine =
  eng_registry :: "'r registry_ops"
  eng_cloud :: "'c cloud_ops"
  eng_tcpComm :: "'n communicator_ops"
  eng_GetAdapter :: "protocol \<Rightarrow> adapter result"
  eng_metrics :: "'m metrics_ops option"
  eng_buffer :: "'b buffer_ops option"
  eng_retryPolicy :: retry_policy
  eng_networkTimeout :: duration

text \<open>
  What a command works on: the states behind the ports, how often the clock was read, and the
  waits of the retry loops so far.
\<close>

record ('r, 'c, 'n, 'b, 'm) world =
  w_reg :: 'r
  w_cloud :: 'c
  w_net :: 'n
  w_buf :: 'b
  w_met :: 'm
  w_now :: nat
  w_waits :: "duration list"

text \<open>
  The outside: the successive readings of \<open>time.Now\<close>, and whether the context ends the
  \<open>k\<close>-th wait of a retry loop before its timer does.
\<close>

record env =
  env_clock :: "nat \<Rightarrow> time"
  env_interrupt :: "nat \<Rightarrow> bool"

definition time_now :: "env \<Rightarrow> ('r, 'c, 'n, 'b, 'm) world \<Rightarrow> time \<times> ('r, 'c, 'n, 'b, 'm) world" where
  "time_now env w = (env_clock env (w_now w), w\<lparr>w_now := Suc (w_now w)\<rparr>)"

definition backoff_wait ::
  "env \<Rightarrow> duration \<Rightarrow> ('r, 'c, 'n, 'b, 'm) world \<Rightarrow> bool \<times> ('r, 'c, 'n, 'b, 'm) world" where
  "backoff_wait env d w = (env_interrupt env (length (w_waits w)), w\<lparr>w_waits := w_waits w @ [d]\<rparr>)"

section \<open>Admission\<close>

definition DropNewestPolicy ::
  "cloud_command channel \<Rightarrow> cloud_command \<Rightarrow> (cloud_command channel \<times> go_error option) outcome" where
  "DropNewestPolicy ch cmd =
     (case try_send ch cmd of
        Panic m \<Rightarrow> Panic m
      | Ret (ch', Sent) \<Rightarrow> Ret (ch', None)
      | Ret (ch', WouldBlock) \<Rightarrow> Ret (ch', Some ErrQueueFull))"

definition DispatchCommand :: "'m metrics_ops option \<Rightarrow> cloud_command \<Rightarrow>
    cloud_command channel \<times> 'm \<Rightarrow> (cloud_command channel \<times> 'm) outcome" where
  "DispatchCommand metrics cmd s =
     (case DropNewestPolicy (fst s) cmd of
        Panic m \<Rightarrow> Panic m
      | Ret (ch', None) \<Rightarrow> Ret (ch', snd s)
      | Ret (ch', Some err) \<Rightarrow>
          Ret (ch', (case metrics of Some ops \<Rightarrow> op_RecordCommandDropped ops (snd s) | None \<Rightarrow> snd s)))"

section \<open>Southbound, with retries\<close>

text \<open>One attempt, under \<open>context.WithTimeout(ctx, e.networkTimeout)\<close>.\<close>

definition send_once :: "('r, 'c, 'n, 'b, 'm) engine \<Rightarrow> env \<Rightarrow> device \<Rightarrow> bytes \<Rightarrow>
    ('r, 'c, 'n, 'b, 'm) world \<Rightarrow> ('r, 'c, 'n, 'b, 'm) world \<times> bytes result" where
  "send_once e env dev payload w =
     (let (now, w1) = time_now env w;
          (n', res) = op_SendCommand (eng_tcpComm e) (w_net w1)
                        (Some (now + sint (eng_networkTimeout e))) dev payload
      in (w1\<lparr>w_net := n'\<rparr>, res))"

function exec_loop :: "('r, 'c, 'n, 'b, 'm) engine \<Rightarrow> env \<Rightarrow> device \<Rightarrow> bytes \<Rightarrow>
    int \<Rightarrow> duration \<Rightarrow> go_error option \<Rightarrow> ('r, 'c, 'n, 'b, 'm) world \<Rightarrow>
    ('r, 'c, 'n, 'b, 'm) world \<times> bytes \<times> go_error option" where
  "exec_loop e env dev payload attempt backoff lastErr w =
     (if attempt \<le> MaxAttempts (eng_retryPolicy e)
      then
        (case send_once e env dev payload w of
           (w1, Inr respPayload) \<Rightarrow> (w1, respPayload, None)
         | (w1, Inl err) \<Rightarrow>
             (if Classify err \<noteq> ClassRetryable then (w1, [], Some err)
              else if attempt < MaxAttempts (eng_retryPolicy e)
              then
                (case backoff_wait env backoff w1 of
                   (True, w2) \<Rightarrow> (w2, [], Some CtxCanceled)
                 | (False, w2) \<Rightarrow>
                     exec_loop e env dev payload (attempt + 1) (backoff * 2) (Some err) w2)
              else exec_loop e env dev payload (attempt + 1) backoff (Some err) w1))
      else (w, [], lastErr))"
  by pat_completeness auto
termination
  by (relation "measure (\<lambda>(e, env, dev, payload, attempt, backoff, lastErr, w).
        nat (MaxAttempts (eng_retryPolicy e) + 1 - attempt))") auto

declare exec_loop.simps [simp del]

definition executeWithRetry :: "('r, 'c, 'n, 'b, 'm) engine \<Rightarrow> env \<Rightarrow> device \<Rightarrow> bytes \<Rightarrow>
    ('r, 'c, 'n, 'b, 'm) world \<Rightarrow> ('r, 'c, 'n, 'b, 'm) world \<times> bytes \<times> go_error option" where
  "executeWithRetry e env dev payload w =
     exec_loop e env dev payload 1 (BaseBackoff (eng_retryPolicy e)) None w"

section \<open>The command chain\<close>

definition mergeTelemetry :: "json gomap \<Rightarrow> json gomap \<Rightarrow> json gomap" where
  "mergeTelemetry base extra = put_all base extra"

fun run_followups :: "('r, 'c, 'n, 'b, 'm) engine \<Rightarrow> env \<Rightarrow> device \<Rightarrow> adapter \<Rightarrow> bytes list \<Rightarrow>
    json gomap \<Rightarrow> ('r, 'c, 'n, 'b, 'm) world \<Rightarrow>
    ('r, 'c, 'n, 'b, 'm) world \<times> json gomap \<times> go_error option" where
  "run_followups e env dev adapter [] telemetry w = (w, telemetry, None)"
| "run_followups e env dev adapter (payload # followUps) telemetry w =
     (case executeWithRetry e env dev payload w of
        (w1, resp, Some err) \<Rightarrow> (w1, [], Some err)
      | (w1, resp, None) \<Rightarrow>
          (case ad_ParseTelemetry adapter resp of
             Inl err \<Rightarrow> (w1, [], Some err)
           | Inr extra \<Rightarrow>
               run_followups e env dev adapter followUps (mergeTelemetry telemetry extra) w1))"

definition executeCommandChain :: "('r, 'c, 'n, 'b, 'm) engine \<Rightarrow> env \<Rightarrow> device \<Rightarrow> adapter \<Rightarrow>
    cloud_command \<Rightarrow> bytes \<Rightarrow> ('r, 'c, 'n, 'b, 'm) world \<Rightarrow>
    ('r, 'c, 'n, 'b, 'm) world \<times> json gomap \<times> go_error option" where
  "executeCommandChain e env dev adapter cmd primaryPayload w =
     (case executeWithRetry e env dev primaryPayload w of
        (w1, primaryResp, Some err) \<Rightarrow> (w1, [], Some err)
      | (w1, primaryResp, None) \<Rightarrow>
          (case ad_ParseTelemetry adapter primaryResp of
             Inl err \<Rightarrow> (w1, [], Some err)
           | Inr telemetry \<Rightarrow>
               (case ad_FollowUpCommands adapter of
                  None \<Rightarrow> (w1, telemetry, None)
                | Some followUpCommands \<Rightarrow>
                    (case followUpCommands cmd of
                       Inl err \<Rightarrow> (w1, [], Some err)
                     | Inr followUps \<Rightarrow> run_followups e env dev adapter followUps telemetry w1))))"

section \<open>Northbound, with retries\<close>

function publish_loop :: "('r, 'c, 'n, 'b, 'm) engine \<Rightarrow> env \<Rightarrow> device_telemetry \<Rightarrow>
    int \<Rightarrow> duration \<Rightarrow> ('r, 'c, 'n, 'b, 'm) world \<Rightarrow> ('r, 'c, 'n, 'b, 'm) world" where
  "publish_loop e env t attempt backoff w =
     (if attempt \<le> MaxAttempts (eng_retryPolicy e)
      then
        (case op_SendTelemetry (eng_cloud e) (w_cloud w) t of
           (c', None) \<Rightarrow> w\<lparr>w_cloud := c'\<rparr>
         | (c', Some err) \<Rightarrow>
             (if attempt < MaxAttempts (eng_retryPolicy e)
              then
                (case backoff_wait env backoff (w\<lparr>w_cloud := c'\<rparr>) of
                   (True, w2) \<Rightarrow> w2
                 | (False, w2) \<Rightarrow> publish_loop e env t (attempt + 1) (backoff * 2) w2)
              else publish_loop e env t (attempt + 1) backoff (w\<lparr>w_cloud := c'\<rparr>)))
      else w)"
  by pat_completeness auto
termination
  by (relation "measure (\<lambda>(e, env, t, attempt, backoff, w).
        nat (MaxAttempts (eng_retryPolicy e) + 1 - attempt))") auto

declare publish_loop.simps [simp del]

definition publishTelemetryWithRetry :: "('r, 'c, 'n, 'b, 'm) engine \<Rightarrow> env \<Rightarrow> device_telemetry \<Rightarrow>
    ('r, 'c, 'n, 'b, 'm) world \<Rightarrow> ('r, 'c, 'n, 'b, 'm) world" where
  "publishTelemetryWithRetry e env t w =
     publish_loop e env t 1 (BaseBackoff (eng_retryPolicy e)) w"

section \<open>One command\<close>

text \<open>The bookkeeping after the chain: registry state and metrics.\<close>

definition record_outcome :: "('r, 'c, 'n, 'b, 'm) engine \<Rightarrow> env \<Rightarrow> time \<Rightarrow> device \<Rightarrow> bool \<Rightarrow>
    ('r, 'c, 'n, 'b, 'm) world \<Rightarrow> ('r, 'c, 'n, 'b, 'm) world" where
  "record_outcome e env start dev ok w =
     (let (finish, w1) = time_now env w;
          latency = finish - start;
          (seen, w2) = time_now env w1;
          dev' = dev\<lparr>dev_Status := (if ok then StatusOnline else StatusOffline), dev_LastSeen := seen\<rparr>;
          w3 = w2\<lparr>w_reg := fst (op_Update (eng_registry e) (w_reg w2) dev')\<rparr>
      in case eng_metrics e of
           None \<Rightarrow> w3
         | Some m \<Rightarrow> w3\<lparr>w_met := op_RecordCommandLatency m (w_met w3) (dev_Protocol dev)
                         (if ok then ''SUCCESS'' else ''ERROR'') latency\<rparr>)"

definition buffer_telemetry :: "('r, 'c, 'n, 'b, 'm) engine \<Rightarrow> env \<Rightarrow> device_telemetry \<Rightarrow>
    ('r, 'c, 'n, 'b, 'm) world \<Rightarrow> ('r, 'c, 'n, 'b, 'm) world" where
  "buffer_telemetry e env t w =
     (case eng_buffer e of
        None \<Rightarrow> w
      | Some b \<Rightarrow>
          (let (now, w1) = time_now env w
           in w1\<lparr>w_buf := fst (op_AddData b (w_buf w1) now ''telemetry'' (telemetry_json t))\<rparr>))"

definition processCommand :: "('r, 'c, 'n, 'b, 'm) engine \<Rightarrow> env \<Rightarrow> cloud_command \<Rightarrow>
    ('r, 'c, 'n, 'b, 'm) world \<Rightarrow> ('r, 'c, 'n, 'b, 'm) world" where
  "processCommand e env cmd w =
     (let (start, w0) = time_now env w
      in case op_GetDevice (eng_registry e) (w_reg w0) (cmd_DeviceID cmd) of
           Inl err \<Rightarrow> w0
         | Inr dev \<Rightarrow>
             (case eng_GetAdapter e (dev_Protocol dev) of
                Inl err \<Rightarrow> w0
              | Inr adapter \<Rightarrow>
                  (case ad_TranslateCommand adapter cmd of
                     Inl err \<Rightarrow> w0
                   | Inr rawPayload \<Rightarrow>
                       (case executeCommandChain e env dev adapter cmd rawPayload w0 of
                          (w1, rawTelemetry, Some chainErr) \<Rightarrow> record_outcome e env start dev False w1
                        | (w1, rawTelemetry, None) \<Rightarrow>
                            (let w2 = record_outcome e env start dev True w1;
                                 (ts, w3) = time_now env w2;
                                 telemetry = \<lparr>tel_CorrelationID = cmd_CorrelationID cmd,
                                   tel_DeviceID = dev_ID dev, tel_Timestamp = ts,
                                   tel_Data = rawTelemetry\<rparr>
                             in publishTelemetryWithRetry e env telemetry
                                  (buffer_telemetry e env telemetry w3))))))"

end
