(* ===== verification/PJLinkAdapter.thy ===== *)
theory PJLinkAdapter
  imports Domain
begin

text \<open>
  \<open>internal/adapters/protocols/pjlink_adapter.go\<close>: the translation of cloud commands into
  PJLink frames, the follow-up commands, and the parser of PJLink responses; with the
  interface every protocol adapter has to meet, as a locale, met by the PJLink adapter.
\<close>

section \<open>Commands\<close>

definition TranslateCommand :: "cloud_command \<Rightarrow> bytes result" where
  "TranslateCommand cmd =
     (if cmd_CommandName cmd = CmdTurnOn then Inr (''%1POWR 1'' @ [CR])
      else if cmd_CommandName cmd = CmdTurnOff then Inr (''%1POWR 0'' @ [CR])
      else if cmd_CommandName cmd = CmdGetStatus then Inr (''%1POWR ?'' @ [CR])
      else Inl (wrap_first ErrUnsupportedProtocol (cmd_CommandName cmd)))"

definition FollowUpCommands :: "cloud_command \<Rightarrow> bytes list result" where
  "FollowUpCommands cmd =
     (if cmd_CommandName cmd = CmdGetStatus then Inr [''%1LAMP ?'' @ [CR]] else Inr [])"

section \<open>Responses\<close>

definition parsePJLinkError :: "string \<Rightarrow> string option" where
  "parsePJLinkError response =
     (if contains response ''ERR1'' then Some ''ERR1_UNDEFINED_COMMAND''
      else if contains response ''ERR2'' then Some ''ERR2_OUT_OF_PARAMETER''
      else if contains response ''ERR3'' then Some ''ERR3_UNAVAILABLE_TIME''
      else if contains response ''ERR4'' then Some ''ERR4_PROJECTOR_FAILURE''
      else None)"

definition power_state :: "string \<Rightarrow> string" where
  "power_state value =
     (if value = ''0'' then ''STANDBY'' else if value = ''1'' then ''ON''
      else if value = ''2'' then ''COOLING'' else if value = ''3'' then ''WARMING''
      else value)"

definition parsePOWRResponse :: "string \<Rightarrow> json gomap \<Rightarrow> json gomap" where
  "parsePOWRResponse response data =
     (case str_index ''POWR='' response of
        None \<Rightarrow> data
      | Some idx \<Rightarrow>
          (let value = trim_space (drop (idx + 5) response)
           in if value = ''OK'' then go_put ''powerResult'' (JStr ''OK'') data
              else go_put ''powerState'' (JStr (power_state value)) data))"

definition parseLAMPResponse :: "string \<Rightarrow> json gomap \<Rightarrow> json gomap" where
  "parseLAMPResponse response data =
     (case str_index ''LAMP='' response of
        None \<Rightarrow> data
      | Some idx \<Rightarrow>
          (let payload = trim_space (drop (idx + 5) response); parts = str_fields payload
           in if parts = [] then data
              else
                (let data1 = (case atoi (parts ! 0) of
                                Some hours \<Rightarrow> go_put ''lamp_hours'' (JInt hours) data
                              | None \<Rightarrow> data)
                 in if length parts > 1
                    then go_put ''lamp_status''
                           (JStr (if parts ! 1 = ''1'' then ''ON'' else ''OFF'')) data1
                    else data1)))"

definition ParseTelemetry :: "bytes \<Rightarrow> json gomap result" where
  "ParseTelemetry raw =
     (let response = trim_space raw
      in case parsePJLinkError response of
           Some errCode \<Rightarrow> Inr [(''error'', JStr errCode)]
         | None \<Rightarrow>
             (let data1 = (if contains response ''POWR='' then parsePOWRResponse response [] else []);
                  data2 = (if contains response ''LAMP='' then parseLAMPResponse response data1
                           else data1)
              in Inr (if data2 = [] then [(''rawResponse'', JStr response)] else data2)))"

definition NewPJLinkAdapter :: adapter where
  "NewPJLinkAdapter = \<lparr>ad_TranslateCommand = TranslateCommand,
     ad_ParseTelemetry = ParseTelemetry, ad_FollowUpCommands = Some FollowUpCommands\<rparr>"

lemma NewPJLinkAdapter_simps [simp]:
  "ad_TranslateCommand NewPJLinkAdapter = TranslateCommand"
  "ad_ParseTelemetry NewPJLinkAdapter = ParseTelemetry"
  "ad_FollowUpCommands NewPJLinkAdapter = Some FollowUpCommands"
  by (simp_all add: NewPJLinkAdapter_def)

section \<open>The interface of a protocol adapter\<close>

text \<open>
  What the router relies on: a frame that is translated, or sent as a follow-up, satisfies the
  wire format of the protocol, parsing gives a well-formed map that is not empty, and an
  error of the translation is not worth a retry.
\<close>

locale protocol_adapter =
  fixes ad :: adapter and frame :: "bytes \<Rightarrow> bool"
  assumes translate_frame: "ad_TranslateCommand ad cmd = Inr p \<Longrightarrow> frame p"
    and translate_fatal: "ad_TranslateCommand ad cmd = Inl e \<Longrightarrow> \<not> retryable e"
    and follow_frame: "ad_FollowUpCommands ad = Some f \<Longrightarrow> f cmd = Inr ps \<Longrightarrow> p \<in> set ps \<Longrightarrow> frame p"
    and parse_total: "\<exists>m. ad_ParseTelemetry ad raw = Inr m \<and> map_ok m \<and> m \<noteq> [] \<and>
          (\<forall>(k, v) \<in> set m. json_finite v)"
begin

lemma parse_not_error: "ad_ParseTelemetry ad raw \<noteq> Inl e"
  using parse_total [of raw] by auto

lemma parse_map_ok: "ad_ParseTelemetry ad raw = Inr m \<Longrightarrow> map_ok m \<and> m \<noteq> []"
  using parse_total [of raw] by auto

lemma parse_finite: "ad_ParseTelemetry ad raw = Inr m \<Longrightarrow> \<forall>(k, v) \<in> set m. json_finite v"
  using parse_total [of raw] by auto

lemma parse_cases: "(case ad_ParseTelemetry ad raw of Inl e \<Rightarrow> P e | Inr m \<Rightarrow> Q m) =
    Q (projr (ad_ParseTelemetry ad raw))"
  using parse_total [of raw] by auto

end

section \<open>Lemmas\<close>

lemma contains_Cons: "contains (c # s) pat \<longleftrightarrow> prefix pat (c # s) \<or> contains s pat"
  by (simp add: contains_def)

lemma contains_Nil: "contains [] pat \<longleftrightarrow> pat = []"
  by (simp add: contains_def)

lemma contains_set: "contains s pat \<Longrightarrow> set pat \<subseteq> set s"
  by (auto simp: contains_iff_sublist sublist_def)

text \<open>A telemetry map that \<open>json.Marshal\<close> can write.\<close>

definition data_ok :: "json gomap \<Rightarrow> bool" where
  "data_ok m \<longleftrightarrow> map_ok m \<and> (\<forall>(k, v) \<in> set m. json_finite v)"

lemma data_ok_Nil [simp]: "data_ok []"
  by (simp add: data_ok_def)

lemma data_ok_put [simp]: "data_ok m \<Longrightarrow> json_finite v \<Longrightarrow> data_ok (go_put k v m)"
  using set_put_subset [of k v m] by (fastforce simp: data_ok_def)

lemma parsePOWR_ok: "data_ok d \<Longrightarrow> data_ok (parsePOWRResponse r d)"
  by (simp add: parsePOWRResponse_def Let_def split: option.split)

lemma parseLAMP_ok: "data_ok d \<Longrightarrow> data_ok (parseLAMPResponse r d)"
  by (simp add: parseLAMPResponse_def Let_def split: option.split)

lemma ParseTelemetry_total: "\<exists>m. ParseTelemetry raw = Inr m \<and> data_ok m \<and> m \<noteq> []"
proof -
  have "data_ok [(k, JStr v)]" for k v by (simp add: data_ok_def map_ok_def)
  then show ?thesis
    by (auto simp: ParseTelemetry_def Let_def parsePOWR_ok parseLAMP_ok split: option.split)
qed

text \<open>The PJLink wire format: class 1 header, one carriage return, at the end.\<close>

definition pjlink_frame :: "bytes \<Rightarrow> bool" where
  "pjlink_frame p \<longleftrightarrow> prefix ''%1'' p \<and> last p = CR \<and> CR \<notin> set (butlast p) \<and> length p \<le> 136"

interpretation pj: protocol_adapter NewPJLinkAdapter pjlink_frame
proof
  fix cmd p assume "ad_TranslateCommand NewPJLinkAdapter cmd = Inr p"
  then show "pjlink_frame p"
    by (auto simp: TranslateCommand_def pjlink_frame_def split: if_splits)
next
  fix cmd e assume "ad_TranslateCommand NewPJLinkAdapter cmd = Inl e"
  then show "\<not> retryable e"
    by (auto simp: TranslateCommand_def retryable_iff split: if_splits)
next
  fix f cmd ps p
  assume "ad_FollowUpCommands NewPJLinkAdapter = Some f" "f cmd = Inr ps" "p \<in> set ps"
  then show "pjlink_frame p"
    by (auto simp: FollowUpCommands_def pjlink_frame_def split: if_splits)
next
  fix raw show "\<exists>m. ad_ParseTelemetry NewPJLinkAdapter raw = Inr m \<and> map_ok m \<and> m \<noteq> [] \<and>
      (\<forall>(k, v) \<in> set m. json_finite v)"
    using ParseTelemetry_total [of raw] by (auto simp: data_ok_def)
qed

section \<open>Round trips\<close>

lemmas frame_eval = contains_Cons contains_Nil plain_def

lemma ParseTelemetry_POWR:
  assumes "trimmed v" and "v \<noteq> ''OK''" and "\<not> contains v ''LAMP=''" and "parsePJLinkError v = None"
  shows "ParseTelemetry (''%1POWR='' @ v @ [CR]) = Inr [(''powerState'', JStr (power_state v))]"
proof -
  have "trimmed (''%1POWR='' @ v)"
    using trimmed_header [of "CHR ''%''" "CHR ''=''" v "''1POWR''"] assms(1) by (simp add: plain_def)
  then have trim: "trim_space (''%1POWR='' @ v @ [CR]) = ''%1POWR='' @ v"
    using trim_space_CR [of "''%1POWR='' @ v"] by simp
  have noerr: "parsePJLinkError (''%1POWR='' @ v) = None"
    using assms(4) by (simp add: parsePJLinkError_def frame_eval split: if_splits)
  show ?thesis using assms trim noerr
    by (simp add: ParseTelemetry_def frame_eval parsePOWRResponse_def Let_def trim_space_fix)
qed

lemma ParseTelemetry_LAMP:
  assumes "\<forall>c \<in> set st. plain c" and "st \<noteq> []" and "CHR ''E'' \<notin> set st" and "CHR ''='' \<notin> set st"
    and "int h < 2 ^ 63"
  shows "ParseTelemetry (''%1LAMP='' @ show_nat h @ CHR 0x20 # st @ [CR]) =
    Inr [(''lamp_hours'', JInt (int h)), (''lamp_status'', JStr (if st = ''1'' then ''ON'' else ''OFF''))]"
proof -
  let ?v = "show_nat h @ CHR 0x20 # st"
  obtain d ds where d: "show_nat h = d # ds" by (cases "show_nat h") auto
  have pd: "plain d" using show_nat_plain [of h] by (simp add: d)
  obtain z u where st: "st = u @ [z]" using assms(2) by (cases st rule: rev_cases) auto
  have tv: "trimmed ?v"
    using trimmed_header [of d z "[]" "ds @ CHR 0x20 # u"] pd assms(1)
    by (simp add: d st trimmed_def)
  have "trimmed (''%1LAMP='' @ ?v)"
    using trimmed_header [of "CHR ''%''" "CHR ''=''" ?v "''1LAMP''"] tv by (simp add: plain_def)
  then have trim: "trim_space (''%1LAMP='' @ ?v @ [CR]) = ''%1LAMP='' @ ?v"
    using trim_space_CR [of "''%1LAMP='' @ ?v"] by simp
  have dig: "CHR ''E'' \<notin> set (show_nat h)" "CHR ''='' \<notin> set (show_nat h)"
    using show_nat_digits [of "CHR ''E''" h] show_nat_digits [of "CHR ''=''" h]
    by (auto simp: is_digit_def)
  have noerr: "parsePJLinkError (''%1LAMP='' @ ?v) = None"
    using contains_set [of ?v] dig assms(3)
    by (fastforce simp: parsePJLinkError_def frame_eval)
  have nopow: "\<not> contains ?v ''POWR=''" using contains_set [of ?v "''POWR=''"] dig assms(4) by auto
  have flds: "str_fields ?v = [show_nat h, st]"
    using fields_two_words [OF show_nat_plain [of h] assms(1)] assms(2) by simp
  have hrs: "atoi (show_nat h) = Some (int h)"
    using atoi_show_int [of "int h"] assms(5) by (simp add: show_int_def)
  show ?thesis
    using trim noerr nopow flds hrs tv
    by (simp add: ParseTelemetry_def frame_eval parseLAMPResponse_def Let_def trim_space_fix)
qed

section \<open>Properties\<close>

text \<open>C13: parsing never fails, whatever bytes the device sends: the result is a map
  with distinct keys, never empty, and \<open>json.Marshal\<close> can write every value of it.\<close>

theorem parse_never_fails:
  "\<exists>m. ParseTelemetry raw = Inr m \<and> m \<noteq> [] \<and> distinct (map fst m) \<and>
     list_all (\<lambda>kv. json_finite (snd kv)) m"
  using ParseTelemetry_total [of raw] by (fastforce simp: data_ok_def map_ok_def list_all_iff)

text \<open>C30: a lamp response with any number of hours that fits an \<open>int\<close> and any status word of
  printable ASCII without the letter E and the sign = (with them it can look like an error code
  or like a power response) is read back: the hours as the number printed, the status ON for 1
  and OFF otherwise.\<close>

theorem lamp_roundtrip:
  assumes "list_all plain st" and "st \<noteq> []" and "CHR ''E'' \<notin> set st" and "CHR ''='' \<notin> set st"
    and "int h < 2 ^ 63"
  shows "ParseTelemetry (''%1LAMP='' @ show_nat h @ CHR 0x20 # st @ [CR]) =
    Inr [(''lamp_hours'', JInt (int h)), (''lamp_status'', JStr (if st = ''1'' then ''ON'' else ''OFF''))]"
  using assms by (intro ParseTelemetry_LAMP) (simp_all add: list_all_iff)

lemma lamp_roundtrip_witness:
  "ParseTelemetry (''%1LAMP='' @ show_nat 2150 @ CHR 0x20 # ''1'' @ [CR]) =
    Inr [(''lamp_hours'', JInt 2150), (''lamp_status'', JStr ''ON'')]"
  using lamp_roundtrip [of "''1''" 2150] by (simp add: plain_def)

text \<open>Every frame the adapter sends for a command, first or follow-up, is a PJLink
  class 1 frame (header, one carriage return, at the end, at most 136 bytes); a command
  it does not know is refused with an error that is fatal, so it is never retried.\<close>

lemma sent_frames:
  "(case TranslateCommand cmd of Inr p \<Rightarrow> pjlink_frame p | Inl e \<Rightarrow> Classify e = ClassFatal) \<and>
   (\<exists>ps. FollowUpCommands cmd = Inr ps \<and> list_all pjlink_frame ps) \<and>
   isl (TranslateCommand cmd) = (cmd_CommandName cmd \<notin> {CmdTurnOn, CmdTurnOff, CmdGetStatus})"
proof -
  have "Classify (wrap_first ErrUnsupportedProtocol x) = ClassFatal" for x by (simp add: Classify_root)
  moreover have "pjlink_frame p" if "TranslateCommand cmd = Inr p" for p
    using that pj.translate_frame [of cmd p] by simp
  moreover have "list_all pjlink_frame ps" if "FollowUpCommands cmd = Inr ps" for ps
    using that pj.follow_frame [of FollowUpCommands cmd ps] by (auto simp: list_all_iff)
  ultimately show ?thesis
    by (auto simp: TranslateCommand_def FollowUpCommands_def split: sum.split)
qed

end
