(* ===== verification/RouterRetry.thy ===== *)
theory RouterRetry
  imports Router PJLinkAdapter
begin

text \<open>
  What the retry loops of the router compute.  The specification is on the list of the results
  that the successive attempts would give: the first success, or the first error not worth a
  retry, or the last error.  The loop equals it, makes as many attempts as it says, and waits
  with exponentially growing pauses between them.
\<close>

section \<open>Specification\<close>

fun retry_spec :: "bytes result list \<Rightarrow> bytes \<times> go_error option" where
  "retry_spec [] = ([], None)"
| "retry_spec (Inr resp # rs) = (resp, None)"
| "retry_spec [Inl err] = ([], Some err)"
| "retry_spec (Inl err # rs) = (if retryable err then retry_spec rs else ([], Some err))"

text \<open>How many of the attempts are made.\<close>

fun attempts_made :: "bytes result list \<Rightarrow> nat" where
  "attempts_made [] = 0"
| "attempts_made (Inr resp # rs) = 1"
| "attempts_made (Inl err # rs) = (if retryable err then Suc (attempts_made rs) else 1)"

text \<open>The pauses: base, twice base, four times base, in int64 arithmetic.\<close>

fun backoffs :: "nat \<Rightarrow> duration \<Rightarrow> duration list" where
  "backoffs 0 base = []"
| "backoffs (Suc n) base = base # backoffs n (base * 2)"

text \<open>The results, and the world, after \<open>n\<close> attempts in a row.\<close>

fun send_results :: "('r, 'c, 'n, 'b, 'm) engine \<Rightarrow> env \<Rightarrow> device \<Rightarrow> bytes \<Rightarrow> nat \<Rightarrow>
    ('r, 'c, 'n, 'b, 'm) world \<Rightarrow> bytes result list" where
  "send_results e env dev payload 0 w = []"
| "send_results e env dev payload (Suc n) w =
     snd (send_once e env dev payload w) #
       send_results e env dev payload n (fst (send_once e env dev payload w))"

fun send_world :: "('r, 'c, 'n, 'b, 'm) engine \<Rightarrow> env \<Rightarrow> device \<Rightarrow> bytes \<Rightarrow> nat \<Rightarrow>
    ('r, 'c, 'n, 'b, 'm) world \<Rightarrow> ('r, 'c, 'n, 'b, 'm) world" where
  "send_world e env dev payload 0 w = w"
| "send_world e env dev payload (Suc n) w =
     send_world e env dev payload n (fst (send_once e env dev payload w))"

definition uninterrupted :: "env \<Rightarrow> bool" where
  "uninterrupted env \<longleftrightarrow> (\<forall>k. \<not> env_interrupt env k)"

section \<open>Lemmas\<close>

lemma length_backoffs [simp]: "length (backoffs n b) = n"
  by (induction n arbitrary: b) auto

lemma backoffs_nth: "i < n \<Longrightarrow> backoffs n b ! i = b * 2 ^ i"
  by (induction n arbitrary: b i) (auto simp: less_Suc_eq_0_disj mult.assoc)

lemma sint_backoff:
  fixes b :: duration
  assumes "0 \<le> sint b" and "sint b * 2 ^ i < 2 ^ 63"
  shows "sint (b * 2 ^ i) = sint b * 2 ^ i"
proof -
  have b: "(of_int (sint b) :: 64 word) = b" by simp
  have "sint ((of_int (sint b) :: 64 word) * of_int (2 ^ i)) = sint b * 2 ^ i"
    by (rule sint_scaled) (use assms in auto)
  then show ?thesis unfolding b by simp
qed

lemma attempts_made_le: "attempts_made rs \<le> length rs"
  by (induction rs rule: attempts_made.induct) auto

lemma attempts_made_pos: "rs \<noteq> [] \<Longrightarrow> 0 < attempts_made rs"
  by (cases rs rule: attempts_made.cases) auto

lemma send_results_length [simp]: "length (send_results e env dev p n w) = n"
  by (induction n arbitrary: w) auto

lemma send_once_waits:
  "send_once e env dev p (w\<lparr>w_waits := ws\<rparr>) =
     ((fst (send_once e env dev p w))\<lparr>w_waits := ws\<rparr>, snd (send_once e env dev p w))"
  by (simp add: send_once_def time_now_def split: prod.split)

lemma send_once_frame [frame_simps]:
  "w_reg (fst (send_once e env dev p w)) = w_reg w"
  "w_cloud (fst (send_once e env dev p w)) = w_cloud w"
  "w_buf (fst (send_once e env dev p w)) = w_buf w"
  "w_met (fst (send_once e env dev p w)) = w_met w"
  "w_waits (fst (send_once e env dev p w)) = w_waits w"
  by (simp_all add: send_once_def time_now_def split: prod.split)

lemma send_results_waits [simp]:
  "send_results e env dev p n (w\<lparr>w_waits := ws\<rparr>) = send_results e env dev p n w"
  by (induction n arbitrary: w) (simp_all add: send_once_waits)

lemma send_world_waits:
  "send_world e env dev p n (w\<lparr>w_waits := ws\<rparr>) = (send_world e env dev p n w)\<lparr>w_waits := ws\<rparr>"
  by (induction n arbitrary: w) (simp_all add: send_once_waits)

lemma send_world_frame [frame_simps]:
  "w_reg (send_world e env dev p n w) = w_reg w"
  "w_cloud (send_world e env dev p n w) = w_cloud w"
  "w_buf (send_world e env dev p n w) = w_buf w"
  "w_met (send_world e env dev p n w) = w_met w"
  "w_waits (send_world e env dev p n w) = w_waits w"
  by (induction n arbitrary: w) (simp_all add: frame_simps)

text \<open>One unfolding of the loop per outcome of the attempt.\<close>

lemma exec_loop_done:
  "MaxAttempts (eng_retryPolicy e) < attempt \<Longrightarrow>
     exec_loop e env dev p attempt b le w = (w, [], le)"
  by (subst exec_loop.simps) simp

lemma exec_loop_success:
  "attempt \<le> MaxAttempts (eng_retryPolicy e) \<Longrightarrow> send_once e env dev p w = (w1, Inr resp) \<Longrightarrow>
     exec_loop e env dev p attempt b le w = (w1, resp, None)"
  by (subst exec_loop.simps) simp

lemma exec_loop_fatal:
  "attempt \<le> MaxAttempts (eng_retryPolicy e) \<Longrightarrow> send_once e env dev p w = (w1, Inl err) \<Longrightarrow>
     \<not> retryable err \<Longrightarrow> exec_loop e env dev p attempt b le w = (w1, [], Some err)"
  by (subst exec_loop.simps) (simp add: retryable_def)

lemma exec_loop_last:
  "attempt = MaxAttempts (eng_retryPolicy e) \<Longrightarrow> send_once e env dev p w = (w1, Inl err) \<Longrightarrow>
     retryable err \<Longrightarrow> exec_loop e env dev p attempt b le w = (w1, [], Some err)"
  by (subst exec_loop.simps) (simp add: retryable_def exec_loop_done)

lemma exec_loop_retry:
  "attempt < MaxAttempts (eng_retryPolicy e) \<Longrightarrow> send_once e env dev p w = (w1, Inl err) \<Longrightarrow>
     retryable err \<Longrightarrow> uninterrupted env \<Longrightarrow>
     exec_loop e env dev p attempt b le w =
       exec_loop e env dev p (attempt + 1) (b * 2) (Some err) (w1\<lparr>w_waits := w_waits w1 @ [b]\<rparr>)"
  by (subst exec_loop.simps) (simp add: retryable_def backoff_wait_def uninterrupted_def)

lemma exec_loop_interrupted:
  "attempt < MaxAttempts (eng_retryPolicy e) \<Longrightarrow> send_once e env dev p w = (w1, Inl err) \<Longrightarrow>
     retryable err \<Longrightarrow> env_interrupt env (length (w_waits w1)) \<Longrightarrow>
     exec_loop e env dev p attempt b le w =
       (w1\<lparr>w_waits := w_waits w1 @ [b]\<rparr>, [], Some CtxCanceled)"
  by (subst exec_loop.simps) (simp add: retryable_def backoff_wait_def)

lemma retry_spec_Cons_err:
  "rs \<noteq> [] \<Longrightarrow> retry_spec (Inl err # rs) = (if retryable err then retry_spec rs else ([], Some err))"
  by (cases rs) auto

text \<open>The loop, from any attempt on: \<open>n\<close> attempts are left.\<close>

lemma exec_loop_spec:
  assumes "uninterrupted env"
  shows "attempt + int n = MaxAttempts (eng_retryPolicy e) \<Longrightarrow>
    exec_loop e env dev p attempt b le w =
      (let rs = send_results e env dev p (Suc n) w; k = attempts_made rs
       in ((send_world e env dev p k w)\<lparr>w_waits := w_waits w @ backoffs (k - 1) b\<rparr>, retry_spec rs))"
proof (induction n arbitrary: attempt b le w)
  case 0
  obtain w1 res where s: "send_once e env dev p w = (w1, res)" by (metis surj_pair)
  have w: "w1\<lparr>w_waits := w_waits w\<rparr> = w1" using send_once_frame(5) [of e env dev p w] s by simp
  show ?case
  proof (cases res)
    case (Inr resp)
    with 0 s w show ?thesis by (simp add: exec_loop_success)
  next
    case (Inl err)
    with 0 s w show ?thesis
      by (cases "retryable err") (simp_all add: exec_loop_last exec_loop_fatal)
  qed
next
  case (Suc n)
  obtain w1 res where s: "send_once e env dev p w = (w1, res)" by (metis surj_pair)
  have ww: "w_waits w1 = w_waits w" using send_once_frame(5) [of e env dev p w] s by simp
  then have w: "w1\<lparr>w_waits := w_waits w\<rparr> = w1" by simp
  have le: "attempt < MaxAttempts (eng_retryPolicy e)" using Suc.prems by simp
  show ?case
  proof (cases res)
    case (Inr resp)
    with le s w show ?thesis by (simp add: exec_loop_success)
  next
    case (Inl err)
    show ?thesis
    proof (cases "retryable err")
      case False
      with Inl le s w show ?thesis by (simp add: exec_loop_fatal)
    next
      case True
      define rs where "rs = send_results e env dev p (Suc n) w1"
      have ne: "rs \<noteq> []" by (simp add: rs_def)
      then obtain m where m: "attempts_made rs = Suc m"
        using attempts_made_pos gr0_conv_Suc by blast
      let ?w2 = "w1\<lparr>w_waits := w_waits w1 @ [b]\<rparr>"
      have "exec_loop e env dev p attempt b le w = exec_loop e env dev p (attempt + 1) (b * 2) (Some err) ?w2"
        using exec_loop_retry [OF le _ True assms] s Inl by simp
      also have "\<dots> = ((send_world e env dev p (Suc m) w1)\<lparr>w_waits := w_waits w @ b # backoffs m (b * 2)\<rparr>,
          retry_spec rs)"
        using Suc.IH [of "attempt + 1" "b * 2" "Some err" ?w2] Suc.prems m ww
        by (simp add: Let_def send_world_waits rs_def del: send_results.simps send_world.simps)
      finally have loop: "exec_loop e env dev p attempt b le w = \<dots>" .
      have r: "send_results e env dev p (Suc (Suc n)) w = Inl err # rs" using s Inl by (simp add: rs_def)
      have k: "attempts_made (Inl err # rs) = Suc (Suc m)" using True m by simp
      have sw: "send_world e env dev p (Suc (Suc m)) w = send_world e env dev p (Suc m) w1"
        using s by simp
      show ?thesis unfolding r Let_def k sw using loop True ne
        by (simp add: retry_spec_Cons_err del: send_world.simps)
    qed
  qed
qed

lemma executeWithRetry_spec:
  assumes "uninterrupted env"
  shows "executeWithRetry e env dev p w =
    (let rs = send_results e env dev p (nat (MaxAttempts (eng_retryPolicy e))) w; k = attempts_made rs
     in ((send_world e env dev p k w)
           \<lparr>w_waits := w_waits w @ backoffs (k - 1) (BaseBackoff (eng_retryPolicy e))\<rparr>, retry_spec rs))"
proof (cases "MaxAttempts (eng_retryPolicy e) \<le> 0")
  case True
  then show ?thesis by (simp add: executeWithRetry_def exec_loop_done)
next
  case False
  then obtain n where n: "nat (MaxAttempts (eng_retryPolicy e)) = Suc n"
    by (metis gr0_conv_Suc zero_less_nat_eq not_le)
  then have "1 + int n = MaxAttempts (eng_retryPolicy e)" by linarith
  from exec_loop_spec [OF assms this] show ?thesis
    unfolding executeWithRetry_def n by simp
qed

text \<open>With any interruptions: some attempts, then some pauses of the same sequence.\<close>

lemma exec_loop_bound:
  "attempt + int n = MaxAttempts (eng_retryPolicy e) + 1 \<Longrightarrow>
     \<exists>k j. k \<le> n \<and> j \<le> k \<and> fst (exec_loop e env dev p attempt b le' w) =
       (send_world e env dev p k w)\<lparr>w_waits := w_waits w @ backoffs j b\<rparr>"
proof (induction n arbitrary: attempt b le' w)
  case 0
  then show ?case by (intro exI [of _ 0]) (simp add: exec_loop_done)
next
  case (Suc n)
  obtain w1 res where s: "send_once e env dev p w = (w1, res)" by (metis surj_pair)
  have ww: "w_waits w1 = w_waits w" using send_once_frame(5) [of e env dev p w] s by simp
  have le: "attempt \<le> MaxAttempts (eng_retryPolicy e)" using Suc.prems by simp
  have once: ?case if "fst (exec_loop e env dev p attempt b le' w) = w1"
    using that s ww by (intro exI [of _ 1] exI [of _ 0]) simp
  show ?case
  proof (cases "\<exists>err. res = Inl err \<and> retryable err \<and> attempt < MaxAttempts (eng_retryPolicy e)")
    case False
    show ?thesis
    proof (cases res)
      case (Inr resp)
      then show ?thesis using exec_loop_success [OF le, of env dev p w w1 resp b le'] s by (intro once) simp
    next
      case (Inl err)
      show ?thesis
      proof (cases "retryable err")
        case True
        then have "attempt = MaxAttempts (eng_retryPolicy e)" using le False Inl by auto
        from exec_loop_last [OF this _ True] show ?thesis using s Inl by (intro once) simp
      next
        case fatal: False
        then show ?thesis using exec_loop_fatal [OF le _ fatal] s Inl by (intro once) simp
      qed
    qed
  next
    case True
    then obtain err where err: "res = Inl err" "retryable err" "attempt < MaxAttempts (eng_retryPolicy e)"
      by blast
    let ?w2 = "w1\<lparr>w_waits := w_waits w1 @ [b]\<rparr>"
    show ?thesis
    proof (cases "env_interrupt env (length (w_waits w1))")
      case True
      with err s ww have "fst (exec_loop e env dev p attempt b le' w) = ?w2"
        using exec_loop_interrupted [OF err(3)] by simp
      then show ?thesis using s ww by (intro exI [of _ 1]) simp
    next
      case False
      then have "exec_loop e env dev p attempt b le' w =
          exec_loop e env dev p (attempt + 1) (b * 2) (Some err) ?w2"
        using err s by (subst exec_loop.simps) (simp add: retryable_def backoff_wait_def)
      moreover obtain k j where "k \<le> n" "j \<le> k"
        "fst (exec_loop e env dev p (attempt + 1) (b * 2) (Some err) ?w2) =
           (send_world e env dev p k ?w2)\<lparr>w_waits := w_waits ?w2 @ backoffs j (b * 2)\<rparr>"
        using Suc.IH [of "attempt + 1" "b * 2" "Some err" ?w2] Suc.prems by auto
      ultimately show ?thesis using s ww
        by (intro exI [of _ "Suc k"] exI [of _ "Suc j"]) (simp add: send_world_waits)
    qed
  qed
qed

lemma executeWithRetry_success:
  "1 \<le> MaxAttempts (eng_retryPolicy e) \<Longrightarrow> send_once e env dev p w = (w1, Inr resp) \<Longrightarrow>
     executeWithRetry e env dev p w = (w1, resp, None)"
  unfolding executeWithRetry_def by (rule exec_loop_success)

lemma executeWithRetry_none:
  "MaxAttempts (eng_retryPolicy e) \<le> 0 \<Longrightarrow> executeWithRetry e env dev p w = (w, [], None)"
  by (simp add: executeWithRetry_def exec_loop_done)

section \<open>A concrete engine\<close>

text \<open>
  For the instances: one projector, a network that is the list of the results of the attempts,
  a cloud that accepts everything, nothing else.
\<close>

definition demo_registry :: "unit registry_ops" where
  "demo_registry = \<lparr>op_GetDevice = \<lambda>_ _. Inr projector, op_ListDevices = \<lambda>_. [projector],
     op_Register = \<lambda>r _. (r, None), op_Update = \<lambda>r _. (r, None), op_Remove = \<lambda>r _. r\<rparr>"

definition demo_cloud :: "device_telemetry list cloud_ops" where
  "demo_cloud = \<lparr>op_IsConnected = \<lambda>_. True, op_Publish = \<lambda>c _ _. (c, None),
     op_SendTelemetry = \<lambda>c t. (c @ [t], None)\<rparr>"

definition demo_network :: "bytes result list communicator_ops" where
  "demo_network = \<lparr>op_SendCommand = \<lambda>n _ _ _. (case n of [] \<Rightarrow> ([], Inl ErrTimeout) | r # rs \<Rightarrow> (rs, r))\<rparr>"

definition demo_engine :: "int \<Rightarrow> (unit, device_telemetry list, bytes result list, unit, nat) engine" where
  "demo_engine n = \<lparr>eng_registry = demo_registry, eng_cloud = demo_cloud, eng_tcpComm = demo_network,
     eng_GetAdapter = \<lambda>_. Inr NewPJLinkAdapter, eng_metrics = None, eng_buffer = None,
     eng_retryPolicy = \<lparr>MaxAttempts = n, BaseBackoff = millis 200\<rparr>, eng_networkTimeout = seconds 5\<rparr>"

definition calm :: env where
  "calm = \<lparr>env_clock = int, env_interrupt = \<lambda>_. False\<rparr>"

definition demo_world :: "bytes result list \<Rightarrow> (unit, device_telemetry list, bytes result list, unit, nat) world" where
  "demo_world rs = \<lparr>w_reg = (), w_cloud = [], w_net = rs, w_buf = (), w_met = 0, w_now = 0, w_waits = []\<rparr>"

lemma uninterrupted_calm [simp]: "uninterrupted calm"
  by (simp add: uninterrupted_def calm_def)

lemmas demo_simps = demo_engine_def demo_network_def demo_cloud_def demo_registry_def demo_world_def

lemma sint_backoffs:
  assumes "0 \<le> ms" and "ms * 1000000 * 2 ^ n < 2 ^ 63"
  shows "map sint (backoffs n (millis ms)) = map (\<lambda>i. ms * 1000000 * 2 ^ i) [0..<n]"
proof (rule nth_equalityI)
  fix i assume "i < length (map sint (backoffs n (millis ms)))"
  then have i: "i < n" by simp
  have mono: "ms * 1000000 * 2 ^ i \<le> ms * 1000000 * 2 ^ n"
    using i assms(1) by (intro mult_left_mono power_increasing) auto
  have "ms * 1000000 * 1 \<le> ms * 1000000 * 2 ^ i" using assms(1) by (intro mult_left_mono) auto
  with mono assms(2) have b: "sint (millis ms) = ms * 1000000" by (intro sint_millis [OF assms(1)]) linarith
  have "sint (millis ms) * 2 ^ i < 2 ^ 63" using mono assms(2) by (simp add: b)
  then have "sint (millis ms * 2 ^ i) = sint (millis ms) * 2 ^ i"
    using assms(1) by (intro sint_backoff) (simp_all add: b)
  then show "map sint (backoffs n (millis ms)) ! i = map (\<lambda>i. ms * 1000000 * 2 ^ i) [0..<n] ! i"
    using i by (simp add: backoffs_nth b)
qed simp

section \<open>Properties\<close>

text \<open>C2: the southbound retry loop computes its specification.  With no cancellation, of
  the results that \<open>MaxAttempts\<close> attempts in a row would give it returns the first success,
  or the first error that is not retryable, or the last error; it makes exactly the
  attempts needed to know that, and between them it pauses for the base back-off, doubled
  each time.\<close>

theorem retry_loop_meets_spec:
  assumes "uninterrupted env"
  shows "executeWithRetry e env dev p w =
    (let rs = send_results e env dev p (nat (MaxAttempts (eng_retryPolicy e))) w; k = attempts_made rs
     in ((send_world e env dev p k w)
           \<lparr>w_waits := w_waits w @ backoffs (k - 1) (BaseBackoff (eng_retryPolicy e))\<rparr>, retry_spec rs))"
  by (rule executeWithRetry_spec [OF assms])

lemma retry_loop_meets_spec_witness:
  "executeWithRetry (demo_engine 3) calm projector ''q'' (demo_world [Inl ErrTimeout, Inr ''ok'', Inr ''no'']) =
     ((demo_world [Inr ''no''])\<lparr>w_now := 2, w_waits := [millis 200]\<rparr>, ''ok'', None)"
  using retry_loop_meets_spec [OF uninterrupted_calm, of "demo_engine 3" projector "''q''"
      "demo_world [Inl ErrTimeout, Inr ''ok'', Inr ''no'']"]
  by (simp add: demo_simps numeral_3_eq_3 send_once_def time_now_def calm_def retryable_iff)

text \<open>C19: cancellation or not, a payload is sent at most \<open>MaxAttempts\<close> times, with at most
  as many pauses as attempts, taken from the doubling sequence; the registry, the cloud, the
  buffer and the metrics are not touched.\<close>

theorem attempts_bounded:
  "\<exists>k j. k \<le> nat (MaxAttempts (eng_retryPolicy e)) \<and> j \<le> k \<and>
     fst (executeWithRetry e env dev p w) = (send_world e env dev p k w)
       \<lparr>w_waits := w_waits w @ backoffs j (BaseBackoff (eng_retryPolicy e))\<rparr> \<and>
     w_reg (send_world e env dev p k w) = w_reg w \<and> w_cloud (send_world e env dev p k w) = w_cloud w \<and>
     w_buf (send_world e env dev p k w) = w_buf w \<and> w_met (send_world e env dev p k w) = w_met w"
proof (cases "MaxAttempts (eng_retryPolicy e) \<le> 0")
  case True
  then show ?thesis
    by (intro exI [of _ 0]) (simp add: executeWithRetry_def exec_loop_done)
next
  case False
  then have "1 + int (nat (MaxAttempts (eng_retryPolicy e))) = MaxAttempts (eng_retryPolicy e) + 1" by simp
  from exec_loop_bound [OF this] show ?thesis
    unfolding executeWithRetry_def by (fastforce simp: send_world_frame)
qed

text \<open>C31: with no cancellation, the pauses of a retry loop with at most \<open>n + 1\<close> attempts are \<open>ms\<close>,
  \<open>2*ms\<close>, \<open>4*ms\<close>, ... milliseconds, exactly, one less than the attempts it makes, as long as
  \<open>2^n*ms\<close> milliseconds fit a \<open>time.Duration\<close>; below that bound the doubling never wraps.\<close>

theorem backoff_exact:
  assumes "uninterrupted env" and "0 \<le> ms" and "ms * 1000000 * 2 ^ n < 2 ^ 63"
    and "MaxAttempts (eng_retryPolicy e) = int n + 1" and "BaseBackoff (eng_retryPolicy e) = millis ms"
  shows "map sint (w_waits (fst (executeWithRetry e env dev p w))) = map sint (w_waits w) @
    map (\<lambda>i. ms * 1000000 * 2 ^ i) [0..<attempts_made (send_results e env dev p (Suc n) w) - 1]"
proof -
  let ?k = "attempts_made (send_results e env dev p (Suc n) w)"
  have "?k - 1 \<le> n" using attempts_made_le [of "send_results e env dev p (Suc n) w"] by simp
  then have "ms * 1000000 * 2 ^ (?k - 1) \<le> ms * 1000000 * 2 ^ n"
    using assms(2) by (intro mult_left_mono power_increasing) auto
  then have "map sint (backoffs (?k - 1) (millis ms)) = map (\<lambda>i. ms * 1000000 * 2 ^ i) [0..<?k - 1]"
    using assms(2,3) by (intro sint_backoffs) auto
  moreover have "nat (MaxAttempts (eng_retryPolicy e)) = Suc n" using assms(4) by simp
  ultimately show ?thesis
    using executeWithRetry_spec [OF assms(1), of e dev p w]
    by (simp only: assms(5) Let_def fst_conv map_append) simp
qed

lemma backoff_exact_witness:
  "map sint (w_waits (fst (executeWithRetry (demo_engine 3) calm projector ''q''
     (demo_world [Inl ErrTimeout, Inl ErrTimeout, Inl ErrTimeout])))) = [200000000, 400000000]"
  using backoff_exact [OF uninterrupted_calm, of 200 2 "demo_engine 3" projector "''q''"
      "demo_world [Inl ErrTimeout, Inl ErrTimeout, Inl ErrTimeout]"]
  by (simp add: demo_simps numeral_2_eq_2 send_once_def time_now_def calm_def retryable_iff)

end
