(* ===== verification/RouterProcess.thy ===== *)
theory RouterProcess
  imports RouterRetry
begin

text \<open>
  What one command changes: frame lemmas of the chain, the northbound loop, and
  \<open>processCommand\<close> split into its routing decision and its effects.  The effects on the
  registry and on the buffer are proved against their interfaces, in locales.
\<close>

section \<open>Northbound loop\<close>

text \<open>Up to \<open>n\<close> attempts: the client's state, how many were made, whether one succeeded.\<close>

fun publish_tries :: "'c cloud_ops \<Rightarrow> device_telemetry \<Rightarrow> nat \<Rightarrow> 'c \<Rightarrow> 'c \<times> nat \<times> bool" where
  "publish_tries ops t 0 c = (c, 0, False)"
| "publish_tries ops t (Suc n) c =
     (case op_SendTelemetry ops c t of
        (c', None) \<Rightarrow> (c', 1, True)
      | (c', Some err) \<Rightarrow> (let (c2, k, ok) = publish_tries ops t n c' in (c2, Suc k, ok)))"

lemma publish_tries_le: "publish_tries ops t n c = (c', k, ok) \<Longrightarrow> k \<le> n"
  by (induction n arbitrary: c c' k ok) (auto split: prod.splits option.splits) 

lemma publish_tries_pos: "publish_tries ops t (Suc n) c = (c', k, ok) \<Longrightarrow> 0 < k"
  by (auto split: prod.splits option.splits)

lemma publish_loop_done:
  "MaxAttempts (eng_retryPolicy e) < attempt \<Longrightarrow> publish_loop e env t attempt b w = w"
  by (subst publish_loop.simps) simp

lemma publish_loop_spec:
  assumes "uninterrupted env"
  shows "attempt + int n = MaxAttempts (eng_retryPolicy e) \<Longrightarrow>
    publish_tries (eng_cloud e) t (Suc n) (w_cloud w) = (c', k, ok) \<Longrightarrow>
    publish_loop e env t attempt b w = w\<lparr>w_cloud := c', w_waits := w_waits w @ backoffs (k - 1) b\<rparr>"
proof (induction n arbitrary: attempt b w c' k ok)
  case 0
  then show ?case
    by (subst publish_loop.simps) (auto simp: publish_loop_done split: prod.splits option.splits)
next
  case (Suc n)
  obtain c1 r where s: "op_SendTelemetry (eng_cloud e) (w_cloud w) t = (c1, r)" by (metis surj_pair)
  have le: "attempt < MaxAttempts (eng_retryPolicy e)" using Suc.prems(1) by simp
  show ?case
  proof (cases r)
    case None
    with Suc.prems(2) s le show ?thesis by (subst publish_loop.simps) auto
  next
    case (Some err)
    let ?w2 = "w\<lparr>w_cloud := c1, w_waits := w_waits w @ [b]\<rparr>"
    obtain c2 k2 ok2 where t: "publish_tries (eng_cloud e) t (Suc n) c1 = (c2, k2, ok2)"
      by (metis prod_cases3)
    have res: "c' = c2" "k = Suc k2"
      using Suc.prems(2) s Some t by (simp_all del: publish_tries.simps(2) add: publish_tries.simps(2) [of _ _ "Suc n"])
    obtain m where m: "k2 = Suc m" using publish_tries_pos [OF t] gr0_conv_Suc by auto
    have "publish_loop e env t attempt b w = publish_loop e env t (attempt + 1) (b * 2) ?w2"
      using le s Some assms
      by (subst publish_loop.simps) (simp add: backoff_wait_def uninterrupted_def)
    also have "\<dots> = ?w2\<lparr>w_cloud := c2, w_waits := w_waits ?w2 @ backoffs (k2 - 1) (b * 2)\<rparr>"
      using Suc.prems(1) t by (intro Suc.IH [where ok = ok2]) (simp_all del: publish_tries.simps)
    finally show ?thesis by (simp add: res m)
  qed
qed

lemma publishTelemetryWithRetry_spec:
  assumes "uninterrupted env"
    and "publish_tries (eng_cloud e) t (nat (MaxAttempts (eng_retryPolicy e))) (w_cloud w) = (c', k, ok)"
  shows "publishTelemetryWithRetry e env t w =
    w\<lparr>w_cloud := c', w_waits := w_waits w @ backoffs (k - 1) (BaseBackoff (eng_retryPolicy e))\<rparr>"
proof (cases "MaxAttempts (eng_retryPolicy e) \<le> 0")
  case True
  with assms(2) show ?thesis by (simp add: publishTelemetryWithRetry_def publish_loop_done)
next
  case False
  then obtain n where n: "nat (MaxAttempts (eng_retryPolicy e)) = Suc n"
    by (metis gr0_conv_Suc zero_less_nat_eq not_le)
  then have "1 + int n = MaxAttempts (eng_retryPolicy e)" by linarith
  from publish_loop_spec [OF assms(1) this] show ?thesis
    using assms(2) unfolding publishTelemetryWithRetry_def n by blast
qed

lemma publish_loop_only: "\<exists>c ws. publish_loop e env t a b w = w\<lparr>w_cloud := c, w_waits := ws\<rparr>"
proof (induction e env t a b w rule: publish_loop.induct)
  case (1 e env t a b w)
  obtain c1 r where s: "op_SendTelemetry (eng_cloud e) (w_cloud w) t = (c1, r)" by (metis surj_pair)
  have self: "\<exists>c ws. w\<lparr>w_cloud := x\<rparr> = w\<lparr>w_cloud := c, w_waits := ws\<rparr>" for x
    by (intro exI [of _ x] exI [of _ "w_waits w"]) simp
  show ?case
  proof (cases "a < MaxAttempts (eng_retryPolicy e) \<and> r \<noteq> None")
    case False
    then consider "MaxAttempts (eng_retryPolicy e) < a" | "r = None" "a \<le> MaxAttempts (eng_retryPolicy e)"
      | "a = MaxAttempts (eng_retryPolicy e)" "r \<noteq> None" by force
    then show ?thesis
    proof cases
      case 1
      then show ?thesis using self [of "w_cloud w"] by (simp add: publish_loop_done)
    next
      case 2
      with s self [of c1] show ?thesis by (subst publish_loop.simps) simp
    next
      case 3
      with s have "publish_loop e env t a b w = w\<lparr>w_cloud := c1\<rparr>"
        by (subst publish_loop.simps) (auto simp: publish_loop_done)
      with self [of c1] show ?thesis by simp
    qed
  next
    case True
    then obtain err where r: "r = Some err" and lt: "a < MaxAttempts (eng_retryPolicy e)" by auto
    let ?w2 = "w\<lparr>w_cloud := c1, w_waits := w_waits w @ [b]\<rparr>"
    have bw: "backoff_wait env b (w\<lparr>w_cloud := c1\<rparr>) = (env_interrupt env (length (w_waits w)), ?w2)"
      by (simp add: backoff_wait_def)
    show ?thesis
    proof (cases "env_interrupt env (length (w_waits w))")
      case True
      then have "publish_loop e env t a b w = ?w2"
        using lt s r bw by (subst publish_loop.simps) simp
      then show ?thesis by blast
    next
      case False
      then have eq: "publish_loop e env t a b w = publish_loop e env t (a + 1) (b * 2) ?w2"
        using lt s r bw by (subst publish_loop.simps) simp
      have le: "a \<le> MaxAttempts (eng_retryPolicy e)" using lt by simp
      have "\<exists>c ws. publish_loop e env t (a + 1) (b * 2) ?w2 = ?w2\<lparr>w_cloud := c, w_waits := ws\<rparr>"
        using "1.IH"(1) [OF le s [symmetric] r lt bw [symmetric]] False by simp
      then show ?thesis unfolding eq by auto
    qed
  qed
qed

lemma publish_loop_frame [frame_simps]:
  "w_reg (publish_loop e env t a b w) = w_reg w"
  "w_net (publish_loop e env t a b w) = w_net w"
  "w_buf (publish_loop e env t a b w) = w_buf w"
  "w_met (publish_loop e env t a b w) = w_met w"
  "w_now (publish_loop e env t a b w) = w_now w"
  using publish_loop_only [of e env t a b w] by auto

lemma publishTelemetry_frame [frame_simps]:
  "w_reg (publishTelemetryWithRetry e env t w) = w_reg w"
  "w_net (publishTelemetryWithRetry e env t w) = w_net w"
  "w_buf (publishTelemetryWithRetry e env t w) = w_buf w"
  "w_met (publishTelemetryWithRetry e env t w) = w_met w"
  "w_now (publishTelemetryWithRetry e env t w) = w_now w"
  by (simp_all add: publishTelemetryWithRetry_def frame_simps)

section \<open>Frame of the chain\<close>

text \<open>The chain touches the network, the clock and the list of waits, nothing else.\<close>

definition same_ports :: "('r, 'c, 'n, 'b, 'm) world \<Rightarrow> ('r, 'c, 'n, 'b, 'm) world \<Rightarrow> bool" where
  "same_ports w w' \<longleftrightarrow> w_reg w' = w_reg w \<and> w_cloud w' = w_cloud w \<and> w_buf w' = w_buf w \<and> w_met w' = w_met w"

lemma same_ports_refl [simp]: "same_ports w w"
  by (simp add: same_ports_def)

lemma same_ports_trans: "same_ports u v \<Longrightarrow> same_ports v w \<Longrightarrow> same_ports u w"
  by (simp add: same_ports_def)

lemma same_ports_waits [simp]: "same_ports w (w'\<lparr>w_waits := ws\<rparr>) = same_ports w w'"
  by (simp add: same_ports_def)

lemma send_once_ports: "send_once e env dev p w = (w1, r) \<Longrightarrow> same_ports w w1"
  using send_once_frame [of e env dev p w] by (simp add: same_ports_def)

lemma exec_loop_ports: "same_ports w (fst (exec_loop e env dev p a b le w))"
proof (induction e env dev p a b le w rule: exec_loop.induct)
  case (1 e env dev p a b le w)
  obtain w1 r where s: "send_once e env dev p w = (w1, r)" by (metis surj_pair)
  have w1: "same_ports w w1" by (rule send_once_ports [OF s])
  show ?case
  proof (cases "a \<le> MaxAttempts (eng_retryPolicy e)")
    case False
    then show ?thesis by (simp add: exec_loop_done)
  next
    case le: True
    show ?thesis
    proof (cases r)
      case (Inr resp)
      with s w1 le show ?thesis by (simp add: exec_loop_success)
    next
      case (Inl err)
      show ?thesis
      proof (cases "retryable err")
        case False
        with s w1 le Inl show ?thesis by (simp add: exec_loop_fatal)
      next
        case True
        then have cl: "\<not> Classify err \<noteq> ClassRetryable" by (simp add: retryable_def)
        show ?thesis
        proof (cases "a < MaxAttempts (eng_retryPolicy e)")
          case False
          with s w1 le Inl True show ?thesis by (simp add: exec_loop_last)
        next
          case lt: True
          obtain d w2 where bw: "backoff_wait env b w1 = (d, w2)" by (metis surj_pair)
          then have w2: "same_ports w w2" using w1 by (auto simp: backoff_wait_def)
          have "\<not> d \<Longrightarrow> same_ports w2 (fst (exec_loop e env dev p (a + 1) (b * 2) (Some err) w2))"
            using "1.IH"(1) [OF le s [symmetric] Inl cl lt bw [symmetric]] by simp
          with le s Inl cl lt bw w2 show ?thesis
            by (subst exec_loop.simps) (cases d; auto intro: same_ports_trans)
        qed
      qed
    qed
  qed
qed

lemma executeWithRetry_ports: "executeWithRetry e env dev p w = (w1, r) \<Longrightarrow> same_ports w w1"
  by (metis executeWithRetry_def exec_loop_ports fst_conv)

lemma run_followups_ports: "run_followups e env dev ad ps tel w = (w1, r) \<Longrightarrow> same_ports w w1"
proof (induction ps arbitrary: tel w)
  case (Cons p ps)
  obtain w2 resp er where x: "executeWithRetry e env dev p w = (w2, resp, er)" by (metis prod_cases3)
  have w2: "same_ports w w2" by (rule executeWithRetry_ports [OF x])
  show ?case using Cons x w2
    by (auto split: option.splits sum.splits intro: same_ports_trans)
qed simp

lemma chain_ports: "executeCommandChain e env dev ad cmd p w = (w1, r) \<Longrightarrow> same_ports w w1"
proof -
  assume c: "executeCommandChain e env dev ad cmd p w = (w1, r)"
  obtain w2 resp er where x: "executeWithRetry e env dev p w = (w2, resp, er)" by (metis prod_cases3)
  have "same_ports w w2" by (rule executeWithRetry_ports [OF x])
  with c x show ?thesis
    by (auto simp: executeCommandChain_def split: option.splits sum.splits
        intro: same_ports_trans run_followups_ports)
qed

section \<open>Routing decision and effects\<close>

text \<open>
  The routing decision: the device and what the chain gave, or nothing when the command was
  rejected before anything was sent.
\<close>

definition routed :: "('r, 'c, 'n, 'b, 'm) engine \<Rightarrow> env \<Rightarrow> cloud_command \<Rightarrow>
    ('r, 'c, 'n, 'b, 'm) world \<Rightarrow>
    (device \<times> ('r, 'c, 'n, 'b, 'm) world \<times> json gomap \<times> go_error option) option" where
  "routed e env cmd w =
     (let w0 = w\<lparr>w_now := Suc (w_now w)\<rparr>
      in case op_GetDevice (eng_registry e) (w_reg w) (cmd_DeviceID cmd) of
           Inl err \<Rightarrow> None
         | Inr dev \<Rightarrow>
             (case eng_GetAdapter e (dev_Protocol dev) of
                Inl err \<Rightarrow> None
              | Inr ad \<Rightarrow>
                  (case ad_TranslateCommand ad cmd of
                     Inl err \<Rightarrow> None
                   | Inr raw \<Rightarrow> Some (dev, executeCommandChain e env dev ad cmd raw w0))))"

definition telemetry_for :: "env \<Rightarrow> cloud_command \<Rightarrow> device \<Rightarrow> json gomap \<Rightarrow> nat \<Rightarrow> device_telemetry" where
  "telemetry_for env cmd dev data k =
     \<lparr>tel_CorrelationID = cmd_CorrelationID cmd, tel_DeviceID = dev_ID dev,
      tel_Timestamp = env_clock env k, tel_Data = data\<rparr>"

lemma processCommand_routed:
  "processCommand e env cmd w =
     (case routed e env cmd w of
        None \<Rightarrow> w\<lparr>w_now := Suc (w_now w)\<rparr>
      | Some (dev, w1, data, Some err) \<Rightarrow> record_outcome e env (env_clock env (w_now w)) dev False w1
      | Some (dev, w1, data, None) \<Rightarrow>
          (let w2 = record_outcome e env (env_clock env (w_now w)) dev True w1;
               t = telemetry_for env cmd dev data (w_now w2)
           in publishTelemetryWithRetry e env t
                (buffer_telemetry e env t (w2\<lparr>w_now := Suc (w_now w2)\<rparr>))))"
  by (simp add: processCommand_def routed_def time_now_def telemetry_for_def Let_def
      split: sum.split prod.split option.split)

lemma routed_get:
  "routed e env cmd w = Some (dev, w1, data, r) \<Longrightarrow>
     op_GetDevice (eng_registry e) (w_reg w) (cmd_DeviceID cmd) = Inr dev"
  by (auto simp: routed_def Let_def split: sum.splits)

lemma routed_ports:
  "routed e env cmd w = Some (dev, w1, data, r) \<Longrightarrow> same_ports w w1"
  by (auto simp: routed_def Let_def same_ports_def split: sum.splits dest!: chain_ports)

lemma record_outcome_frame [frame_simps]:
  "w_cloud (record_outcome e env st dev ok w) = w_cloud w"
  "w_buf (record_outcome e env st dev ok w) = w_buf w"
  "w_net (record_outcome e env st dev ok w) = w_net w"
  "w_waits (record_outcome e env st dev ok w) = w_waits w"
  "w_now (record_outcome e env st dev ok w) = w_now w + 2"
  by (simp_all add: record_outcome_def time_now_def Let_def split: option.split)

lemma record_outcome_reg:
  "w_reg (record_outcome e env st dev ok w) =
     fst (op_Update (eng_registry e) (w_reg w)
       (dev\<lparr>dev_Status := if ok then StatusOnline else StatusOffline,
            dev_LastSeen := env_clock env (Suc (w_now w))\<rparr>))"
  by (simp add: record_outcome_def time_now_def Let_def split: option.split)

lemma record_outcome_met:
  "w_met (record_outcome e env st dev ok w) =
     (case eng_metrics e of None \<Rightarrow> w_met w
      | Some m \<Rightarrow> op_RecordCommandLatency m (w_met w) (dev_Protocol dev)
          (if ok then ''SUCCESS'' else ''ERROR'') (env_clock env (w_now w) - st))"
  by (simp add: record_outcome_def time_now_def Let_def split: option.split)

lemma buffer_telemetry_frame [frame_simps]:
  "w_reg (buffer_telemetry e env t w) = w_reg w"
  "w_cloud (buffer_telemetry e env t w) = w_cloud w"
  "w_met (buffer_telemetry e env t w) = w_met w"
  "w_net (buffer_telemetry e env t w) = w_net w"
  "w_waits (buffer_telemetry e env t w) = w_waits w"
  by (simp_all add: buffer_telemetry_def time_now_def Let_def split: option.split)

lemma buffer_telemetry_buf:
  "w_buf (buffer_telemetry e env t w) =
     (case eng_buffer e of None \<Rightarrow> w_buf w
      | Some b \<Rightarrow> fst (op_AddData b (w_buf w) (env_clock env (w_now w)) ''telemetry'' (telemetry_json t)))"
  by (simp add: buffer_telemetry_def time_now_def Let_def split: option.split)

text \<open>The registry, the metrics, the buffer and the cloud after a command.\<close>

lemma process_reg:
  "w_reg (processCommand e env cmd w) =
     (case routed e env cmd w of None \<Rightarrow> w_reg w
      | Some (dev, w1, data, r) \<Rightarrow> fst (op_Update (eng_registry e) (w_reg w)
          (dev\<lparr>dev_Status := if r = None then StatusOnline else StatusOffline,
               dev_LastSeen := env_clock env (Suc (w_now w1))\<rparr>)))"
  by (auto simp: processCommand_routed Let_def frame_simps record_outcome_reg same_ports_def
      split: option.split dest!: routed_ports)

lemma process_met:
  "w_met (processCommand e env cmd w) =
     (case routed e env cmd w of None \<Rightarrow> w_met w
      | Some (dev, w1, data, r) \<Rightarrow>
          (case eng_metrics e of None \<Rightarrow> w_met w
           | Some m \<Rightarrow> op_RecordCommandLatency m (w_met w) (dev_Protocol dev)
               (if r = None then ''SUCCESS'' else ''ERROR'')
               (env_clock env (w_now w1) - env_clock env (w_now w))))"
  by (auto simp: processCommand_routed Let_def frame_simps record_outcome_met same_ports_def
      split: option.split dest!: routed_ports)

lemma process_buf:
  "w_buf (processCommand e env cmd w) =
     (case routed e env cmd w of
        Some (dev, w1, data, None) \<Rightarrow>
          (case eng_buffer e of None \<Rightarrow> w_buf w
           | Some b \<Rightarrow> fst (op_AddData b (w_buf w) (env_clock env (w_now w1 + 3)) ''telemetry''
               (telemetry_json (telemetry_for env cmd dev data (w_now w1 + 2)))))
      | _ \<Rightarrow> w_buf w)"
  by (auto simp: processCommand_routed Let_def frame_simps buffer_telemetry_buf same_ports_def
      numeral_3_eq_3 split: option.split dest!: routed_ports)

text \<open>The publication: what it does to the cloud, and the pauses between its attempts.\<close>

lemma process_publication:
  assumes "uninterrupted env" and "routed e env cmd w = Some (dev, w1, data, None)"
    and "publish_tries (eng_cloud e) (telemetry_for env cmd dev data (w_now w1 + 2))
      (nat (MaxAttempts (eng_retryPolicy e))) (w_cloud w) = (c', k, ok)"
  shows "w_cloud (processCommand e env cmd w) = c'"
    "w_waits (processCommand e env cmd w) = w_waits w1 @ backoffs (k - 1) (BaseBackoff (eng_retryPolicy e))"
proof -
  define t where "t = telemetry_for env cmd dev data (w_now w1 + 2)"
  have "same_ports w w1" using routed_ports assms(2) by blast
  then have c: "w_cloud w1 = w_cloud w" by (simp add: same_ports_def)
  let ?w3 = "buffer_telemetry e env t ((record_outcome e env (env_clock env (w_now w)) dev True w1)
      \<lparr>w_now := Suc (w_now w1 + 2)\<rparr>)"
  have "w_cloud ?w3 = w_cloud w" "w_waits ?w3 = w_waits w1" by (simp_all add: frame_simps c)
  then have p: "publishTelemetryWithRetry e env t ?w3 =
      ?w3\<lparr>w_cloud := c', w_waits := w_waits w1 @ backoffs (k - 1) (BaseBackoff (eng_retryPolicy e))\<rparr>"
    using publishTelemetryWithRetry_spec [OF assms(1), of e t ?w3 c' k ok] assms(3) by (simp add: t_def)
  have "processCommand e env cmd w = publishTelemetryWithRetry e env t ?w3"
    using assms(2) by (simp add: processCommand_routed Let_def frame_simps t_def)
  with p show "w_cloud (processCommand e env cmd w) = c'"
    "w_waits (processCommand e env cmd w) = w_waits w1 @ backoffs (k - 1) (BaseBackoff (eng_retryPolicy e))"
    by simp_all
qed

section \<open>The router as a client of the registry\<close>

locale router_registry = reg: device_registry "eng_registry e" inv view
  for e :: "('r, 'c, 'n, 'b, 'm) engine" and inv :: "'r \<Rightarrow> bool"
    and view :: "'r \<Rightarrow> string \<Rightarrow> device option"
begin

lemma process_inv: "inv (w_reg w) \<Longrightarrow> inv (w_reg (processCommand e env cmd w))"
  by (auto simp: process_reg reg.inv_update split: option.split)

text \<open>The device of a routed command goes online or offline; nothing else changes.\<close>

lemma process_view:
  assumes "inv (w_reg w)"
  shows "view (w_reg (processCommand e env cmd w)) =
    (case routed e env cmd w of
       None \<Rightarrow> view (w_reg w)
     | Some (dev, w1, data, r) \<Rightarrow> (view (w_reg w))(cmd_DeviceID cmd \<mapsto>
         dev\<lparr>dev_Status := if r = None then StatusOnline else StatusOffline,
             dev_LastSeen := env_clock env (Suc (w_now w1))\<rparr>))"
proof (cases "routed e env cmd w")
  case None
  then show ?thesis by (simp add: process_reg)
next
  case (Some x)
  obtain dev w1 data r where x: "x = (dev, w1, data, r)" by (metis prod_cases4)
  have "op_GetDevice (eng_registry e) (w_reg w) (cmd_DeviceID cmd) = Inr dev"
    using routed_get Some x by blast
  from reg.get_update [OF assms this] Some x show ?thesis
    by (simp add: process_reg)
qed

lemma routed_view:
  "inv (w_reg w) \<Longrightarrow> routed e env cmd w = Some (dev, w1, data, r) \<Longrightarrow>
     view (w_reg w) (cmd_DeviceID cmd) = Some dev \<and> dev_ID dev = cmd_DeviceID cmd"
  using routed_get reg.get_found reg.get_id by blast

lemma process_core:
  assumes "inv (w_reg w)"
  shows "map_option core_config (view (w_reg (processCommand e env cmd w)) did) =
    map_option core_config (view (w_reg w) did)"
proof (cases "routed e env cmd w")
  case None
  then show ?thesis by (simp add: process_reg)
next
  case (Some x)
  obtain dev w1 data r where x: "x = (dev, w1, data, r)" by (metis prod_cases4)
  with Some process_view [OF assms, of env cmd] routed_view [OF assms, of env cmd dev w1 data r]
  show ?thesis by simp
qed

text \<open>Any sequence of commands keeps the registry's invariant and every core configuration.\<close>

lemma process_all_core:
  "inv (w_reg w) \<Longrightarrow>
     inv (w_reg (fold (processCommand e env) cmds w)) \<and>
     map_option core_config (view (w_reg (fold (processCommand e env) cmds w)) did) =
       map_option core_config (view (w_reg w) did)"
  by (induction cmds arbitrary: w) (simp_all add: process_inv process_core)

end

section \<open>The router as a client of the buffer\<close>

locale router_buffer = buf: telemetry_buffer b inv contents
  for b :: "'b buffer_ops" and inv :: "'b \<Rightarrow> bool" and contents :: "'b \<Rightarrow> buffered_item list" +
  fixes e :: "('r, 'c, 'n, 'b, 'm) engine"
  assumes eng_buf: "eng_buffer e = Some b"
begin

lemma process_buf_inv: "inv (w_buf w) \<Longrightarrow> inv (w_buf (processCommand e env cmd w))"
  by (auto simp: process_buf eng_buf buf.inv_add split: option.split)

text \<open>
  A command stores at most one item, and only when its chain succeeded: its own telemetry.
\<close>

lemma process_contents:
  assumes "inv (w_buf w)"
  shows "contents (w_buf (processCommand e env cmd w)) = contents (w_buf w) \<or>
    (\<exists>dev w1 data. routed e env cmd w = Some (dev, w1, data, None) \<and>
       contents (w_buf (processCommand e env cmd w)) = contents (w_buf w) @
         [\<lparr>item_Timestamp = env_clock env (w_now w1 + 3), item_DataType = ''telemetry'',
           item_Payload = telemetry_json (telemetry_for env cmd dev data (w_now w1 + 2))\<rparr>])"
proof (cases "routed e env cmd w")
  case None
  then show ?thesis by (simp add: process_buf)
next
  case (Some x)
  obtain dev w1 data r where x: "x = (dev, w1, data, r)" by (metis prod_cases4)
  with Some assms show ?thesis
    by (cases r) (auto simp: process_buf eng_buf buf.add_contents)
qed

end

end
