(* ===== verification/RouterSteps.thy ===== *)
theory RouterSteps
  imports RouterProcess
begin

text \<open>
  \<open>processCommand\<close> one action at a time.  A worker that is busy with a command is at one of
  the points below; a step is one access to something the workers share (the registry, the
  network, the metrics, the buffer, the cloud) together with the local work up to the next.
  Run on its own, the steps compute exactly what \<open>processCommand\<close> computes; what they are
  for is the interleaving of several workers.
\<close>

section \<open>Points of a command\<close>

text \<open>What the worker holds on to: the local variables of \<open>processCommand\<close>.\<close>

record job =
  jb_cmd :: cloud_command
  jb_start :: time
  jb_dev :: device
  jb_adapter :: adapter

text \<open>
  In \<open>Sending\<close> and \<open>Waiting\<close>, the frames still to come: \<open>None\<close> while the primary
  frame is exchanged, then the rest of the follow-ups with the telemetry so far.  The last
  three arguments are \<open>attempt\<close>, \<open>backoff\<close> and \<open>lastErr\<close> of the loop.
\<close>

datatype progress = Primary | Following "bytes list" "json gomap"

datatype point =
    Lookup cloud_command
  | Sending job bytes progress int duration "go_error option"
  | Waiting job bytes progress int duration go_error
  | Recording job "json gomap" bool
  | Metering job "json gomap" bool time
  | Buffering device_telemetry
  | Publishing device_telemetry int duration
  | PublishWaiting device_telemetry int duration
  | Finished

section \<open>One step\<close>

text \<open>The next frame of the chain, or its end.\<close>

fun next_frame :: "('r, 'c, 'n, 'b, 'm) engine \<Rightarrow> job \<Rightarrow> bytes list \<Rightarrow> json gomap \<Rightarrow> point" where
  "next_frame e j [] telemetry = Recording j telemetry True"
| "next_frame e j (payload # followUps) telemetry =
     Sending j payload (Following followUps telemetry) 1 (BaseBackoff (eng_retryPolicy e)) None"

text \<open>What follows an exchange that is over, with its response or its last error.\<close>

definition after_exchange :: "('r, 'c, 'n, 'b, 'm) engine \<Rightarrow> job \<Rightarrow> progress \<Rightarrow> bytes \<Rightarrow>
    go_error option \<Rightarrow> point" where
  "after_exchange e j ph resp err =
     (if err \<noteq> None then Recording j [] False
      else
        (case ad_ParseTelemetry (jb_adapter j) resp of
           Inl perr \<Rightarrow> Recording j [] False
         | Inr parsed \<Rightarrow>
             (case ph of
                Following followUps telemetry \<Rightarrow>
                  next_frame e j followUps (mergeTelemetry telemetry parsed)
              | Primary \<Rightarrow>
                  (case ad_FollowUpCommands (jb_adapter j) of
                     None \<Rightarrow> Recording j parsed True
                   | Some followUpCommands \<Rightarrow>
                       (case followUpCommands (jb_cmd j) of
                          Inl ferr \<Rightarrow> Recording j [] False
                        | Inr followUps \<Rightarrow> next_frame e j followUps parsed)))))"

fun point_step :: "('r, 'c, 'n, 'b, 'm) engine \<Rightarrow> env \<Rightarrow> point \<Rightarrow> ('r, 'c, 'n, 'b, 'm) world \<Rightarrow>
    point \<times> ('r, 'c, 'n, 'b, 'm) world" where
  "point_step e env (Lookup cmd) w =
     (let (start, w0) = time_now env w
      in case op_GetDevice (eng_registry e) (w_reg w0) (cmd_DeviceID cmd) of
           Inl err \<Rightarrow> (Finished, w0)
         | Inr dev \<Rightarrow>
             (case eng_GetAdapter e (dev_Protocol dev) of
                Inl err \<Rightarrow> (Finished, w0)
              | Inr adapter \<Rightarrow>
                  (case ad_TranslateCommand adapter cmd of
                     Inl err \<Rightarrow> (Finished, w0)
                   | Inr rawPayload \<Rightarrow>
                       (Sending \<lparr>jb_cmd = cmd, jb_start = start, jb_dev = dev, jb_adapter = adapter\<rparr>
                          rawPayload Primary 1 (BaseBackoff (eng_retryPolicy e)) None, w0))))"
| "point_step e env (Sending j payload ph attempt backoff lastErr) w =
     (if attempt \<le> MaxAttempts (eng_retryPolicy e)
      then
        (case send_once e env (jb_dev j) payload w of
           (w1, Inr respPayload) \<Rightarrow> (after_exchange e j ph respPayload None, w1)
         | (w1, Inl err) \<Rightarrow>
             (if Classify err \<noteq> ClassRetryable then (after_exchange e j ph [] (Some err), w1)
              else if attempt < MaxAttempts (eng_retryPolicy e)
              then (Waiting j payload ph attempt backoff err, w1)
              else (Sending j payload ph (attempt + 1) backoff (Some err), w1)))
      else (after_exchange e j ph [] lastErr, w))"
| "point_step e env (Waiting j payload ph attempt backoff err) w =
     (case backoff_wait env backoff w of
        (True, w1) \<Rightarrow> (after_exchange e j ph [] (Some CtxCanceled), w1)
      | (False, w1) \<Rightarrow> (Sending j payload ph (attempt + 1) (backoff * 2) (Some err), w1))"
| "point_step e env (Recording j telemetry ok) w =
     (let (finish, w1) = time_now env w;
          (seen, w2) = time_now env w1;
          dev' = (jb_dev j)\<lparr>dev_Status := (if ok then StatusOnline else StatusOffline), dev_LastSeen := seen\<rparr>
      in (Metering j telemetry ok (finish - jb_start j),
          w2\<lparr>w_reg := fst (op_Update (eng_registry e) (w_reg w2) dev')\<rparr>))"
| "point_step e env (Metering j telemetry ok latency) w =
     (let w1 = (case eng_metrics e of
                  None \<Rightarrow> w
                | Some m \<Rightarrow> w\<lparr>w_met := op_RecordCommandLatency m (w_met w) (dev_Protocol (jb_dev j))
                              (if ok then ''SUCCESS'' else ''ERROR'') latency\<rparr>)
      in if \<not> ok then (Finished, w1)
         else (let (ts, w2) = time_now env w1
               in (Buffering \<lparr>tel_CorrelationID = cmd_CorrelationID (jb_cmd j),
                     tel_DeviceID = dev_ID (jb_dev j), tel_Timestamp = ts, tel_Data = telemetry\<rparr>, w2)))"
| "point_step e env (Buffering t) w =
     (Publishing t 1 (BaseBackoff (eng_retryPolicy e)), buffer_telemetry e env t w)"
| "point_step e env (Publishing t attempt backoff) w =
     (if attempt \<le> MaxAttempts (eng_retryPolicy e)
      then
        (case op_SendTelemetry (eng_cloud e) (w_cloud w) t of
           (c', None) \<Rightarrow> (Finished, w\<lparr>w_cloud := c'\<rparr>)
         | (c', Some err) \<Rightarrow>
             (if attempt < MaxAttempts (eng_retryPolicy e)
              then (PublishWaiting t attempt backoff, w\<lparr>w_cloud := c'\<rparr>)
              else (Publishing t (attempt + 1) backoff, w\<lparr>w_cloud := c'\<rparr>)))
      else (Finished, w))"
| "point_step e env (PublishWaiting t attempt backoff) w =
     (case backoff_wait env backoff w of
        (True, w1) \<Rightarrow> (Finished, w1)
      | (False, w1) \<Rightarrow> (Publishing t (attempt + 1) (backoff * 2), w1))"
| "point_step e env Finished w = (Finished, w)"

section \<open>What is left of a command\<close>

text \<open>
  The rest of \<open>processCommand\<close> from a point on, in terms of the functions of the engine.
  A step does not change it.
\<close>

definition rest_of_chain :: "('r, 'c, 'n, 'b, 'm) engine \<Rightarrow> env \<Rightarrow> job \<Rightarrow> progress \<Rightarrow>
    ('r, 'c, 'n, 'b, 'm) world \<times> bytes \<times> go_error option \<Rightarrow>
    ('r, 'c, 'n, 'b, 'm) world \<times> json gomap \<times> go_error option" where
  "rest_of_chain e env j ph r =
     (case r of
        (w, resp, Some err) \<Rightarrow> (w, [], Some err)
      | (w, resp, None) \<Rightarrow>
          (case ad_ParseTelemetry (jb_adapter j) resp of
             Inl err \<Rightarrow> (w, [], Some err)
           | Inr parsed \<Rightarrow>
               (case ph of
                  Following followUps telemetry \<Rightarrow>
                    run_followups e env (jb_dev j) (jb_adapter j) followUps (mergeTelemetry telemetry parsed) w
                | Primary \<Rightarrow>
                    (case ad_FollowUpCommands (jb_adapter j) of
                       None \<Rightarrow> (w, parsed, None)
                     | Some followUpCommands \<Rightarrow>
                         (case followUpCommands (jb_cmd j) of
                            Inl err \<Rightarrow> (w, [], Some err)
                          | Inr followUps \<Rightarrow>
                              run_followups e env (jb_dev j) (jb_adapter j) followUps parsed w)))))"

definition deliver :: "('r, 'c, 'n, 'b, 'm) engine \<Rightarrow> env \<Rightarrow> job \<Rightarrow> json gomap \<Rightarrow>
    ('r, 'c, 'n, 'b, 'm) world \<Rightarrow> ('r, 'c, 'n, 'b, 'm) world" where
  "deliver e env j telemetry w =
     (let t = telemetry_for env (jb_cmd j) (jb_dev j) telemetry (w_now w)
      in publishTelemetryWithRetry e env t (buffer_telemetry e env t (w\<lparr>w_now := Suc (w_now w)\<rparr>)))"

definition conclude :: "('r, 'c, 'n, 'b, 'm) engine \<Rightarrow> env \<Rightarrow> job \<Rightarrow>
    ('r, 'c, 'n, 'b, 'm) world \<times> json gomap \<times> go_error option \<Rightarrow> ('r, 'c, 'n, 'b, 'm) world" where
  "conclude e env j r =
     (case r of
        (w, telemetry, Some err) \<Rightarrow> record_outcome e env (jb_start j) (jb_dev j) False w
      | (w, telemetry, None) \<Rightarrow>
          deliver e env j telemetry (record_outcome e env (jb_start j) (jb_dev j) True w))"

fun resume :: "('r, 'c, 'n, 'b, 'm) engine \<Rightarrow> env \<Rightarrow> point \<Rightarrow> ('r, 'c, 'n, 'b, 'm) world \<Rightarrow>
    ('r, 'c, 'n, 'b, 'm) world" where
  "resume e env (Lookup cmd) w = processCommand e env cmd w"
| "resume e env (Sending j payload ph attempt backoff lastErr) w =
     conclude e env j (rest_of_chain e env j ph (exec_loop e env (jb_dev j) payload attempt backoff lastErr w))"
| "resume e env (Waiting j payload ph attempt backoff err) w =
     conclude e env j (rest_of_chain e env j ph
       (case backoff_wait env backoff w of
          (True, w1) \<Rightarrow> (w1, [], Some CtxCanceled)
        | (False, w1) \<Rightarrow> exec_loop e env (jb_dev j) payload (attempt + 1) (backoff * 2) (Some err) w1))"
| "resume e env (Recording j telemetry ok) w =
     (let w1 = record_outcome e env (jb_start j) (jb_dev j) ok w
      in if ok then deliver e env j telemetry w1 else w1)"
| "resume e env (Metering j telemetry ok latency) w =
     (let w1 = (case eng_metrics e of
                  None \<Rightarrow> w
                | Some m \<Rightarrow> w\<lparr>w_met := op_RecordCommandLatency m (w_met w) (dev_Protocol (jb_dev j))
                              (if ok then ''SUCCESS'' else ''ERROR'') latency\<rparr>)
      in if ok then deliver e env j telemetry w1 else w1)"
| "resume e env (Buffering t) w = publishTelemetryWithRetry e env t (buffer_telemetry e env t w)"
| "resume e env (Publishing t attempt backoff) w = publish_loop e env t attempt backoff w"
| "resume e env (PublishWaiting t attempt backoff) w =
     (case backoff_wait env backoff w of
        (True, w1) \<Rightarrow> w1
      | (False, w1) \<Rightarrow> publish_loop e env t (attempt + 1) (backoff * 2) w1)"
| "resume e env Finished w = w"

lemma resume_next_frame:
  "resume e env (next_frame e j ps tel) w =
     conclude e env j (run_followups e env (jb_dev j) (jb_adapter j) ps tel w)"
proof (cases ps)
  case Nil
  then show ?thesis by (simp add: conclude_def)
next
  case (Cons p qs)
  then show ?thesis
    by (simp add: rest_of_chain_def executeWithRetry_def split: prod.split option.split sum.split)
qed

lemma resume_after_exchange:
  "resume e env (after_exchange e j ph resp err) w =
     conclude e env j (rest_of_chain e env j ph (w, resp, err))"
  by (cases err)
    (auto simp: after_exchange_def rest_of_chain_def resume_next_frame conclude_def
      split: sum.split progress.split option.split)

lemma chain_rest:
  "executeCommandChain e env (jb_dev j) (jb_adapter j) (jb_cmd j) p w =
     rest_of_chain e env j Primary (executeWithRetry e env (jb_dev j) p w)"
  by (auto simp: executeCommandChain_def rest_of_chain_def split: prod.split option.split sum.split)

lemma chain_from_lookup:
  "rest_of_chain e env \<lparr>jb_cmd = cmd, jb_start = st, jb_dev = dev, jb_adapter = ad\<rparr> Primary
      (exec_loop e env dev p 1 (BaseBackoff (eng_retryPolicy e)) None w) =
     executeCommandChain e env dev ad cmd p w"
  using chain_rest [of e env "\<lparr>jb_cmd = cmd, jb_start = st, jb_dev = dev, jb_adapter = ad\<rparr>" p w]
  by (simp add: executeWithRetry_def)

lemma resume_lookup:
  "point_step e env (Lookup cmd) w = (pt, w') \<Longrightarrow> resume e env pt w' = processCommand e env cmd w"
  by (auto simp: processCommand_routed routed_def time_now_def Let_def chain_from_lookup conclude_def
      deliver_def split: sum.splits prod.split option.split)

lemma resume_sending:
  assumes "point_step e env (Sending j p ph a b le) w = (pt, w')"
  shows "resume e env pt w' = resume e env (Sending j p ph a b le) w"
  using assms
  by (subst resume.simps, subst exec_loop.simps)
    (auto simp: resume_after_exchange split: prod.splits sum.splits if_splits)

lemma resume_publishing:
  assumes "point_step e env (Publishing t a b) w = (pt, w')"
  shows "resume e env pt w' = resume e env (Publishing t a b) w"
  using assms
  by (subst resume.simps, subst publish_loop.simps)
    (auto split: prod.splits option.splits if_splits)

text \<open>A step changes nothing about where the command, left to itself, will end.\<close>

lemma resume_step:
  assumes "point_step e env pt w = (pt', w')"
  shows "resume e env pt' w' = resume e env pt w"
proof (cases pt)
  case (Lookup cmd)
  then show ?thesis using resume_lookup assms by simp
next
  case (Sending j p ph a b le)
  then show ?thesis using resume_sending assms by blast
next
  case (Waiting j p ph a b err)
  then show ?thesis using assms by (auto simp: resume_after_exchange split: prod.splits bool.splits)
next
  case (Recording j tel ok)
  then show ?thesis using assms
    by (auto simp: record_outcome_def Let_def time_now_def split: option.split)
next
  case (Metering j tel ok latency)
  then show ?thesis using assms
    by (auto simp: Let_def deliver_def telemetry_for_def time_now_def split: if_splits option.split)
next
  case (Buffering t)
  then show ?thesis using assms by (auto simp: publishTelemetryWithRetry_def)
next
  case (Publishing t a b)
  then show ?thesis using resume_publishing assms by blast
next
  case (PublishWaiting t a b)
  then show ?thesis using assms by (auto split: prod.splits bool.splits)
next
  case Finished
  then show ?thesis using assms by simp
qed

section \<open>Termination of one command\<close>

text \<open>
  The phase, the frames still to come, and twice the attempts left with one more for a loop
  that has yet to look; each step makes the triple smaller.
\<close>

fun point_rank :: "int \<Rightarrow> point \<Rightarrow> nat \<times> nat \<times> nat" where
  "point_rank m (Lookup cmd) = (6, 0, 0)"
| "point_rank m (Sending j p ph a b le) =
     (case ph of Primary \<Rightarrow> 5 | _ \<Rightarrow> 4, case ph of Primary \<Rightarrow> 0 | Following ps tel \<Rightarrow> length ps,
      2 * nat (m + 1 - a) + 1)"
| "point_rank m (Waiting j p ph a b err) =
     (case ph of Primary \<Rightarrow> 5 | _ \<Rightarrow> 4, case ph of Primary \<Rightarrow> 0 | Following ps tel \<Rightarrow> length ps,
      max 2 (2 * nat (m + 1 - a)))"
| "point_rank m (Recording j tel ok) = (3, 0, 0)"
| "point_rank m (Metering j tel ok latency) = (2, 0, 0)"
| "point_rank m (Buffering t) = (1, 1, 0)"
| "point_rank m (Publishing t a b) = (1, 0, 2 * nat (m + 1 - a) + 1)"
| "point_rank m (PublishWaiting t a b) = (1, 0, max 2 (2 * nat (m + 1 - a)))"
| "point_rank m Finished = (0, 0, 0)"

definition rank_less :: "((nat \<times> nat \<times> nat) \<times> (nat \<times> nat \<times> nat)) set" where
  "rank_less = less_than <*lex*> less_than <*lex*> less_than"

lemma wf_rank_less: "wf rank_less"
  by (auto simp: rank_less_def)

text \<open>The first two components while the frames of a chain are exchanged.\<close>

fun chain_rank :: "progress \<Rightarrow> nat \<Rightarrow> nat \<times> nat \<times> nat" where
  "chain_rank Primary k = (5, 0, k)"
| "chain_rank (Following ps tel) k = (4, length ps, k)"

lemma point_rank_exchange:
  "point_rank m (Sending j p ph a b le) = chain_rank ph (2 * nat (m + 1 - a) + 1)"
  "point_rank m (Waiting j p ph a b err) = chain_rank ph (max 2 (2 * nat (m + 1 - a)))"
  by (cases ph; simp)+

lemma next_frame_rank:
  "(point_rank m (next_frame e j ps tel), chain_rank Primary k) \<in> rank_less"
  "(point_rank m (next_frame e j ps tel), chain_rank (Following ps tel') k) \<in> rank_less"
  by (cases ps; simp add: rank_less_def)+

lemma after_exchange_rank: "(point_rank m (after_exchange e j ph resp err), chain_rank ph k) \<in> rank_less"
proof -
  have "(point_rank m (Recording j tel ok), chain_rank ph k) \<in> rank_less" for tel ok
    by (cases ph) (simp_all add: rank_less_def)
  then show ?thesis
    using next_frame_rank [of m e j] unfolding after_exchange_def
    by (cases ph) (simp_all only: split: if_split sum.split option.split progress.split, blast+)
qed

lemma chain_rank_less: "k < l \<Longrightarrow> (chain_rank ph k, chain_rank ph l) \<in> rank_less"
  by (cases ph) (simp_all add: rank_less_def)

lemma point_step_decreases:
  assumes "pt \<noteq> Finished" and "point_step e env pt w = (pt', w')"
  shows "(point_rank (MaxAttempts (eng_retryPolicy e)) pt', point_rank (MaxAttempts (eng_retryPolicy e)) pt)
    \<in> rank_less"
proof (cases pt)
  case (Lookup cmd)
  then show ?thesis using assms(2)
    by (auto simp: rank_less_def split: sum.splits prod.splits)
next
  case (Sending j p ph a b le)
  then show ?thesis using assms(2)
    by (auto simp: point_rank_exchange after_exchange_rank simp del: point_rank.simps(2,3)
        intro!: chain_rank_less split: sum.splits prod.splits if_splits)
next
  case (Waiting j p ph a b err)
  then show ?thesis using assms(2)
    by (auto simp: point_rank_exchange after_exchange_rank simp del: point_rank.simps(2,3)
        intro!: chain_rank_less split: prod.splits bool.splits)
next
  case Finished
  then show ?thesis using assms(1) by simp
qed (use assms(2) in \<open>auto simp: rank_less_def Let_def split: prod.splits option.splits if_splits bool.splits\<close>)

text \<open>Run alone, a command reaches its end, and has then done what \<open>processCommand\<close> does.\<close>

fun point_steps :: "('r, 'c, 'n, 'b, 'm) engine \<Rightarrow> env \<Rightarrow> nat \<Rightarrow> point \<times> ('r, 'c, 'n, 'b, 'm) world \<Rightarrow>
    point \<times> ('r, 'c, 'n, 'b, 'm) world" where
  "point_steps e env 0 s = s"
| "point_steps e env (Suc k) s = point_steps e env k (point_step e env (fst s) (snd s))"

lemma point_steps_finish: "\<exists>k. point_steps e env k (pt, w) = (Finished, resume e env pt w)"
proof (induction "point_rank (MaxAttempts (eng_retryPolicy e)) pt" arbitrary: pt w
    rule: wf_induct_rule [OF wf_rank_less])
  case 1
  show ?case
  proof (cases "pt = Finished")
    case True
    then show ?thesis by (intro exI [of _ 0]) simp
  next
    case False
    obtain pt' w' where s: "point_step e env pt w = (pt', w')" by fastforce
    from 1 [OF point_step_decreases [OF False s]] obtain k
      where "point_steps e env k (pt', w') = (Finished, resume e env pt' w')" by blast
    with resume_step [OF s] s show ?thesis by (intro exI [of _ "Suc k"]) simp
  qed
qed

section \<open>Properties\<close>

text \<open>C16: the steps are a refinement of \<open>processCommand\<close> and nothing else: taken one after
  the other they come to an end, for every engine, command, network and clock, and the state
  they leave is the one that \<open>processCommand\<close> computes.\<close>

theorem steps_compute_process:
  "\<exists>k. point_steps e env k (Lookup cmd, w) = (Finished, processCommand e env cmd w)"
  using point_steps_finish [of e env "Lookup cmd" w] by simp

end
