(* ===== verification/RouterSystem.thy ===== *)
theory RouterSystem
  imports RouterProcess
begin

text \<open>
  The worker pool of \<open>internal/core/router/engine.go\<close>: \<open>Start\<close>, \<open>worker\<close>,
  \<open>DispatchCommand\<close> and \<open>Stop\<close> as a step relation.  A step is one action of one
  goroutine: a dispatch, a worker taking a command, finishing it or exiting, the cancellation
  of the context, the closing of the queue, and on an unbuffered queue a command handed over.  Which step is next is not determined.  A command
  is worked on in one step, at its end, so two commands do not interleave their effects here:
  the relation is about the queue and the workers, and is what the interleaved engine of
  \<open>RouterInterleaving\<close> refines.
\<close>

section \<open>Setting up the engine\<close>

text \<open>
  \<open>NewEngine\<close> with its defaults, and the options that change them; the options that set a
  port are the fields of the \<open>engine\<close> record.  \<open>make\<close> panics on a negative size.
\<close>

record engine_settings =
  set_cmdChan :: "cloud_command channel"
  set_workerPool :: int
  set_retryPolicy :: retry_policy
  set_networkTimeout :: duration

datatype engine_option =
    WithTimeout duration
  | WithWorkerPoolSize int
  | WithCommandQueueSize int
  | WithRetryPolicy retry_policy

definition default_settings :: engine_settings where
  "default_settings = \<lparr>set_cmdChan = make_chan 5000, set_workerPool = 100,
     set_retryPolicy = \<lparr>MaxAttempts = 3, BaseBackoff = millis 200\<rparr>,
     set_networkTimeout = seconds 5\<rparr>"

fun apply_option :: "engine_option \<Rightarrow> engine_settings \<Rightarrow> engine_settings outcome" where
  "apply_option (WithTimeout d) e = Ret (e\<lparr>set_networkTimeout := d\<rparr>)"
| "apply_option (WithWorkerPoolSize s) e = Ret (e\<lparr>set_workerPool := s\<rparr>)"
| "apply_option (WithCommandQueueSize s) e =
     (if s < 0 then Panic ''makechan: size out of range''
      else Ret (e\<lparr>set_cmdChan := make_chan (nat s)\<rparr>))"
| "apply_option (WithRetryPolicy p) e = Ret (e\<lparr>set_retryPolicy := p\<rparr>)"

fun apply_options :: "engine_option list \<Rightarrow> engine_settings \<Rightarrow> engine_settings outcome" where
  "apply_options [] e = Ret e"
| "apply_options (opt # opts) e =
     (case apply_option opt e of Panic m \<Rightarrow> Panic m | Ret e' \<Rightarrow> apply_options opts e')"

definition NewEngine :: "engine_option list \<Rightarrow> engine_settings outcome" where
  "NewEngine opts = apply_options opts default_settings"

section \<open>The worker pool\<close>

datatype worker = WIdle | WBusy cloud_command | WExited

text \<open>
  Besides the state of the code: the commands that were accepted, dropped, taken and finished
  so far, in order, and whether a dispatch has panicked.
\<close>

record ('r, 'c, 'n, 'b, 'm) system =
  sy_queue :: "cloud_command channel"
  sy_workers :: "worker list"
  sy_cancelled :: bool
  sy_world :: "('r, 'c, 'n, 'b, 'm) world"
  sy_accepted :: "cloud_command list"
  sy_dropped :: "cloud_command list"
  sy_taken :: "cloud_command list"
  sy_finished :: "cloud_command list"
  sy_panicked :: bool

text \<open>\<open>Start\<close> with \<open>n\<close> workers on a queue of size \<open>cap\<close>.\<close>

definition start_system :: "nat \<Rightarrow> nat \<Rightarrow> ('r, 'c, 'n, 'b, 'm) world \<Rightarrow> ('r, 'c, 'n, 'b, 'm) system" where
  "start_system cap n w = \<lparr>sy_queue = make_chan cap, sy_workers = replicate n WIdle,
     sy_cancelled = False, sy_world = w, sy_accepted = [], sy_dropped = [], sy_taken = [],
     sy_finished = [], sy_panicked = False\<rparr>"

definition StartEngine :: "engine_settings \<Rightarrow> ('r, 'c, 'n, 'b, 'm) world \<Rightarrow> ('r, 'c, 'n, 'b, 'm) system" where
  "StartEngine st w = start_system (ch_cap (set_cmdChan st)) (nat (set_workerPool st)) w"

text \<open>One dispatch, with its bookkeeping.\<close>

definition dispatch_to :: "('r, 'c, 'n, 'b, 'm) engine \<Rightarrow> cloud_command \<Rightarrow>
    ('r, 'c, 'n, 'b, 'm) system \<Rightarrow> ('r, 'c, 'n, 'b, 'm) system" where
  "dispatch_to e cmd s =
     (case DispatchCommand (eng_metrics e) cmd (sy_queue s, w_met (sy_world s)) of
        Panic m \<Rightarrow> s\<lparr>sy_panicked := True\<rparr>
      | Ret (ch', met') \<Rightarrow>
          (let accepted = (length (ch_buf (sy_queue s)) < length (ch_buf ch'))
           in s\<lparr>sy_queue := ch', sy_world := (sy_world s)\<lparr>w_met := met'\<rparr>,
                sy_accepted := sy_accepted s @ (if accepted then [cmd] else []),
                sy_dropped := sy_dropped s @ (if accepted then [] else [cmd])\<rparr>))"

inductive worker_step :: "('r, 'c, 'n, 'b, 'm) engine \<Rightarrow> env \<Rightarrow>
    ('r, 'c, 'n, 'b, 'm) system \<Rightarrow> ('r, 'c, 'n, 'b, 'm) system \<Rightarrow> bool"
  for e env where
  take: "i < length (sy_workers s) \<Longrightarrow> sy_workers s ! i = WIdle \<Longrightarrow>
      try_recv (sy_queue s) = (ch', Received cmd) \<Longrightarrow>
      worker_step e env s (s\<lparr>sy_queue := ch', sy_workers := (sy_workers s)[i := WBusy cmd],
        sy_taken := sy_taken s @ [cmd]\<rparr>)"
| finish: "i < length (sy_workers s) \<Longrightarrow> sy_workers s ! i = WBusy cmd \<Longrightarrow>
      worker_step e env s (s\<lparr>sy_workers := (sy_workers s)[i := WIdle],
        sy_world := processCommand e env cmd (sy_world s),
        sy_finished := sy_finished s @ [cmd]\<rparr>)"
| exit_cancelled: "i < length (sy_workers s) \<Longrightarrow> sy_workers s ! i = WIdle \<Longrightarrow> sy_cancelled s \<Longrightarrow>
      worker_step e env s (s\<lparr>sy_workers := (sy_workers s)[i := WExited]\<rparr>)"
| exit_closed: "i < length (sy_workers s) \<Longrightarrow> sy_workers s ! i = WIdle \<Longrightarrow>
      try_recv (sy_queue s) = (ch', ClosedEmpty) \<Longrightarrow>
      worker_step e env s (s\<lparr>sy_workers := (sy_workers s)[i := WExited]\<rparr>)"

inductive outer_step :: "('r, 'c, 'n, 'b, 'm) engine \<Rightarrow>
    ('r, 'c, 'n, 'b, 'm) system \<Rightarrow> ('r, 'c, 'n, 'b, 'm) system \<Rightarrow> bool"
  for e where
  dispatch: "\<not> sy_panicked s \<Longrightarrow> outer_step e s (dispatch_to e cmd s)"
| cancel: "outer_step e s (s\<lparr>sy_cancelled := True\<rparr>)"
| stop: "close_chan (sy_queue s) = Ret ch' \<Longrightarrow> outer_step e s (s\<lparr>sy_queue := ch'\<rparr>)"

text \<open>
  A queue of capacity 0 has no buffer: a dispatch hands the command over to a worker that waits
  for one, or drops it.
\<close>

definition can_hand_over :: "nat \<Rightarrow> ('r, 'c, 'n, 'b, 'm) system \<Rightarrow> bool" where
  "can_hand_over i s \<longleftrightarrow> \<not> sy_panicked s \<and> ch_cap (sy_queue s) = 0 \<and> \<not> ch_closed (sy_queue s) \<and>
     i < length (sy_workers s) \<and> sy_workers s ! i = WIdle"

definition hand_over :: "nat \<Rightarrow> cloud_command \<Rightarrow> ('r, 'c, 'n, 'b, 'm) system \<Rightarrow>
    ('r, 'c, 'n, 'b, 'm) system" where
  "hand_over i cmd s = s\<lparr>sy_workers := (sy_workers s)[i := WBusy cmd],
     sy_accepted := sy_accepted s @ [cmd], sy_taken := sy_taken s @ [cmd]\<rparr>"

definition system_step :: "('r, 'c, 'n, 'b, 'm) engine \<Rightarrow> env \<Rightarrow>
    ('r, 'c, 'n, 'b, 'm) system \<Rightarrow> ('r, 'c, 'n, 'b, 'm) system \<Rightarrow> bool" where
  "system_step e env s t \<longleftrightarrow> worker_step e env s t \<or> outer_step e s t \<or>
     (\<exists>i cmd. can_hand_over i s \<and> t = hand_over i cmd s)"

definition is_start :: "nat \<Rightarrow> nat \<Rightarrow> ('r, 'c, 'n, 'b, 'm) system \<Rightarrow> bool" where
  "is_start cap n s \<longleftrightarrow> (\<exists>w. s = start_system cap n w)"

inductive_cases worker_stepE: "worker_step e env s t"
inductive_cases outer_stepE: "outer_step e s t"

section \<open>The queue invariant\<close>

fun busy :: "worker list \<Rightarrow> cloud_command list" where
  "busy [] = []"
| "busy (WBusy cmd # ws) = cmd # busy ws"
| "busy (_ # ws) = busy ws"

definition queue_inv :: "nat \<Rightarrow> nat \<Rightarrow> ('r, 'c, 'n, 'b, 'm) system \<Rightarrow> bool" where
  "queue_inv cap n s \<longleftrightarrow>
     ch_cap (sy_queue s) = cap \<and> chan_ok (sy_queue s) \<and> length (sy_workers s) = n \<and>
     sy_accepted s = sy_taken s @ ch_buf (sy_queue s) \<and>
     mset (sy_taken s) = mset (sy_finished s) + mset (busy (sy_workers s)) \<and>
     (WExited \<in> set (sy_workers s) \<longrightarrow>
        sy_cancelled s \<or> (ch_closed (sy_queue s) \<and> ch_buf (sy_queue s) = [])) \<and>
     (sy_panicked s \<longrightarrow> ch_closed (sy_queue s))"

lemma busy_append [simp]: "busy (xs @ ys) = busy xs @ busy ys"
  by (induction xs rule: busy.induct) auto

lemma busy_replicate [simp]: "busy (replicate n WIdle) = []"
  by (induction n) auto

lemma busy_update:
  "i < length ws \<Longrightarrow> mset (busy (ws[i := x])) + mset (busy [ws ! i]) = mset (busy ws) + mset (busy [x])"
proof (induction ws arbitrary: i)
  case (Cons w ws)
  show ?case
  proof (cases i)
    case 0
    then show ?thesis by (cases w; cases x) auto
  next
    case (Suc j)
    with Cons.IH [of j] Cons.prems show ?thesis by (cases w) auto
  qed
qed simp

lemma set_update_exited:
  "WExited \<in> set (ws[i := x]) \<Longrightarrow> x \<noteq> WExited \<Longrightarrow> WExited \<in> set ws"
  by (metis in_set_conv_nth length_list_update nth_list_update_eq nth_list_update_neq)

lemma queue_inv_start: "is_start cap n s \<Longrightarrow> queue_inv cap n s"
  by (auto simp: is_start_def queue_inv_def start_system_def make_chan_def chan_ok_def)

lemma queue_inv_worker:
  assumes "queue_inv cap n s" and "worker_step e env s t"
  shows "queue_inv cap n t"
  using assms(2)
proof (cases rule: worker_step.cases)
  case (take i ch' cmd)
  obtain xs where buf: "ch_buf (sy_queue s) = cmd # xs" "ch' = (sy_queue s)\<lparr>ch_buf := xs\<rparr>"
    using take(4) by (auto simp: try_recv_Received)
  have m: "mset (busy ((sy_workers s)[i := WBusy cmd])) = mset (busy (sy_workers s)) + {#cmd#}"
    using busy_update [OF take(2), of "WBusy cmd"] take(3) by simp
  show ?thesis using assms(1) take buf m
    by (auto simp: queue_inv_def chan_ok_def dest: set_update_exited)
next
  case (finish i cmd)
  have m: "mset (busy (sy_workers s)) = mset (busy ((sy_workers s)[i := WIdle])) + {#cmd#}"
    using busy_update [OF finish(2), of WIdle] finish(3) by simp
  show ?thesis using assms(1) finish m
    by (auto simp: queue_inv_def dest: set_update_exited)
next
  case (exit_cancelled i)
  have m: "mset (busy ((sy_workers s)[i := WExited])) = mset (busy (sy_workers s))"
    using busy_update [OF exit_cancelled(2), of WExited] exit_cancelled(3) by simp
  show ?thesis using assms(1) exit_cancelled m by (auto simp: queue_inv_def)
next
  case (exit_closed i ch')
  have m: "mset (busy ((sy_workers s)[i := WExited])) = mset (busy (sy_workers s))"
    using busy_update [OF exit_closed(2), of WExited] exit_closed(3) by simp
  have c: "ch_closed (sy_queue s)" "ch_buf (sy_queue s) = []"
    using exit_closed(4) by (auto simp: try_recv_def split: list.splits if_splits)
  show ?thesis using assms(1) exit_closed(1) m c by (auto simp: queue_inv_def)
qed

lemma DispatchCommand_open:
  "\<not> ch_closed ch \<Longrightarrow> DispatchCommand m cmd (ch, met) =
     (if length (ch_buf ch) < ch_cap ch then Ret (ch\<lparr>ch_buf := ch_buf ch @ [cmd]\<rparr>, met)
      else Ret (ch, case m of Some ops \<Rightarrow> op_RecordCommandDropped ops met | None \<Rightarrow> met))"
  by (simp add: DispatchCommand_def DropNewestPolicy_def try_send_def split: option.split)

lemma DispatchCommand_closed:
  "ch_closed ch \<Longrightarrow> DispatchCommand m cmd (ch, met) = Panic ''send on closed channel''"
  by (simp add: DispatchCommand_def DropNewestPolicy_def try_send_def)

lemma queue_inv_dispatch:
  "queue_inv cap n s \<Longrightarrow> queue_inv cap n (dispatch_to e cmd s)"
  by (cases "ch_closed (sy_queue s)")
    (auto simp: dispatch_to_def DispatchCommand_closed DispatchCommand_open queue_inv_def
      chan_ok_def Let_def)

lemma queue_inv_outer:
  assumes "queue_inv cap n s" and "outer_step e s t"
  shows "queue_inv cap n t"
  using assms(2)
proof (cases rule: outer_step.cases)
  case (dispatch cmd)
  then show ?thesis using queue_inv_dispatch [OF assms(1)] by simp
next
  case cancel
  then show ?thesis using assms(1) by (auto simp: queue_inv_def)
next
  case (stop ch')
  then show ?thesis using assms(1)
    by (auto simp: queue_inv_def close_chan_def chan_ok_def split: if_splits)
qed

lemma queue_inv_hand_over:
  assumes "queue_inv cap n s" and "can_hand_over i s"
  shows "queue_inv cap n (hand_over i cmd s)"
proof -
  have "mset (busy ((sy_workers s)[i := WBusy cmd])) = mset (busy (sy_workers s)) + {#cmd#}"
    using busy_update [of i "sy_workers s" "WBusy cmd"] assms(2) by (simp add: can_hand_over_def)
  moreover have "ch_buf (sy_queue s) = []"
    using assms by (auto simp: queue_inv_def chan_ok_def can_hand_over_def)
  ultimately show ?thesis using assms
    by (auto simp: queue_inv_def hand_over_def can_hand_over_def dest: set_update_exited)
qed

interpretation queue: invariant_system "is_start cap n" "system_step e env" "queue_inv cap n"
  for cap n e env
  by unfold_locales
    (auto simp: system_step_def intro: queue_inv_start queue_inv_worker queue_inv_outer queue_inv_hand_over)

section \<open>Termination of Stop\<close>

text \<open>What is left to do: every queued command costs a take and a finish, a worker its exit.\<close>

fun worker_work :: "worker \<Rightarrow> nat" where
  "worker_work WIdle = 1"
| "worker_work (WBusy cmd) = 2"
| "worker_work WExited = 0"

definition work_left :: "('r, 'c, 'n, 'b, 'm) system \<Rightarrow> nat" where
  "work_left s = 2 * length (ch_buf (sy_queue s)) + sum_list (map worker_work (sy_workers s))"

lemma work_update:
  "i < length ws \<Longrightarrow> sum_list (map worker_work (ws[i := x])) + worker_work (ws ! i) =
     sum_list (map worker_work ws) + worker_work x"
proof (induction ws arbitrary: i)
  case (Cons w ws)
  then show ?case by (cases i) auto
qed simp

lemma worker_step_decreases:
  assumes "worker_step e env s t"
  shows "work_left t < work_left s"
  using assms
proof (cases rule: worker_step.cases)
  case (take i ch' cmd)
  then show ?thesis using work_update [OF take(2), of "WBusy cmd"]
    by (auto simp: work_left_def try_recv_Received)
next
  case (finish i cmd)
  then show ?thesis using work_update [OF finish(2), of WIdle] by (auto simp: work_left_def)
next
  case (exit_cancelled i)
  then show ?thesis using work_update [OF exit_cancelled(2), of WExited] by (auto simp: work_left_def)
next
  case (exit_closed i ch')
  then show ?thesis using work_update [OF exit_closed(2), of WExited] by (auto simp: work_left_def)
qed

lemma worker_progress:
  assumes "ch_closed (sy_queue s)" and "w \<in> set (sy_workers s)" and "w \<noteq> WExited"
  shows "\<exists>t. worker_step e env s t"
proof -
  obtain i where i: "i < length (sy_workers s)" "sy_workers s ! i = w"
    using assms(2) by (auto simp: in_set_conv_nth)
  show ?thesis
  proof (cases w)
    case WIdle
    show ?thesis
    proof (cases "ch_buf (sy_queue s)")
      case Nil
      then have "try_recv (sy_queue s) = (sy_queue s, ClosedEmpty)" using assms(1) by (simp add: try_recv_def)
      with i WIdle worker_step.exit_closed show ?thesis by blast
    next
      case (Cons cmd xs)
      then have "try_recv (sy_queue s) = ((sy_queue s)\<lparr>ch_buf := xs\<rparr>, Received cmd)"
        by (simp add: try_recv_def)
      with i WIdle worker_step.take show ?thesis by blast
    qed
  next
    case (WBusy cmd)
    with i worker_step.finish show ?thesis by blast
  next
    case WExited
    with assms(3) show ?thesis by simp
  qed
qed

text \<open>A finite run of the workers.\<close>

inductive worker_run :: "('r, 'c, 'n, 'b, 'm) engine \<Rightarrow> env \<Rightarrow> nat \<Rightarrow>
    ('r, 'c, 'n, 'b, 'm) system \<Rightarrow> ('r, 'c, 'n, 'b, 'm) system \<Rightarrow> bool"
  for e env where
  run_nil: "worker_run e env 0 s s"
| run_step: "worker_step e env s t \<Longrightarrow> worker_run e env k t u \<Longrightarrow> worker_run e env (Suc k) s u"

lemma worker_run_bound: "worker_run e env k s t \<Longrightarrow> k + work_left t \<le> work_left s"
  by (induction rule: worker_run.induct) (auto dest: worker_step_decreases)

lemma worker_step_closed: "worker_step e env s t \<Longrightarrow> ch_closed (sy_queue t) = ch_closed (sy_queue s)"
  by (erule worker_stepE) (auto simp: try_recv_def split: list.splits)

lemma worker_run_completes:
  "ch_closed (sy_queue s) \<Longrightarrow>
     \<exists>k t. worker_run e env k s t \<and> set (sy_workers t) \<subseteq> {WExited}"
proof (induction "work_left s" arbitrary: s rule: less_induct)
  case less
  show ?case
  proof (cases "set (sy_workers s) \<subseteq> {WExited}")
    case True
    then show ?thesis using run_nil by blast
  next
    case False
    then obtain w where "w \<in> set (sy_workers s)" "w \<noteq> WExited" by blast
    from worker_progress [OF less.prems this] obtain t where t: "worker_step e env s t" by blast
    have "ch_closed (sy_queue t)" using worker_step_closed [OF t] less.prems by simp
    from less.hyps [OF worker_step_decreases [OF t] this] t run_step show ?thesis by blast
  qed
qed

lemma worker_run_inv:
  "worker_run e env k s t \<Longrightarrow> queue_inv cap n s \<Longrightarrow>
     queue_inv cap n t \<and> sy_cancelled t = sy_cancelled s \<and> ch_closed (sy_queue t) = ch_closed (sy_queue s) \<and>
     sy_accepted t = sy_accepted s"
proof (induction rule: worker_run.induct)
  case (run_step s t k u)
  have "queue_inv cap n t" by (rule queue_inv_worker [OF run_step.prems run_step.hyps(1)])
  moreover have "sy_cancelled t = sy_cancelled s" "sy_accepted t = sy_accepted s"
    using run_step.hyps(1) by (auto elim!: worker_stepE)
  ultimately show ?case using run_step.IH worker_step_closed [OF run_step.hyps(1)] by simp
qed simp

lemma busy_exited: "set ws \<subseteq> {WExited} \<Longrightarrow> busy ws = []"
  by (induction ws rule: busy.induct) auto

lemma replicate_update: "(replicate i x @ y # ys)[i := z] = replicate i x @ z # ys"
  by (induction i) auto

lemma reach_step_worker: "reach I (system_step e env) s \<Longrightarrow> worker_step e env s t \<Longrightarrow> reach I (system_step e env) t"
  by (erule reach_step) (simp add: system_step_def)

lemma reach_step_outer: "reach I (system_step e env) s \<Longrightarrow> outer_step e s t \<Longrightarrow> reach I (system_step e env) t"
  by (erule reach_step) (simp add: system_step_def)

text \<open>Once the context is cancelled, every idle worker may exit, whatever is queued.\<close>

lemma idle_workers_exit:
  "reach I (system_step e env) s \<Longrightarrow> sy_cancelled s \<Longrightarrow>
     sy_workers s = replicate i WExited @ replicate j WIdle \<Longrightarrow>
     reach I (system_step e env) (s\<lparr>sy_workers := replicate (i + j) WExited\<rparr>)"
proof (induction j arbitrary: i s)
  case 0
  then have "s\<lparr>sy_workers := replicate (i + 0) WExited\<rparr> = s" by (cases s) simp
  with 0(1) show ?case by simp
next
  case (Suc j)
  let ?t = "s\<lparr>sy_workers := (sy_workers s)[i := WExited]\<rparr>"
  have "worker_step e env s ?t"
    using Suc.prems by (intro worker_step.exit_cancelled) (simp_all add: nth_append)
  then have r: "reach I (system_step e env) ?t" by (rule reach_step_worker [OF Suc.prems(1)])
  have w: "sy_workers ?t = replicate (Suc i) WExited @ replicate j WIdle"
    using Suc.prems(3) by (simp add: replicate_update replicate_app_Cons_same)
  from Suc.IH [OF r _ w] Suc.prems(2) show ?case by simp
qed

lemma start_reach: "reach (is_start cap n) (system_step e env) (start_system cap n w)"
  by (rule reach_init) (auto simp: is_start_def)

text \<open>From any state with a closed queue the workers reach the state in which
  all have exited, so the wait in \<open>Stop\<close> ends.\<close>

lemma stop_completes:
  assumes "ch_closed (sy_queue s)"
  shows "\<exists>k t. k \<le> work_left s \<and> worker_run e env k s t \<and> set (sy_workers t) \<subseteq> {WExited}"
  using worker_run_completes [OF assms] worker_run_bound by (metis add_leD1)

section \<open>Properties\<close>

text \<open>However dispatches, workers, cancellation and closing interleave, the queue never
  holds more than its capacity, commands are taken in the order in which they were accepted,
  and every accepted command is exactly one of queued, being processed and finished: none is
  lost and none is processed twice.\<close>

lemma queue_exactly_once:
  assumes "reach (is_start cap n) (system_step e env) s"
  shows "length (ch_buf (sy_queue s)) \<le> cap \<and>
    sy_accepted s = sy_taken s @ ch_buf (sy_queue s) \<and>
    mset (sy_accepted s) = mset (ch_buf (sy_queue s)) + mset (busy (sy_workers s)) + mset (sy_finished s) \<and>
    length (sy_workers s) = n"
  using queue.reach_inv [OF assms] by (auto simp: queue_inv_def chan_ok_def)

definition sample_command :: cloud_command where
  "sample_command = \<lparr>cmd_CorrelationID = ''c-1'', cmd_DeviceID = ''Projector01'',
     cmd_CommandName = CmdGetStatus, cmd_Payload = [], cmd_IssuedAt = 0\<rparr>"

text \<open>\<open>Stop\<close> returns, seen without interleaving.  Once the queue is closed the workers can always run to their
  exit, no run of them is longer than twice the queued commands plus two steps per
  worker, and when none can move any more and the context was not cancelled, every accepted command
  has been processed.\<close>

lemma stop_drains_and_returns:
  assumes "reach (is_start cap n) (system_step e env) s" and "ch_closed (sy_queue s)"
    and "worker_run e env k s t" and "\<nexists>u. worker_step e env t u"
    and "\<not> sy_cancelled s" and "0 < n"
  shows "k \<le> 2 * length (ch_buf (sy_queue s)) + 2 * n \<and> set (sy_workers t) = {WExited} \<and>
    ch_buf (sy_queue t) = [] \<and> mset (sy_finished t) = mset (sy_accepted s)"
proof -
  have inv: "queue_inv cap n s" by (rule queue.reach_inv [OF assms(1)])
  note run = worker_run_inv [OF assms(3) inv]
  have "worker_work w \<le> 2" for w by (cases w) simp_all
  then have "sum_list (map worker_work (sy_workers s)) \<le> 2 * n"
    using inv sum_list_mono [of "sy_workers s" worker_work "\<lambda>_. 2"]
    by (simp add: queue_inv_def sum_list_triv mult.commute)
  with worker_run_bound [OF assms(3)] have k: "k \<le> 2 * length (ch_buf (sy_queue s)) + 2 * n"
    by (simp add: work_left_def)
  have ex: "set (sy_workers t) \<subseteq> {WExited}"
    using worker_progress [of t] run assms(2,4) by blast
  have ne: "sy_workers t \<noteq> []" using run assms(6) by (auto simp: queue_inv_def)
  then have all: "set (sy_workers t) = {WExited}" using ex by (metis set_empty subset_singletonD)
  then have empty: "ch_buf (sy_queue t) = []" using run assms(5) by (auto simp: queue_inv_def)
  have "sy_accepted t = sy_taken t" "mset (sy_taken t) = mset (sy_finished t)"
    using run empty busy_exited [OF ex] by (simp_all add: queue_inv_def)
  moreover have "sy_accepted t = sy_accepted s" using run by simp
  ultimately show ?thesis using all k empty by metis
qed

text \<open>Cancelling the context before \<open>Stop\<close>, as \<open>main\<close> does, does not drain
  the queue.  With any number of workers there is a run in which a command is accepted, the
  context is cancelled, every worker exits and the queue is closed, and the command is never
  processed.\<close>

lemma cancel_abandons_queue:
  fixes e :: "('r, 'c, 'n, 'b, 'm) engine"
  assumes "0 < cap"
  shows "\<exists>s. reach (is_start cap n) (system_step e env) s \<and> ch_closed (sy_queue s) \<and>
    list_all (\<lambda>w. w = WExited) (sy_workers s) \<and> ch_buf (sy_queue s) = [cmd] \<and>
    sy_accepted s = [cmd] \<and> sy_finished s = []"
proof -
  fix w :: "('r, 'c, 'n, 'b, 'm) world"
  let ?sa = "start_system cap n w"
  let ?sb = "dispatch_to e cmd ?sa"
  let ?sc = "?sb\<lparr>sy_cancelled := True\<rparr>"
  let ?sd = "?sc\<lparr>sy_workers := replicate (0 + n) WExited\<rparr>"
  let ?q = "\<lparr>ch_cap = cap, ch_buf = [cmd], ch_closed = True\<rparr>"
  have d: "sy_queue ?sb = \<lparr>ch_cap = cap, ch_buf = [cmd], ch_closed = False\<rparr>" "sy_accepted ?sb = [cmd]"
    "sy_finished ?sb = []" "sy_workers ?sb = replicate n WIdle"
    using assms by (simp_all add: dispatch_to_def DispatchCommand_open start_system_def make_chan_def)
  have r1: "reach (is_start cap n) (system_step e env) ?sb"
    by (rule reach_step_outer [OF start_reach]) (rule outer_step.dispatch, simp add: start_system_def)
  have r2: "reach (is_start cap n) (system_step e env) ?sc"
    by (rule reach_step_outer [OF r1 outer_step.cancel])
  have r3: "reach (is_start cap n) (system_step e env) ?sd"
    by (rule idle_workers_exit [OF r2]) (simp_all add: d)
  have "outer_step e ?sd (?sd\<lparr>sy_queue := ?q\<rparr>)"
    by (rule outer_step.stop) (simp add: d close_chan_def)
  from reach_step_outer [OF r3 this] show ?thesis
    by (intro exI [of _ "?sd\<lparr>sy_queue := ?q\<rparr>"]) (simp add: d list_all_iff)
qed

text \<open>A dispatch panics exactly when the queue is closed, and only then can the
  program have panicked; on an open queue it puts the command at the end or, when the queue
  is full, drops the command and counts the drop once.\<close>

lemma dispatch_panics_iff_closed:
  "is_panic (DispatchCommand m cmd (ch, met)) = ch_closed ch \<and>
   (case DispatchCommand m cmd (ch, met) of
      Panic _ \<Rightarrow> ch_closed ch
    | Ret (ch', met') \<Rightarrow>
        if length (ch_buf ch) < ch_cap ch
        then ch' = ch\<lparr>ch_buf := ch_buf ch @ [cmd]\<rparr> \<and> met' = met
        else ch' = ch \<and> met' = (case m of Some ops \<Rightarrow> op_RecordCommandDropped ops met | None \<Rightarrow> met))"
  by (cases "ch_closed ch") (simp_all add: DispatchCommand_closed DispatchCommand_open)

end
