(* ===== verification/RouterInterleaving.thy ===== *)
theory RouterInterleaving
  imports RouterSteps RouterSystem
begin

text \<open>
  The worker pool with the commands interleaved.  Several workers are at some point of their
  command each; the next step is one step of any of them, of the outside (a dispatch, a hand-over,
  the cancellation, the closing of the queue), or of another goroutine that shares the registry
  or the buffer: the registry's poller, the fetch endpoint, the pass-through of telemetry, the
  cleanup.  Without its world this system is the one of \<open>RouterSystem\<close>, whose queue
  invariant therefore holds here too.
\<close>

section \<open>Steps\<close>

text \<open>
  \<open>cc_points ! i\<close> is where worker \<open>i\<close> is while it is busy.  The lists record what was
  written: the items that commands stored, each with its command, the items of the
  pass-through, what fetches returned, and the outcomes entered in the registry.
\<close>

record ('r, 'c, 'n, 'b, 'm) concurrent =
  cc_system :: "('r, 'c, 'n, 'b, 'm) system"
  cc_points :: "point list"
  cc_stored :: "(cloud_command \<times> buffered_item) list"
  cc_passed :: "buffered_item list"
  cc_delivered :: "buffered_item list"
  cc_recorded :: "(string \<times> status \<times> time) list"

definition start_concurrent :: "nat \<Rightarrow> nat \<Rightarrow> ('r, 'c, 'n, 'b, 'm) world \<Rightarrow>
    ('r, 'c, 'n, 'b, 'm) concurrent" where
  "start_concurrent cap n w = \<lparr>cc_system = start_system cap n w, cc_points = replicate n Finished,
     cc_stored = [], cc_passed = [], cc_delivered = [], cc_recorded = []\<rparr>"

text \<open>What a step at a point stores, and what it records.\<close>

definition telemetry_item :: "time \<Rightarrow> device_telemetry \<Rightarrow> buffered_item" where
  "telemetry_item now t = \<lparr>item_Timestamp = now, item_DataType = ''telemetry'', item_Payload = telemetry_json t\<rparr>"

fun stored_at :: "('r, 'c, 'n, 'b, 'm) engine \<Rightarrow> env \<Rightarrow> point \<Rightarrow> ('r, 'c, 'n, 'b, 'm) world \<Rightarrow>
    buffered_item list" where
  "stored_at e env (Buffering t) w =
     (case eng_buffer e of
        None \<Rightarrow> []
      | Some b \<Rightarrow>
          (if snd (op_AddData b (w_buf w) (env_clock env (w_now w)) ''telemetry'' (telemetry_json t)) = None
           then [telemetry_item (env_clock env (w_now w)) t] else []))"
| "stored_at e env _ w = []"

fun recorded_at :: "env \<Rightarrow> point \<Rightarrow> ('r, 'c, 'n, 'b, 'm) world \<Rightarrow> (string \<times> status \<times> time) list" where
  "recorded_at env (Recording j telemetry ok) w =
     [(dev_ID (jb_dev j), if ok then StatusOnline else StatusOffline, env_clock env (Suc (w_now w)))]"
| "recorded_at env _ w = []"

text \<open>A wait is interrupted only if the context is cancelled by then.\<close>

definition env_of :: "env \<Rightarrow> ('r, 'c, 'n, 'b, 'm) system \<Rightarrow> env" where
  "env_of env s = env\<lparr>env_interrupt := \<lambda>k. sy_cancelled s \<and> env_interrupt env k\<rparr>"

inductive pool_step :: "('r, 'c, 'n, 'b, 'm) engine \<Rightarrow> env \<Rightarrow>
    ('r, 'c, 'n, 'b, 'm) concurrent \<Rightarrow> ('r, 'c, 'n, 'b, 'm) concurrent \<Rightarrow> bool"
  for e env where
  pool_take: "i < length (sy_workers s) \<Longrightarrow> sy_workers s ! i = WIdle \<Longrightarrow>
      try_recv (sy_queue s) = (ch', Received cmd) \<Longrightarrow> cc_system c = s \<Longrightarrow>
      pool_step e env c (c\<lparr>cc_system := s\<lparr>sy_queue := ch', sy_workers := (sy_workers s)[i := WBusy cmd],
          sy_taken := sy_taken s @ [cmd]\<rparr>, cc_points := (cc_points c)[i := Lookup cmd]\<rparr>)"
| pool_work: "i < length (sy_workers s) \<Longrightarrow> sy_workers s ! i = WBusy cmd \<Longrightarrow> i < length (cc_points c) \<Longrightarrow>
      cc_points c ! i = pt \<Longrightarrow> pt \<noteq> Finished \<Longrightarrow> cc_system c = s \<Longrightarrow>
      point_step e (env_of env s) pt (sy_world s) = (pt', w') \<Longrightarrow>
      pool_step e env c (c\<lparr>cc_system := s\<lparr>sy_world := w'\<rparr>, cc_points := (cc_points c)[i := pt'],
          cc_stored := cc_stored c @ map (Pair cmd) (stored_at e (env_of env s) pt (sy_world s)),
          cc_recorded := cc_recorded c @ recorded_at (env_of env s) pt (sy_world s)\<rparr>)"
| pool_finish: "i < length (sy_workers s) \<Longrightarrow> sy_workers s ! i = WBusy cmd \<Longrightarrow> i < length (cc_points c) \<Longrightarrow>
      cc_points c ! i = Finished \<Longrightarrow> cc_system c = s \<Longrightarrow>
      pool_step e env c (c\<lparr>cc_system := s\<lparr>sy_workers := (sy_workers s)[i := WIdle],
          sy_finished := sy_finished s @ [cmd]\<rparr>\<rparr>)"
| pool_exit_cancelled: "i < length (sy_workers s) \<Longrightarrow> sy_workers s ! i = WIdle \<Longrightarrow> sy_cancelled s \<Longrightarrow>
      cc_system c = s \<Longrightarrow>
      pool_step e env c (c\<lparr>cc_system := s\<lparr>sy_workers := (sy_workers s)[i := WExited]\<rparr>\<rparr>)"
| pool_exit_closed: "i < length (sy_workers s) \<Longrightarrow> sy_workers s ! i = WIdle \<Longrightarrow>
      try_recv (sy_queue s) = (ch', ClosedEmpty) \<Longrightarrow> cc_system c = s \<Longrightarrow>
      pool_step e env c (c\<lparr>cc_system := s\<lparr>sy_workers := (sy_workers s)[i := WExited]\<rparr>\<rparr>)"

text \<open>
  The other goroutines: \<open>reload\<close> is what a load may do to the registry, \<open>cleanup\<close> what a
  tick of the cleanup may do to the buffer; the cloud client changes its own state.  Nothing registers or removes a device.
\<close>

abbreviation in_world :: "(('r, 'c, 'n, 'b, 'm) world \<Rightarrow> ('r, 'c, 'n, 'b, 'm) world) \<Rightarrow>
    ('r, 'c, 'n, 'b, 'm) concurrent \<Rightarrow> ('r, 'c, 'n, 'b, 'm) concurrent" where
  "in_world f c \<equiv> c\<lparr>cc_system := (cc_system c)\<lparr>sy_world := f (sy_world (cc_system c))\<rparr>\<rparr>"

inductive other_step :: "('r, 'c, 'n, 'b, 'm) engine \<Rightarrow> ('r \<Rightarrow> 'r \<Rightarrow> bool) \<Rightarrow> ('b \<Rightarrow> 'b \<Rightarrow> bool) \<Rightarrow>
    ('r, 'c, 'n, 'b, 'm) concurrent \<Rightarrow> ('r, 'c, 'n, 'b, 'm) concurrent \<Rightarrow> bool"
  for e reload cleanup where
  other_outer: "outer_step e (cc_system c) s \<Longrightarrow> other_step e reload cleanup c (c\<lparr>cc_system := s\<rparr>)"
| other_hand_over: "can_hand_over i (cc_system c) \<Longrightarrow>
      other_step e reload cleanup c (c\<lparr>cc_system := hand_over i cmd (cc_system c),
        cc_points := (cc_points c)[i := Lookup cmd]\<rparr>)"
| other_reload: "reload (w_reg (sy_world (cc_system c))) r \<Longrightarrow>
      other_step e reload cleanup c (in_world (\<lambda>w. w\<lparr>w_reg := r\<rparr>) c)"
| other_cleanup: "cleanup (w_buf (sy_world (cc_system c))) b \<Longrightarrow>
      other_step e reload cleanup c (in_world (\<lambda>w. w\<lparr>w_buf := b\<rparr>) c)"
| other_cloud: "other_step e reload cleanup c (in_world (\<lambda>w. w\<lparr>w_cloud := k\<rparr>) c)"
| other_fetch: "eng_buffer e = Some ops \<Longrightarrow> op_Fetch ops (w_buf (sy_world (cc_system c))) = (b, res) \<Longrightarrow>
      other_step e reload cleanup c ((in_world (\<lambda>w. w\<lparr>w_buf := b\<rparr>) c)
        \<lparr>cc_delivered := cc_delivered c @ (case res of Inl err \<Rightarrow> [] | Inr items \<Rightarrow> items)\<rparr>)"
| other_pass: "eng_buffer e = Some ops \<Longrightarrow>
      op_AddData ops (w_buf (sy_world (cc_system c))) now ''telemetry'' (telemetry_json t) = (b, err) \<Longrightarrow>
      other_step e reload cleanup c ((in_world (\<lambda>w. w\<lparr>w_buf := b\<rparr>) c)
        \<lparr>cc_passed := cc_passed c @ (if err = None then [telemetry_item now t] else [])\<rparr>)"

definition concurrent_step :: "('r, 'c, 'n, 'b, 'm) engine \<Rightarrow> env \<Rightarrow> ('r \<Rightarrow> 'r \<Rightarrow> bool) \<Rightarrow> ('b \<Rightarrow> 'b \<Rightarrow> bool) \<Rightarrow>
    ('r, 'c, 'n, 'b, 'm) concurrent \<Rightarrow> ('r, 'c, 'n, 'b, 'm) concurrent \<Rightarrow> bool" where
  "concurrent_step e env reload cleanup c d \<longleftrightarrow> pool_step e env c d \<or> other_step e reload cleanup c d"

definition is_start_concurrent :: "nat \<Rightarrow> nat \<Rightarrow> ('r, 'c, 'n, 'b, 'm) concurrent \<Rightarrow> bool" where
  "is_start_concurrent cap n c \<longleftrightarrow> (\<exists>w. c = start_concurrent cap n w)"

inductive_cases pool_stepE: "pool_step e env c d"
inductive_cases other_stepE: "other_step e reload cleanup c d"

section \<open>Refinement of the queue\<close>

text \<open>The same pool, up to the world.\<close>

definition same_pool :: "('r, 'c, 'n, 'b, 'm) system \<Rightarrow> ('r, 'c, 'n, 'b, 'm) system \<Rightarrow> bool" where
  "same_pool s s' \<longleftrightarrow> (\<exists>w. s' = s\<lparr>sy_world := w\<rparr>)"

lemma same_pool_world [simp]: "same_pool (s\<lparr>sy_world := w\<rparr>) s' = same_pool s s'"
  by (auto simp: same_pool_def)

lemma same_pool_refl [simp]: "same_pool s s"
  by (auto simp: same_pool_def intro!: exI [of _ "sy_world s"])

lemma same_pool_iff:
  "same_pool s s' \<longleftrightarrow> sy_queue s' = sy_queue s \<and> sy_workers s' = sy_workers s \<and>
     sy_cancelled s' = sy_cancelled s \<and> sy_accepted s' = sy_accepted s \<and> sy_dropped s' = sy_dropped s \<and>
     sy_taken s' = sy_taken s \<and> sy_finished s' = sy_finished s \<and> sy_panicked s' = sy_panicked s"
  by (cases s; cases s') (auto simp: same_pool_def)

lemma dispatch_fields:
  "same_pool (dispatch_to e cmd s) (if ch_closed (sy_queue s) then s\<lparr>sy_panicked := True\<rparr>
     else if length (ch_buf (sy_queue s)) < ch_cap (sy_queue s)
     then s\<lparr>sy_queue := (sy_queue s)\<lparr>ch_buf := ch_buf (sy_queue s) @ [cmd]\<rparr>, sy_accepted := sy_accepted s @ [cmd]\<rparr>
     else s\<lparr>sy_dropped := sy_dropped s @ [cmd]\<rparr>)"
  by (simp add: dispatch_to_def DispatchCommand_closed DispatchCommand_open same_pool_iff Let_def)

lemma dispatch_same_pool:
  assumes "same_pool s s'" shows "same_pool (dispatch_to e cmd s) (dispatch_to e cmd s')"
  using dispatch_fields [of e cmd s] dispatch_fields [of e cmd s'] assms
  by (simp add: same_pool_iff split: if_splits)

lemma outer_same_pool:
  assumes "outer_step e s t" and "same_pool s s'"
  shows "\<exists>t'. outer_step e s' t' \<and> same_pool t t'"
  using assms(1)
proof (cases rule: outer_step.cases)
  case (dispatch cmd)
  have "\<not> sy_panicked s'" using dispatch assms(2) by (auto simp: same_pool_iff)
  from outer_step.dispatch [OF this] dispatch_same_pool [OF assms(2)] dispatch show ?thesis by blast
next
  case cancel
  have "same_pool t (s'\<lparr>sy_cancelled := True\<rparr>)" using assms(2) cancel by (auto simp: same_pool_iff)
  with outer_step.cancel show ?thesis by blast
next
  case (stop ch')
  have "same_pool t (s'\<lparr>sy_queue := ch'\<rparr>)" using assms(2) stop by (auto simp: same_pool_iff)
  moreover have "close_chan (sy_queue s') = Ret ch'" using assms(2) stop by (auto simp: same_pool_iff)
  ultimately show ?thesis using outer_step.stop by blast
qed

text \<open>A step of a worker is a step of the abstract pool, or leaves it alone.\<close>

lemma pool_step_simulated:
  assumes "pool_step e env c d" and "same_pool (cc_system c) s"
  shows "same_pool (cc_system d) s \<or> (\<exists>t. worker_step e env s t \<and> same_pool (cc_system d) t)"
  using assms(1)
proof (cases rule: pool_step.cases)
  case (pool_take i s' ch' cmd)
  have "worker_step e env s (s\<lparr>sy_queue := ch', sy_workers := (sy_workers s)[i := WBusy cmd],
      sy_taken := sy_taken s @ [cmd]\<rparr>)"
    using pool_take assms(2) by (intro worker_step.take) (auto simp: same_pool_iff)
  moreover have "same_pool (cc_system d) (s\<lparr>sy_queue := ch', sy_workers := (sy_workers s)[i := WBusy cmd],
      sy_taken := sy_taken s @ [cmd]\<rparr>)"
    using pool_take assms(2) by (auto simp: same_pool_iff)
  ultimately show ?thesis by blast
next
  case (pool_work i s' cmd pt pt' w')
  then show ?thesis using assms(2) by simp
next
  case (pool_finish i s' cmd)
  let ?t = "s\<lparr>sy_workers := (sy_workers s)[i := WIdle], sy_world := processCommand e env cmd (sy_world s),
      sy_finished := sy_finished s @ [cmd]\<rparr>"
  have "worker_step e env s ?t"
    using pool_finish assms(2) by (intro worker_step.finish) (auto simp: same_pool_iff)
  moreover have "same_pool (cc_system d) ?t"
    using pool_finish assms(2) by (auto simp: same_pool_iff)
  ultimately show ?thesis by blast
next
  case (pool_exit_cancelled i s')
  have "worker_step e env s (s\<lparr>sy_workers := (sy_workers s)[i := WExited]\<rparr>)"
    using pool_exit_cancelled assms(2) by (intro worker_step.exit_cancelled) (auto simp: same_pool_iff)
  moreover have "same_pool (cc_system d) (s\<lparr>sy_workers := (sy_workers s)[i := WExited]\<rparr>)"
    using pool_exit_cancelled assms(2) by (auto simp: same_pool_iff)
  ultimately show ?thesis by blast
next
  case (pool_exit_closed i s' ch')
  have "worker_step e env s (s\<lparr>sy_workers := (sy_workers s)[i := WExited]\<rparr>)"
    using pool_exit_closed assms(2) by (intro worker_step.exit_closed) (auto simp: same_pool_iff)
  moreover have "same_pool (cc_system d) (s\<lparr>sy_workers := (sy_workers s)[i := WExited]\<rparr>)"
    using pool_exit_closed assms(2) by (auto simp: same_pool_iff)
  ultimately show ?thesis by blast
qed

lemma hand_over_same_pool:
  assumes "can_hand_over i s" and "same_pool s s'"
  shows "can_hand_over i s' \<and> same_pool (hand_over i cmd s) (hand_over i cmd s')"
  using assms by (auto simp: can_hand_over_def hand_over_def same_pool_iff)

lemma other_step_simulated:
  assumes "other_step e reload cleanup c d" and "same_pool (cc_system c) s"
  shows "same_pool (cc_system d) s \<or> (\<exists>t. system_step e env s t \<and> same_pool (cc_system d) t)"
  using assms(1)
proof (cases rule: other_step.cases)
  case (other_outer t)
  with outer_same_pool [OF other_outer(2) assms(2)] show ?thesis by (auto simp: system_step_def)
next
  case (other_hand_over i cmd)
  with hand_over_same_pool [OF other_hand_over(2) assms(2), of cmd] show ?thesis
    by (auto simp: system_step_def)
qed (use assms(2) in simp_all)

lemma concurrent_step_simulated:
  "concurrent_step e env reload cleanup c d \<Longrightarrow> same_pool (cc_system c) s \<Longrightarrow>
     same_pool (cc_system d) s \<or> (\<exists>t. system_step e env s t \<and> same_pool (cc_system d) t)"
  using pool_step_simulated [of e env c d s] other_step_simulated [of e reload cleanup c d s env]
  by (auto simp: concurrent_step_def system_step_def)

lemma concurrent_refines:
  "reach (is_start_concurrent cap n) (concurrent_step e env reload cleanup) c \<Longrightarrow>
     \<exists>s. reach (is_start cap n) (system_step e env) s \<and> same_pool (cc_system c) s"
proof (induction rule: reach.induct)
  case (reach_init c)
  then obtain w where "c = start_concurrent cap n w" by (auto simp: is_start_concurrent_def)
  then have "same_pool (cc_system c) (start_system cap n w)" by (simp add: start_concurrent_def)
  then show ?case using start_reach [of cap n e env w] by (intro exI conjI)
next
  case (reach_step c d)
  then obtain s where s: "reach (is_start cap n) (system_step e env) s" "same_pool (cc_system c) s" by blast
  from concurrent_step_simulated [OF reach_step.hyps(2) s(2)] show ?case
  proof
    assume "same_pool (cc_system d) s"
    with s(1) show ?thesis by (intro exI conjI)
  next
    assume "\<exists>t. system_step e env s t \<and> same_pool (cc_system d) t"
    then obtain t where t: "system_step e env s t" "same_pool (cc_system d) t" by (elim exE conjE)
    from reach.reach_step [OF s(1) t(1)] t(2) show ?thesis by (intro exI conjI)
  qed
qed

lemma same_pool_inv: "same_pool s s' \<Longrightarrow> queue_inv cap n s' = queue_inv cap n s"
  by (auto simp: same_pool_iff queue_inv_def)

lemma concurrent_queue_inv:
  "reach (is_start_concurrent cap n) (concurrent_step e env reload cleanup) c \<Longrightarrow>
     queue_inv cap n (cc_system c)"
  by (drule concurrent_refines) (auto simp: same_pool_inv dest!: queue.reach_inv)

section \<open>Progress\<close>

lemma concurrent_points:
  "reach (is_start_concurrent cap n) (concurrent_step e env reload cleanup) c \<Longrightarrow> length (cc_points c) = n"
proof (induction rule: reach.induct)
  case (reach_init c)
  then show ?case by (auto simp: is_start_concurrent_def start_concurrent_def)
next
  case (reach_step c d)
  then show ?case
    by (auto simp: concurrent_step_def elim!: pool_stepE other_stepE)
qed

text \<open>A step of a worker makes the work that is left, or else the rank of its point, smaller.\<close>

definition pool_measure :: "('r, 'c, 'n, 'b, 'm) engine \<Rightarrow> ('r, 'c, 'n, 'b, 'm) concurrent \<Rightarrow>
    nat \<times> (nat \<times> nat \<times> nat) list" where
  "pool_measure e c =
     (work_left (cc_system c), map (point_rank (MaxAttempts (eng_retryPolicy e))) (cc_points c))"

lemma listrel1_update:
  "i < length xs \<Longrightarrow> (y, xs ! i) \<in> r \<Longrightarrow> (xs[i := y], xs) \<in> listrel1 r"
  by (auto simp: listrel1_iff_update intro!: exI [of _ "xs ! i"] exI [of _ i])

lemma pool_step_decreases:
  assumes "pool_step e env c d"
  shows "(pool_measure e d, pool_measure e c) \<in> less_than <*lex*> listrel1 rank_less"
  using assms
proof (cases rule: pool_step.cases)
  case (pool_take i s ch' cmd)
  then show ?thesis
    using worker_step_decreases [OF worker_step.take [OF pool_take(2-4), of e env]]
    by (simp add: pool_measure_def)
next
  case (pool_work i s cmd pt pt' w')
  have "work_left (cc_system d) = work_left (cc_system c)" using pool_work by (simp add: work_left_def)
  moreover have "(map (point_rank (MaxAttempts (eng_retryPolicy e))) (cc_points d),
      map (point_rank (MaxAttempts (eng_retryPolicy e))) (cc_points c)) \<in> listrel1 rank_less"
    using pool_work point_step_decreases [OF pool_work(6,8)]
    by (simp add: map_update listrel1_update)
  ultimately show ?thesis by (simp add: pool_measure_def)
next
  case (pool_finish i s cmd)
  have "work_left (cc_system d) < work_left s"
    using worker_step_decreases [OF worker_step.finish [OF pool_finish(2,3), of e env]] pool_finish
    by (simp add: work_left_def)
  then show ?thesis using pool_finish by (simp add: pool_measure_def)
next
  case (pool_exit_cancelled i s)
  then show ?thesis
    using worker_step_decreases [OF worker_step.exit_cancelled [OF pool_exit_cancelled(2-4), of e env]]
    by (simp add: pool_measure_def)
next
  case (pool_exit_closed i s ch')
  then show ?thesis
    using worker_step_decreases [OF worker_step.exit_closed [OF pool_exit_closed(2-4), of e env]]
    by (simp add: pool_measure_def)
qed

lemma wf_pool_measure: "wf (less_than <*lex*> listrel1 rank_less)"
  by (intro wf_lex_prod) (simp_all add: wf_rank_less wf_listrel1_iff)

lemma pool_step_wf: "wfP (\<lambda>d c. pool_step e env c d)"
  unfolding wfp_def
  by (rule wf_subset [OF wf_inv_image [OF wf_pool_measure, of "pool_measure e"]])
    (auto simp: inv_image_def pool_step_decreases)

text \<open>When no worker can move, none is busy, and an idle one has found the queue empty.\<close>

lemma stuck_workers:
  assumes "\<nexists>d. pool_step e env c d" and "length (cc_points c) = length (sy_workers (cc_system c))"
    and "i < length (sy_workers (cc_system c))"
  shows "sy_workers (cc_system c) ! i = WExited \<or>
    sy_workers (cc_system c) ! i = WIdle \<and> ch_buf (sy_queue (cc_system c)) = []"
proof (cases "sy_workers (cc_system c) ! i")
  case (WBusy cmd)
  obtain pt' w' where "point_step e (env_of env (cc_system c)) (cc_points c ! i) (sy_world (cc_system c)) = (pt', w')"
    by (metis surj_pair)
  then have "\<exists>d. pool_step e env c d"
    using assms(2,3) WBusy pool_step.pool_work [of i "cc_system c" cmd c _ e env pt' w']
      pool_step.pool_finish [of i "cc_system c" cmd c e env]
    by (cases "cc_points c ! i = Finished") fastforce+
  with assms(1) show ?thesis by blast
next
  case WIdle
  have "ch_buf (sy_queue (cc_system c)) = []"
  proof (rule ccontr)
    assume "ch_buf (sy_queue (cc_system c)) \<noteq> []"
    then obtain cmd xs where "ch_buf (sy_queue (cc_system c)) = cmd # xs" by (cases "ch_buf (sy_queue (cc_system c))") auto
    then have "try_recv (sy_queue (cc_system c)) = ((sy_queue (cc_system c))\<lparr>ch_buf := xs\<rparr>, Received cmd)"
      by (simp add: try_recv_def)
    with pool_step.pool_take [OF assms(3) WIdle this refl] assms(1) show False by blast
  qed
  with WIdle show ?thesis by simp
qed simp

lemma busy_none: "(\<And>w. w \<in> set ws \<Longrightarrow> w = WExited \<or> w = WIdle) \<Longrightarrow> busy ws = []"
  by (induction ws rule: busy.induct) auto

lemma stuck_finished:
  assumes "queue_inv cap n (cc_system c)" and "length (cc_points c) = n" and "0 < n"
    and "\<not> sy_cancelled (cc_system c)" and "\<nexists>d. pool_step e env c d"
  shows "ch_buf (sy_queue (cc_system c)) = [] \<and>
    mset (sy_finished (cc_system c)) = mset (sy_accepted (cc_system c))"
proof -
  let ?s = "cc_system c"
  have l: "length (cc_points c) = length (sy_workers ?s)" "length (sy_workers ?s) = n"
    using assms(1,2) by (auto simp: queue_inv_def)
  have w: "w = WExited \<or> w = WIdle \<and> ch_buf (sy_queue ?s) = []" if "w \<in> set (sy_workers ?s)" for w
    using that stuck_workers [OF assms(5) l(1)] by (auto simp: in_set_conv_nth)
  have e: "ch_buf (sy_queue ?s) = []"
    using w [OF hd_in_set [of "sy_workers ?s"]] hd_in_set [of "sy_workers ?s"] l(2) assms(1,3,4)
    by (fastforce simp: queue_inv_def)
  moreover have "busy (sy_workers ?s) = []" using w by (intro busy_none) auto
  ultimately show ?thesis using assms(1) by (auto simp: queue_inv_def)
qed

text \<open>The runs of the workers keep what \<open>stuck_finished\<close> needs.\<close>

lemma pool_run_keeps:
  assumes "(pool_step e env)\<^sup>*\<^sup>* c d"
    and "reach I (concurrent_step e env reload cleanup) c"
  shows "reach I (concurrent_step e env reload cleanup) d \<and>
    sy_cancelled (cc_system d) = sy_cancelled (cc_system c) \<and> sy_accepted (cc_system d) = sy_accepted (cc_system c)"
  using assms
proof (induction rule: rtranclp_induct)
  case (step d f)
  have "concurrent_step e env reload cleanup d f" using step.hyps(2) by (simp add: concurrent_step_def)
  then have "reach I (concurrent_step e env reload cleanup) f"
    by (rule reach.reach_step [OF conjunct1 [OF step.IH [OF step.prems]]])
  moreover have "sy_cancelled (cc_system f) = sy_cancelled (cc_system d)"
    "sy_accepted (cc_system f) = sy_accepted (cc_system d)"
    using step.hyps(2) by (auto elim!: pool_stepE)
  ultimately show ?case using step.IH [OF step.prems] by simp
qed simp

section \<open>Running one command while the others rest\<close>

lemma env_of_simps [simp]:
  "env_of env (s\<lparr>sy_world := w\<rparr>) = env_of env s"
  "env_of env (s\<lparr>sy_workers := ws\<rparr>) = env_of env s"
  by (simp_all add: env_of_def)

lemma run_command:
  "reach I (concurrent_step e env reload cleanup) c \<Longrightarrow> i < length (sy_workers (cc_system c)) \<Longrightarrow>
     sy_workers (cc_system c) ! i = WBusy cmd \<Longrightarrow> i < length (cc_points c) \<Longrightarrow>
     \<exists>d. reach I (concurrent_step e env reload cleanup) d \<and>
       cc_system d = (cc_system c)\<lparr>sy_world :=
         resume e (env_of env (cc_system c)) (cc_points c ! i) (sy_world (cc_system c))\<rparr> \<and>
       cc_points d = (cc_points c)[i := Finished]"
proof (induction "point_rank (MaxAttempts (eng_retryPolicy e)) (cc_points c ! i)" arbitrary: c
    rule: wf_induct_rule [OF wf_rank_less])
  case 1
  show ?case
  proof (cases "cc_points c ! i = Finished")
    case True
    have "(cc_points c)[i := Finished] = cc_points c" using True by (metis list_update_id)
    then show ?thesis using 1(2) True by (intro exI [of _ c]) simp
  next
    case False
    obtain pt' w' where st: "point_step e (env_of env (cc_system c)) (cc_points c ! i) (sy_world (cc_system c)) = (pt', w')"
      by (metis surj_pair)
    obtain d where d: "pool_step e env c d" "cc_system d = (cc_system c)\<lparr>sy_world := w'\<rparr>"
      "cc_points d = (cc_points c)[i := pt']"
    proof
      show "pool_step e env c (c\<lparr>cc_system := (cc_system c)\<lparr>sy_world := w'\<rparr>, cc_points := (cc_points c)[i := pt'],
          cc_stored := cc_stored c @ map (Pair cmd) (stored_at e (env_of env (cc_system c)) (cc_points c ! i)
            (sy_world (cc_system c))),
          cc_recorded := cc_recorded c @ recorded_at (env_of env (cc_system c)) (cc_points c ! i)
            (sy_world (cc_system c))\<rparr>)"
        by (rule pool_step.pool_work [OF 1(3,4,5) refl False refl st])
    qed simp_all
    have r: "reach I (concurrent_step e env reload cleanup) d"
      using reach.reach_step [OF 1(2)] d(1) by (simp add: concurrent_step_def)
    have "(point_rank (MaxAttempts (eng_retryPolicy e)) (cc_points d ! i),
        point_rank (MaxAttempts (eng_retryPolicy e)) (cc_points c ! i)) \<in> rank_less"
      using point_step_decreases [OF False st] d(3) 1(5) by simp
    from 1(1) [OF this r] obtain f where f: "reach I (concurrent_step e env reload cleanup) f"
      "cc_system f = (cc_system d)\<lparr>sy_world :=
         resume e (env_of env (cc_system d)) (cc_points d ! i) (sy_world (cc_system d))\<rparr>"
      "cc_points f = (cc_points d)[i := Finished]"
      using 1(3-5) d by auto
    show ?thesis using f d 1(5) resume_step [OF st] by (intro exI [of _ f]) simp
  qed
qed

lemma finish_command:
  assumes "reach I (concurrent_step e env reload cleanup) c" and "i < length (sy_workers (cc_system c))"
    and "sy_workers (cc_system c) ! i = WBusy cmd" and "i < length (cc_points c)" and "cc_points c ! i = Lookup cmd"
  shows "\<exists>d. reach I (concurrent_step e env reload cleanup) d \<and>
    cc_system d = (cc_system c)\<lparr>sy_workers := (sy_workers (cc_system c))[i := WIdle],
      sy_world := processCommand e (env_of env (cc_system c)) cmd (sy_world (cc_system c)),
      sy_finished := sy_finished (cc_system c) @ [cmd]\<rparr> \<and>
    cc_points d = (cc_points c)[i := Finished]"
proof -
  obtain f where f: "reach I (concurrent_step e env reload cleanup) f"
    "cc_system f = (cc_system c)\<lparr>sy_world := processCommand e (env_of env (cc_system c)) cmd (sy_world (cc_system c))\<rparr>"
    "cc_points f = (cc_points c)[i := Finished]"
    using run_command [OF assms(1-4)] assms(5) by auto
  have i: "i < length (sy_workers (cc_system f))" "sy_workers (cc_system f) ! i = WBusy cmd"
    "i < length (cc_points f)" "cc_points f ! i = Finished" using f assms by simp_all
  let ?d = "f\<lparr>cc_system := (cc_system f)\<lparr>sy_workers := (sy_workers (cc_system f))[i := WIdle],
      sy_finished := sy_finished (cc_system f) @ [cmd]\<rparr>\<rparr>"
  have "pool_step e env f ?d" by (rule pool_step.pool_finish [OF i refl])
  then have "reach I (concurrent_step e env reload cleanup) ?d"
    using reach.reach_step [OF f(1)] by (simp add: concurrent_step_def)
  with f(2,3) show ?thesis by (intro exI [of _ ?d]) simp
qed

lemma reach_pool: "reach I (concurrent_step e env reload cleanup) c \<Longrightarrow> pool_step e env c d \<Longrightarrow>
    reach I (concurrent_step e env reload cleanup) d"
  by (erule reach.reach_step) (simp add: concurrent_step_def)

lemma reach_outer: "reach I (concurrent_step e env reload cleanup) c \<Longrightarrow> outer_step e (cc_system c) s \<Longrightarrow>
    reach I (concurrent_step e env reload cleanup) (c\<lparr>cc_system := s\<rparr>)"
  by (erule reach.reach_step) (simp add: concurrent_step_def other_outer)

lemma reach_accept:
  assumes "reach I (concurrent_step e env reload cleanup) c" and "\<not> sy_panicked (cc_system c)"
    and "\<not> ch_closed (sy_queue (cc_system c))" and "length (ch_buf (sy_queue (cc_system c))) < ch_cap (sy_queue (cc_system c))"
  shows "reach I (concurrent_step e env reload cleanup) (c\<lparr>cc_system := (cc_system c)
    \<lparr>sy_queue := (sy_queue (cc_system c))\<lparr>ch_buf := ch_buf (sy_queue (cc_system c)) @ [cmd]\<rparr>,
     sy_accepted := sy_accepted (cc_system c) @ [cmd]\<rparr>\<rparr>)"
proof -
  have "dispatch_to e cmd (cc_system c) = (cc_system c)
    \<lparr>sy_queue := (sy_queue (cc_system c))\<lparr>ch_buf := ch_buf (sy_queue (cc_system c)) @ [cmd]\<rparr>,
     sy_accepted := sy_accepted (cc_system c) @ [cmd]\<rparr>"
    using assms(3,4) by (simp add: dispatch_to_def DispatchCommand_open Let_def)
  with reach_outer [OF assms(1) outer_step.dispatch [OF assms(2), of e cmd]] show ?thesis by simp
qed

lemma reach_take:
  assumes "reach I (concurrent_step e env reload cleanup) c" and "i < length (sy_workers (cc_system c))"
    and "sy_workers (cc_system c) ! i = WIdle" and "ch_buf (sy_queue (cc_system c)) = cmd # xs"
  shows "reach I (concurrent_step e env reload cleanup) (c\<lparr>cc_system := (cc_system c)
    \<lparr>sy_queue := (sy_queue (cc_system c))\<lparr>ch_buf := xs\<rparr>, sy_workers := (sy_workers (cc_system c))[i := WBusy cmd],
     sy_taken := sy_taken (cc_system c) @ [cmd]\<rparr>, cc_points := (cc_points c)[i := Lookup cmd]\<rparr>)"
proof -
  have "try_recv (sy_queue (cc_system c)) = ((sy_queue (cc_system c))\<lparr>ch_buf := xs\<rparr>, Received cmd)"
    using assms(4) by (simp add: try_recv_def)
  from reach_pool [OF assms(1) pool_step.pool_take [OF assms(2,3) this refl]] show ?thesis .
qed

lemma pool_run_ends: "\<exists>d. (pool_step e env)\<^sup>*\<^sup>* c d \<and> (\<nexists>f. pool_step e env d f)"
proof (induction c rule: wfp_induct_rule [OF pool_step_wf [of e env]])
  case (1 c)
  show ?case
  proof (cases "\<exists>f. pool_step e env c f")
    case True
    then obtain f where f: "pool_step e env c f" by blast
    from 1 [OF this] obtain d where "(pool_step e env)\<^sup>*\<^sup>* f d" "\<nexists>g. pool_step e env d g" by blast
    with converse_rtranclp_into_rtranclp [of "pool_step e env", OF f] show ?thesis by blast
  next
    case False
    then show ?thesis by (intro exI [of _ c]) simp
  qed
qed

lemma reach_mono: "reach I step s \<Longrightarrow> (\<And>s. I s \<Longrightarrow> J s) \<Longrightarrow> reach J step s"
  by (induction rule: reach.induct) (auto intro: reach.intros)

lemma reach_start_concurrent [simp]:
  "reach (\<lambda>c. c = start_concurrent cap n w) (concurrent_step e env reload cleanup) (start_concurrent cap n w)"
  by (rule reach.reach_init) simp

lemma reach_is_start: "reach (\<lambda>c. c = start_concurrent cap n w) (concurrent_step e env reload cleanup) c \<Longrightarrow>
    reach (is_start_concurrent cap n) (concurrent_step e env reload cleanup) c"
  by (erule reach_mono) (auto simp: is_start_concurrent_def)

lemma start_concurrent_simps [simp]:
  "cc_system (start_concurrent cap n w) = start_system cap n w"
  "cc_points (start_concurrent cap n w) = replicate n Finished"
  by (simp_all add: start_concurrent_def)

lemma start_system_simps [simp]:
  "ch_buf (sy_queue (start_system cap n w)) = []" "ch_cap (sy_queue (start_system cap n w)) = cap"
  "\<not> ch_closed (sy_queue (start_system cap n w))" "sy_workers (start_system cap n w) = replicate n WIdle"
  "\<not> sy_cancelled (start_system cap n w)" "sy_world (start_system cap n w) = w"
  "sy_accepted (start_system cap n w) = []" "sy_taken (start_system cap n w) = []"
  "sy_finished (start_system cap n w) = []" "\<not> sy_panicked (start_system cap n w)"
  by (simp_all add: start_system_def make_chan_def)

section \<open>A concrete pool\<close>

text \<open>Two workers that rest, one command accepted.\<close>

definition demo_accepted :: "(unit, device_telemetry list, bytes result list, unit, nat) concurrent" where
  "demo_accepted = (let c = start_concurrent 5 2 (demo_world [])
     in c\<lparr>cc_system := (cc_system c)\<lparr>sy_queue := (make_chan 5)\<lparr>ch_buf := [sample_command]\<rparr>,
          sy_accepted := [sample_command]\<rparr>\<rparr>)"

lemma reach_demo_accepted:
  "reach (\<lambda>c. c = start_concurrent 5 2 (demo_world [])) (concurrent_step (demo_engine 3) calm reload cleanup) demo_accepted"
  using reach_accept [OF reach_start_concurrent, of 5 2 "demo_world []" "demo_engine 3" calm reload cleanup sample_command]
  by (simp add: demo_accepted_def start_system_def make_chan_def)

lemmas demo_reachable = reach_is_start [OF reach_demo_accepted [of "\<lambda>_ _. False" "\<lambda>_ _. False"]]

section \<open>Properties\<close>

text \<open>C3: exactly once.  However dispatches, the steps of the commands in progress, cancellation,
  closing, reloads, fetches and cleanups interleave, the queue never holds more than its capacity,
  commands are taken in the order in which they were accepted, and every accepted command is
  exactly one of queued, in progress and finished.\<close>

theorem commands_exactly_once:
  assumes "reach (is_start_concurrent cap n) (concurrent_step e env reload cleanup) c"
  shows "length (ch_buf (sy_queue (cc_system c))) \<le> cap \<and>
    sy_accepted (cc_system c) = sy_taken (cc_system c) @ ch_buf (sy_queue (cc_system c)) \<and>
    mset (sy_accepted (cc_system c)) = mset (ch_buf (sy_queue (cc_system c))) +
      mset (busy (sy_workers (cc_system c))) + mset (sy_finished (cc_system c)) \<and>
    length (sy_workers (cc_system c)) = n"
  using concurrent_queue_inv [OF assms] by (auto simp: queue_inv_def chan_ok_def)

lemma commands_exactly_once_witness:
  "mset (sy_accepted (cc_system demo_accepted)) = mset (ch_buf (sy_queue (cc_system demo_accepted))) +
     mset (busy (sy_workers (cc_system demo_accepted))) + mset (sy_finished (cc_system demo_accepted)) \<and>
   sy_accepted (cc_system demo_accepted) = [sample_command]"
  using commands_exactly_once [OF demo_reachable]
  by (simp add: demo_accepted_def)

text \<open>C15: accepted commands are processed.  From no state can the workers run forever, and
  every run of theirs that has come to its end, with at least one worker and no cancellation, has
  emptied the queue and finished every command that was accepted, whatever the devices, the
  cloud and the buffer answer.\<close>

theorem accepted_commands_finish:
  assumes "reach (is_start_concurrent cap n) (concurrent_step e env reload cleanup) c"
    and "0 < n" and "\<not> sy_cancelled (cc_system c)"
  shows "wfP (\<lambda>d c. pool_step e env c d) \<and>
    (\<exists>d. (pool_step e env)\<^sup>*\<^sup>* c d \<and> mset (sy_finished (cc_system d)) = mset (sy_accepted (cc_system c))) \<and>
    (\<forall>d. (pool_step e env)\<^sup>*\<^sup>* c d \<and> (\<nexists>f. pool_step e env d f) \<longrightarrow>
       ch_buf (sy_queue (cc_system d)) = [] \<and>
       mset (sy_finished (cc_system d)) = mset (sy_accepted (cc_system c)))"
proof -
  have ended: "ch_buf (sy_queue (cc_system d)) = [] \<and> mset (sy_finished (cc_system d)) = mset (sy_accepted (cc_system c))"
    if run: "(pool_step e env)\<^sup>*\<^sup>* c d" and stuck: "\<nexists>f. pool_step e env d f" for d
  proof -
    from pool_run_keeps [OF run assms(1)] assms(3) have d:
      "reach (is_start_concurrent cap n) (concurrent_step e env reload cleanup) d"
      "\<not> sy_cancelled (cc_system d)" "sy_accepted (cc_system d) = sy_accepted (cc_system c)" by auto
    from stuck_finished [OF concurrent_queue_inv [OF d(1)] concurrent_points [OF d(1)] assms(2) d(2) stuck] d(3)
    show ?thesis by simp
  qed
  with pool_run_ends [of e env c] show ?thesis by (intro conjI pool_step_wf) blast+
qed

lemma accepted_commands_finish_witness:
  "\<exists>d. (pool_step (demo_engine 3) calm)\<^sup>*\<^sup>* demo_accepted d \<and>
     mset (sy_finished (cc_system d)) = {#sample_command#}"
  using accepted_commands_finish [OF demo_reachable]
  by (simp add: demo_accepted_def)

text \<open>C26: the order of the queue is not the order of effects.  With two workers or more there
  is a run in which two commands are accepted one after the other, for the same device or not, and
  the second is carried out completely before the first has looked its device up.\<close>

theorem commands_can_overtake:
  assumes "1 < cap" and "1 < n"
  shows "\<exists>c. reach (is_start_concurrent cap n) (concurrent_step e env reload cleanup) c \<and>
    sy_accepted (cc_system c) = [cmd1, cmd2] \<and> sy_finished (cc_system c) = [cmd2, cmd1] \<and>
    sy_world (cc_system c) =
      (let undisturbed = env\<lparr>env_interrupt := \<lambda>_. False\<rparr>
       in processCommand e undisturbed cmd1 (processCommand e undisturbed cmd2 w))"
proof -
  let ?R = "reach (\<lambda>c. c = start_concurrent cap n w) (concurrent_step e env reload cleanup)"
  let ?u = "env\<lparr>env_interrupt := \<lambda>_. False\<rparr>"
  let ?c0 = "start_concurrent cap n w"
  let ?c1 = "?c0\<lparr>cc_system := (cc_system ?c0)\<lparr>sy_queue := (sy_queue (cc_system ?c0))\<lparr>ch_buf := [cmd1]\<rparr>,
      sy_accepted := [cmd1]\<rparr>\<rparr>"
  let ?c2 = "?c1\<lparr>cc_system := (cc_system ?c1)\<lparr>sy_queue := (sy_queue (cc_system ?c1))\<lparr>ch_buf := [cmd1, cmd2]\<rparr>,
      sy_accepted := [cmd1, cmd2]\<rparr>\<rparr>"
  obtain m where n: "n = Suc (Suc m)" using assms(2) by (auto simp: less_iff_Suc_add)
  have r1: "?R ?c1"
    using reach_accept [OF reach_start_concurrent [of cap n w e env reload cleanup], of cmd1] assms(1) by simp
  have r2: "?R ?c2" using reach_accept [OF r1, of cmd2] assms(1) by simp
  obtain c3 where c3: "?R c3" "ch_buf (sy_queue (cc_system c3)) = [cmd2]"
      "sy_workers (cc_system c3) = WBusy cmd1 # WIdle # replicate m WIdle"
      "cc_points c3 = Lookup cmd1 # Finished # replicate m Finished" "sy_world (cc_system c3) = w"
      "sy_accepted (cc_system c3) = [cmd1, cmd2]" "sy_finished (cc_system c3) = []" "\<not> sy_cancelled (cc_system c3)"
    by (rule that, rule reach_take [OF r2, of 0 cmd1 "[cmd2]"]) (simp_all add: n)
  obtain c4 where c4: "?R c4" "sy_workers (cc_system c4) = WBusy cmd1 # WBusy cmd2 # replicate m WIdle"
      "cc_points c4 = Lookup cmd1 # Lookup cmd2 # replicate m Finished" "sy_world (cc_system c4) = w"
      "sy_accepted (cc_system c4) = [cmd1, cmd2]" "sy_finished (cc_system c4) = []" "\<not> sy_cancelled (cc_system c4)"
    by (rule that, rule reach_take [OF c3(1), of 1 cmd2 "[]"]) (use c3 in simp_all)
  have env: "env_of env (cc_system c4) = ?u" using c4(7) by (simp add: env_of_def)
  have "1 < length (sy_workers (cc_system c4))" "sy_workers (cc_system c4) ! 1 = WBusy cmd2"
    "1 < length (cc_points c4)" "cc_points c4 ! 1 = Lookup cmd2" using c4(2,3) by simp_all
  from finish_command [OF c4(1) this] obtain c5 where c5: "?R c5"
      "cc_system c5 = (cc_system c4)\<lparr>sy_workers := WBusy cmd1 # WIdle # replicate m WIdle,
        sy_world := processCommand e ?u cmd2 w, sy_finished := [cmd2]\<rparr>"
      "cc_points c5 = Lookup cmd1 # Finished # replicate m Finished"
    unfolding c4(2-4,6) env by auto
  have env5: "env_of env (cc_system c5) = ?u" using c4(7) c5(2) by (simp add: env_of_def)
  have "0 < length (sy_workers (cc_system c5))" "sy_workers (cc_system c5) ! 0 = WBusy cmd1"
    "0 < length (cc_points c5)" "cc_points c5 ! 0 = Lookup cmd1" using c5(2,3) by simp_all
  from finish_command [OF c5(1) this] obtain c6 where c6: "?R c6"
      "sy_world (cc_system c6) = processCommand e ?u cmd1 (sy_world (cc_system c5))"
      "sy_finished (cc_system c6) = sy_finished (cc_system c5) @ [cmd1]"
      "sy_accepted (cc_system c6) = sy_accepted (cc_system c5)"
    unfolding env5 by auto
  show ?thesis using reach_is_start [OF c6(1)] c6(2-4) c5(2) c4(5) by (intro exI [of _ c6]) (simp add: Let_def)
qed

lemma commands_can_overtake_witness:
  "\<exists>c. reach (is_start_concurrent 5 2) (concurrent_step (demo_engine 3) calm (\<lambda>_ _. False) (\<lambda>_ _. False)) c \<and>
    sy_accepted (cc_system c) = [sample_command, sample_command\<lparr>cmd_CommandName := CmdTurnOff\<rparr>] \<and>
    sy_finished (cc_system c) = [sample_command\<lparr>cmd_CommandName := CmdTurnOff\<rparr>, sample_command]"
  using commands_can_overtake [of 5 2 "demo_engine 3" calm "\<lambda>_ _. False" "\<lambda>_ _. False" sample_command
      "sample_command\<lparr>cmd_CommandName := CmdTurnOff\<rparr>" "demo_world []"]
  by auto

end
