(* ===== verification/RouterConcurrent.thy ===== *)
theory RouterConcurrent
  imports RouterInterleaving
begin

text \<open>
  What the interleaved commands do to the registry and the buffer.  The locale joins the
  interfaces of the two with what the other goroutines may do to them; its lemmas are the
  invariants of every interleaving.
\<close>

section \<open>Effects of a step\<close>

fun job_of :: "point \<Rightarrow> job option" where
  "job_of (Sending j payload ph attempt backoff lastErr) = Some j"
| "job_of (Waiting j payload ph attempt backoff err) = Some j"
| "job_of (Recording j telemetry ok) = Some j"
| "job_of (Metering j telemetry ok latency) = Some j"
| "job_of _ = None"

fun telemetry_of :: "point \<Rightarrow> device_telemetry option" where
  "telemetry_of (Buffering t) = Some t"
| "telemetry_of (Publishing t attempt backoff) = Some t"
| "telemetry_of (PublishWaiting t attempt backoff) = Some t"
| "telemetry_of _ = None"

text \<open>The points after the one at which a command may store its item.\<close>

fun past_buffering :: "point \<Rightarrow> bool" where
  "past_buffering (Publishing t attempt backoff) = True"
| "past_buffering (PublishWaiting t attempt backoff) = True"
| "past_buffering Finished = True"
| "past_buffering _ = False"

lemma after_exchange_point [simp]:
  "job_of (after_exchange e j ph resp err) = Some j"
  "telemetry_of (after_exchange e j ph resp err) = None"
  "\<not> past_buffering (after_exchange e j ph resp err)"
  "after_exchange e j ph resp err \<noteq> Lookup cmd"
proof -
  have n: "job_of (next_frame e j ps tel) = Some j" "telemetry_of (next_frame e j ps tel) = None"
    "\<not> past_buffering (next_frame e j ps tel)" "next_frame e j ps tel \<noteq> Lookup cmd" for ps tel
    by (cases ps; simp)+
  show "job_of (after_exchange e j ph resp err) = Some j"
    "telemetry_of (after_exchange e j ph resp err) = None"
    "\<not> past_buffering (after_exchange e j ph resp err)"
    "after_exchange e j ph resp err \<noteq> Lookup cmd"
    by (simp_all add: after_exchange_def n split: sum.split progress.split option.split)
qed

text \<open>Only \<open>Recording\<close> writes to the registry, only \<open>Buffering\<close> to the buffer.\<close>

definition recorded_device :: "env \<Rightarrow> job \<Rightarrow> bool \<Rightarrow> ('r, 'c, 'n, 'b, 'm) world \<Rightarrow> device" where
  "recorded_device env j ok w = (jb_dev j)\<lparr>dev_Status := (if ok then StatusOnline else StatusOffline),
     dev_LastSeen := env_clock env (Suc (w_now w))\<rparr>"

lemma point_step_reg:
  "point_step e env pt w = (pt', w') \<Longrightarrow> w_reg w' =
     (case pt of Recording j telemetry ok \<Rightarrow>
        fst (op_Update (eng_registry e) (w_reg w) (recorded_device env j ok w)) | _ \<Rightarrow> w_reg w)"
  by (cases pt)
    (auto simp: time_now_def Let_def send_once_def backoff_wait_def frame_simps recorded_device_def
      split: sum.splits prod.splits option.splits if_splits bool.splits)

lemma point_step_buf:
  "point_step e env pt w = (pt', w') \<Longrightarrow> w_buf w' =
     (case pt of Buffering t \<Rightarrow> w_buf (buffer_telemetry e env t w) | _ \<Rightarrow> w_buf w)"
  by (cases pt)
    (auto simp: time_now_def Let_def send_once_def backoff_wait_def
      split: sum.splits prod.splits option.splits if_splits bool.splits)

lemma point_step_cloud:
  "point_step e env pt w = (pt', w') \<Longrightarrow>
     w_cloud w' = w_cloud w \<or> (\<exists>t. w_cloud w' = fst (op_SendTelemetry (eng_cloud e) (w_cloud w) t))"
  by (cases pt)
    (auto simp: time_now_def Let_def send_once_def backoff_wait_def buffer_telemetry_def
      split: sum.splits prod.splits option.splits if_splits bool.splits dest: arg_cong [where f = fst, THEN sym])

lemma point_step_past:
  "point_step e env pt w = (pt', w') \<Longrightarrow> past_buffering pt \<Longrightarrow> past_buffering pt'"
  by (cases pt) (auto split: prod.splits option.splits if_splits bool.splits)

lemma stored_past:
  "point_step e env pt w = (pt', w') \<Longrightarrow> stored_at e env pt w \<noteq> [] \<Longrightarrow> \<not> past_buffering pt \<and> past_buffering pt'"
  by (cases pt) auto

lemma outer_step_world:
  "outer_step e s t \<Longrightarrow> w_reg (sy_world t) = w_reg (sy_world s) \<and> w_buf (sy_world t) = w_buf (sy_world s) \<and>
     w_cloud (sy_world t) = w_cloud (sy_world s) \<and> sy_workers t = sy_workers s \<and> sy_finished t = sy_finished s"
  by (erule outer_stepE)
    (auto simp: dispatch_to_def DispatchCommand_def DropNewestPolicy_def Let_def
      split: outcome.splits option.splits prod.splits)

section \<open>Counting over workers and points\<close>

lemma concat_map2_update:
  "i < length xs \<Longrightarrow> length xs = length ys \<Longrightarrow>
     mset (concat (map2 g (xs[i := x]) (ys[i := y]))) + mset (g (xs ! i) (ys ! i)) =
     mset (concat (map2 g xs ys)) + mset (g x y)"
proof (induction xs ys arbitrary: i rule: list_induct2')
  case (4 a xs b ys)
  show ?case
  proof (cases i)
    case (Suc k)
    with 4 have "mset (concat (map2 g (xs[k := x]) (ys[k := y]))) + mset (g (xs ! k) (ys ! k)) =
        mset (concat (map2 g xs ys)) + mset (g x y)" by simp
    with Suc show ?thesis by simp
  qed (simp add: ac_simps)
qed simp_all

text \<open>The commands under way that are past the point where they store.\<close>

fun past_command :: "worker \<Rightarrow> point \<Rightarrow> cloud_command list" where
  "past_command (WBusy cmd) pt = (if past_buffering pt then [cmd] else [])"
| "past_command _ pt = []"

definition past_commands :: "('r, 'c, 'n, 'b, 'm) concurrent \<Rightarrow> cloud_command list" where
  "past_commands c = concat (map2 past_command (sy_workers (cc_system c)) (cc_points c))"

lemma past_command_busy: "mset (concat (map2 past_command ws pts)) \<subseteq># mset (busy ws)"
proof (induction ws pts rule: list_induct2')
  case (4 w ws pt pts)
  have "mset (past_command w pt) \<subseteq># mset (busy [w])" by (cases w) simp_all
  from subset_mset.add_mono [OF this 4] show ?case
    by (cases w) simp_all
qed simp_all

section \<open>The command of a point\<close>

definition at_command :: "cloud_command \<Rightarrow> point \<Rightarrow> bool" where
  "at_command cmd pt \<longleftrightarrow> (\<forall>c. pt = Lookup c \<longrightarrow> c = cmd) \<and>
     (\<forall>j. job_of pt = Some j \<longrightarrow> jb_cmd j = cmd \<and> dev_ID (jb_dev j) = cmd_DeviceID cmd) \<and>
     (\<forall>t. telemetry_of pt = Some t \<longrightarrow>
        tel_CorrelationID t = cmd_CorrelationID cmd \<and> tel_DeviceID t = cmd_DeviceID cmd)"

lemma at_command_step:
  assumes "at_command cmd pt" and "point_step e env pt w = (pt', w')"
    and "\<And>did d. op_GetDevice (eng_registry e) (w_reg w) did = Inr d \<Longrightarrow> dev_ID d = did"
  shows "at_command cmd pt'"
proof (cases pt)
  case (Lookup c)
  with assms show ?thesis
    by (auto simp: at_command_def time_now_def split: sum.splits)
next
  case (Sending j p ph a b le)
  with assms(1,2) show ?thesis
    by (auto simp: at_command_def split: prod.splits sum.splits if_splits)
next
  case (Waiting j p ph a b err)
  with assms(1,2) show ?thesis by (auto simp: at_command_def split: prod.splits bool.splits)
next
  case (Recording j tel ok)
  with assms(1,2) show ?thesis by (auto simp: at_command_def time_now_def)
next
  case (Metering j tel ok lat)
  with assms(1,2) show ?thesis by (auto simp: at_command_def time_now_def Let_def split: if_splits)
next
  case (Buffering t)
  with assms(1,2) show ?thesis by (auto simp: at_command_def)
next
  case (Publishing t a b)
  with assms(1,2) show ?thesis by (auto simp: at_command_def split: prod.splits option.splits if_splits)
next
  case (PublishWaiting t a b)
  with assms(1,2) show ?thesis by (auto simp: at_command_def split: prod.splits bool.splits)
next
  case Finished
  with assms(1,2) show ?thesis by simp
qed

text \<open>An item that a command may have stored.\<close>

definition item_of :: "cloud_command \<Rightarrow> buffered_item \<Rightarrow> bool" where
  "item_of cmd i \<longleftrightarrow> (\<exists>now t. i = telemetry_item now t \<and>
     tel_CorrelationID t = cmd_CorrelationID cmd \<and> tel_DeviceID t = cmd_DeviceID cmd)"

lemma stored_item_of: "at_command cmd pt \<Longrightarrow> i \<in> set (stored_at e env pt w) \<Longrightarrow> item_of cmd i"
  by (cases pt) (auto simp: at_command_def item_of_def split: option.splits if_splits)

section \<open>The registry from its history\<close>

text \<open>The devices of \<open>v\<close>, each with the outcome recorded for it last.\<close>

definition with_outcomes :: "(string \<times> status \<times> time) list \<Rightarrow> (string \<Rightarrow> device option) \<Rightarrow> string \<Rightarrow>
    device option" where
  "with_outcomes recs v did = map_option (\<lambda>d. case map_of (rev recs) did of
       None \<Rightarrow> d
     | Some (s, t) \<Rightarrow> d\<lparr>dev_Status := s, dev_LastSeen := t\<rparr>) (v did)"

lemma with_outcomes_Nil [simp]: "with_outcomes [] v = v"
  by (simp add: with_outcomes_def fun_eq_iff option.map_ident)

lemma with_outcomes_snoc:
  "with_outcomes (recs @ [(k, s, t)]) v did =
     (if did = k then map_option (\<lambda>d. d\<lparr>dev_Status := s, dev_LastSeen := t\<rparr>) (with_outcomes recs v did)
      else with_outcomes recs v did)"
  by (cases "v did") (auto simp: with_outcomes_def split: option.split)

lemma with_outcomes_metadata:
  "with_outcomes recs v did = Some d \<Longrightarrow> \<exists>d0. v did = Some d0 \<and> dev_Metadata d = dev_Metadata d0"
  by (auto simp: with_outcomes_def split: option.splits)

lemma runtime_same_metadata:
  "dev_Metadata d = dev_Metadata x \<Longrightarrow>
     apply_runtime x (d\<lparr>dev_Status := s, dev_LastSeen := t\<rparr>) = x\<lparr>dev_Status := s, dev_LastSeen := t\<rparr>"
  by (cases x) (simp add: apply_runtime_def Let_def)

definition job_known :: "(string \<Rightarrow> device option) \<Rightarrow> point \<Rightarrow> bool" where
  "job_known v pt \<longleftrightarrow> (\<forall>j. job_of pt = Some j \<longrightarrow>
     (\<exists>d0. v (dev_ID (jb_dev j)) = Some d0 \<and> dev_Metadata (jb_dev j) = dev_Metadata d0))"

lemma job_known_simps [simp]: "job_known v Finished" "job_known v (Lookup cmd)"
  by (simp_all add: job_known_def)

text \<open>A point keeps its job; only the lookup makes one.\<close>

lemma job_of_step:
  assumes "point_step e env pt w = (pt', w')" and "job_of pt' = Some j"
  shows "job_of pt = Some j \<or> (\<exists>did. op_GetDevice (eng_registry e) (w_reg w) did = Inr (jb_dev j))"
proof (cases pt)
  case (Lookup cmd)
  then have "op_GetDevice (eng_registry e) (w_reg w) (cmd_DeviceID cmd) = Inr (jb_dev j)"
    using assms by (auto simp: time_now_def split: sum.splits)
  then show ?thesis by blast
qed (use assms in \<open>auto simp: time_now_def Let_def split: sum.splits prod.splits option.splits if_splits bool.splits\<close>)

section \<open>Invariants of every interleaving\<close>

locale router_ports = reg: router_registry e rinv view + buf: router_buffer b binv contents e
  for e :: "('r, 'c, 'n, 'b, 'm) engine" and rinv view b binv contents +
  fixes reload :: "'r \<Rightarrow> 'r \<Rightarrow> bool" and cleanup :: "'b \<Rightarrow> 'b \<Rightarrow> bool"
  assumes reload_inv: "rinv r \<Longrightarrow> reload r r' \<Longrightarrow> rinv r'"
    and cleanup_inv: "binv x \<Longrightarrow> cleanup x y \<Longrightarrow> binv y"
    and cleanup_contents: "binv x \<Longrightarrow> cleanup x y \<Longrightarrow> set (contents y) \<subseteq> set (contents x)"
begin

definition ports_inv :: "'b \<Rightarrow> ('r, 'c, 'n, 'b, 'm) concurrent \<Rightarrow> bool" where
  "ports_inv b0 c \<longleftrightarrow>
     (let s = cc_system c; w = sy_world s
      in rinv (w_reg w) \<and> binv (w_buf w) \<and> length (cc_points c) = length (sy_workers s) \<and>
         (\<forall>i cmd. i < length (sy_workers s) \<longrightarrow> sy_workers s ! i = WBusy cmd \<longrightarrow> at_command cmd (cc_points c ! i)) \<and>
         mset (map fst (cc_stored c)) \<subseteq># mset (sy_finished s) + mset (past_commands c) \<and>
         (\<forall>(cmd, i) \<in> set (cc_stored c). item_of cmd i) \<and>
         set (contents (w_buf w)) \<union> set (cc_delivered c) \<subseteq>
           set (contents b0) \<union> snd ` set (cc_stored c) \<union> set (cc_passed c))"

lemma ports_inv_start:
  "rinv (w_reg w) \<Longrightarrow> binv (w_buf w) \<Longrightarrow> ports_inv (w_buf w) (start_concurrent cap n w)"
  by (simp add: ports_inv_def start_concurrent_def start_system_def)

lemma point_step_ports:
  assumes "point_step e env pt w = (pt', w')" and "rinv (w_reg w)" and "binv (w_buf w)"
  shows "rinv (w_reg w') \<and> binv (w_buf w') \<and>
    contents (w_buf w') = contents (w_buf w) @ stored_at e env pt w"
  using assms(2,3) point_step_reg [OF assms(1)] point_step_buf [OF assms(1)]
  by (cases pt)
    (auto simp: reg.reg.inv_update buf.eng_buf buffer_telemetry_buf buf.buf.inv_add buf.buf.add_contents
      telemetry_item_def)

lemma past_commands_update:
  assumes "i < length (sy_workers s)" and "length (cc_points c) = length (sy_workers s)" and "cc_system c = s"
  shows "mset (concat (map2 past_command ((sy_workers s)[i := w]) ((cc_points c)[i := pt]))) +
      mset (past_command (sy_workers s ! i) (cc_points c ! i)) =
    mset (past_commands c) + mset (past_command w pt)"
  using concat_map2_update [OF assms(1), of "cc_points c" past_command w pt] assms(2,3)
  by (simp add: past_commands_def)

lemma ports_inv_work:
  assumes inv: "ports_inv b0 c"
    and i: "i < length (sy_workers s)" "sy_workers s ! i = WBusy cmd" "cc_points c ! i = pt" "cc_system c = s"
    and st: "point_step e (env_of env s) pt (sy_world s) = (pt', w')"
  shows "ports_inv b0 (c\<lparr>cc_system := s\<lparr>sy_world := w'\<rparr>, cc_points := (cc_points c)[i := pt'],
          cc_stored := cc_stored c @ map (Pair cmd) (stored_at e (env_of env s) pt (sy_world s)),
          cc_recorded := rec\<rparr>)"
proof -
  let ?st = "stored_at e (env_of env s) pt (sy_world s)"
  have l: "length (cc_points c) = length (sy_workers s)" and r: "rinv (w_reg (sy_world s))"
    and bi: "binv (w_buf (sy_world s))" and at: "at_command cmd pt"
    using inv i by (auto simp: ports_inv_def Let_def)
  have g: "\<And>did d. op_GetDevice (eng_registry e) (w_reg (sy_world s)) did = Inr d \<Longrightarrow> dev_ID d = did"
    using reg.reg.get_id [OF r] by blast
  have at': "at_command cmd pt'" by (rule at_command_step [OF at st g])
  have w: "rinv (w_reg w')" "binv (w_buf w')" "contents (w_buf w') = contents (w_buf (sy_world s)) @ ?st"
    using point_step_ports [OF st r bi] by auto
  have "(sy_workers s)[i := WBusy cmd] = sy_workers s" using i(2) by (metis list_update_id)
  then have p: "mset (concat (map2 past_command (sy_workers s) ((cc_points c)[i := pt']))) +
      mset (past_command (WBusy cmd) pt) = mset (past_commands c) + mset (past_command (WBusy cmd) pt')"
    using past_commands_update [OF i(1) l i(4), of "WBusy cmd" pt'] i by simp
  have q: "mset (past_command (WBusy cmd) pt) + mset (map fst (map (Pair cmd) ?st)) \<subseteq>#
      mset (past_command (WBusy cmd) pt')"
    using point_step_past [OF st] stored_past [OF st] by (cases pt) (auto split: option.split)
  have "mset (map fst (cc_stored c)) \<subseteq># mset (sy_finished s) + mset (past_commands c)"
    using inv i(4) by (simp add: ports_inv_def Let_def)
  then have "mset (map fst (cc_stored c)) + (mset (past_command (WBusy cmd) pt) + mset (map fst (map (Pair cmd) ?st)))
      \<subseteq># (mset (sy_finished s) + mset (past_commands c)) + mset (past_command (WBusy cmd) pt')"
    by (rule subset_mset.add_mono [OF _ q])
  also have "\<dots> = mset (sy_finished s) + mset (concat (map2 past_command (sy_workers s) ((cc_points c)[i := pt']))) +
      mset (past_command (WBusy cmd) pt)"
    using p by (simp add: ac_simps)
  finally have m: "mset (map fst (cc_stored c)) + mset (map fst (map (Pair cmd) ?st)) \<subseteq>#
      mset (sy_finished s) + mset (concat (map2 past_command (sy_workers s) ((cc_points c)[i := pt'])))"
    by (simp add: ac_simps)
  have items: "\<forall>(c', x) \<in> set (cc_stored c @ map (Pair cmd) ?st). item_of c' x"
    using inv stored_item_of [OF at] by (auto simp: ports_inv_def Let_def)
  have conts: "set (contents (w_buf w')) \<union> set (cc_delivered c) \<subseteq>
      set (contents b0) \<union> snd ` set (cc_stored c @ map (Pair cmd) ?st) \<union> set (cc_passed c)"
    using inv i(4) w(3) by (auto simp: ports_inv_def Let_def image_Un image_image)
  have ats: "at_command c' ((cc_points c)[i := pt'] ! k)"
    if "k < length (sy_workers s)" "sy_workers s ! k = WBusy c'" for k c'
    using that inv i at' l by (cases "k = i") (auto simp: ports_inv_def Let_def)
  show ?thesis
    unfolding ports_inv_def Let_def using w(1,2) l m items conts ats
    by (simp add: past_commands_def)
qed

text \<open>A change of the pool alone: the points and commands must still fit.\<close>

lemma ports_inv_pool:
  assumes "ports_inv b0 c" and "sy_world s' = sy_world (cc_system c)"
    and "length pts = length (sy_workers s')"
    and "\<And>k cmd. k < length (sy_workers s') \<Longrightarrow> sy_workers s' ! k = WBusy cmd \<Longrightarrow> at_command cmd (pts ! k)"
    and "mset (sy_finished (cc_system c)) + mset (past_commands c) \<subseteq>#
      mset (sy_finished s') + mset (concat (map2 past_command (sy_workers s') pts))"
  shows "ports_inv b0 (c\<lparr>cc_system := s', cc_points := pts\<rparr>)"
proof -
  have "mset (map fst (cc_stored c)) \<subseteq># mset (sy_finished (cc_system c)) + mset (past_commands c)"
    using assms(1) by (simp add: ports_inv_def Let_def)
  from subset_mset.order_trans [OF this assms(5)] assms(1-4) show ?thesis
    by (simp add: ports_inv_def Let_def past_commands_def)
qed

text \<open>A worker gets a command, from the queue or handed over.\<close>

lemma ports_inv_begin:
  assumes "ports_inv b0 c" and "i < length (sy_workers (cc_system c))" and "sy_workers (cc_system c) ! i = WIdle"
    and "sy_workers s' = (sy_workers (cc_system c))[i := WBusy cmd]" and "sy_world s' = sy_world (cc_system c)"
    and "sy_finished s' = sy_finished (cc_system c)"
  shows "ports_inv b0 (c\<lparr>cc_system := s', cc_points := (cc_points c)[i := Lookup cmd]\<rparr>)"
proof -
  have l: "length (cc_points c) = length (sy_workers (cc_system c))" using assms(1) by (simp add: ports_inv_def Let_def)
  have p: "mset (concat (map2 past_command (sy_workers s') ((cc_points c)[i := Lookup cmd]))) =
      mset (past_commands c)"
    using past_commands_update [OF assms(2) l refl, of "WBusy cmd" "Lookup cmd"] assms(3,4) by simp
  show ?thesis
  proof (rule ports_inv_pool [OF assms(1)])
    fix k c'
    assume "k < length (sy_workers s')" "sy_workers s' ! k = WBusy c'"
    then show "at_command c' ((cc_points c)[i := Lookup cmd] ! k)"
      using assms(1,2,4) l by (cases "k = i") (auto simp: ports_inv_def Let_def at_command_def)
  qed (use assms l p in simp_all)
qed

lemma ports_inv_worker:
  assumes "ports_inv b0 c" and "pool_step e env c d"
  shows "ports_inv b0 d"
  using assms(2)
proof (cases rule: pool_step.cases)
  case (pool_take i s ch' cmd)
  then show ?thesis unfolding pool_take(1) using assms(1)
    by (intro ports_inv_begin) simp_all
next
  case (pool_work i s cmd pt pt' w')
  then show ?thesis using ports_inv_work [OF assms(1) pool_work(2,3,5,7,8)] by simp
next
  case (pool_finish i s cmd)
  have l: "length (cc_points c) = length (sy_workers s)" using assms(1) pool_finish by (simp add: ports_inv_def Let_def)
  have "(cc_points c)[i := Finished] = cc_points c" using pool_finish by (metis list_update_id)
  then have "mset (concat (map2 past_command ((sy_workers s)[i := WIdle]) (cc_points c))) + {#cmd#} =
      mset (past_commands c)"
    using past_commands_update [OF pool_finish(2) l pool_finish(6), of WIdle Finished] pool_finish by simp
  then have p: "mset (sy_finished s) + mset (past_commands c) =
      mset (sy_finished s @ [cmd]) + mset (concat (map2 past_command ((sy_workers s)[i := WIdle]) (cc_points c)))"
    by (simp add: ac_simps)
  have "ports_inv b0 (c\<lparr>cc_system := s\<lparr>sy_workers := (sy_workers s)[i := WIdle], sy_finished := sy_finished s @ [cmd]\<rparr>,
      cc_points := cc_points c\<rparr>)"
    by (rule ports_inv_pool [OF assms(1)])
      (use assms(1) pool_finish l p in \<open>auto simp: ports_inv_def Let_def nth_list_update split: if_splits\<close>)
  then show ?thesis using pool_finish(1) by simp
next
  case (pool_exit_cancelled i s)
  have l: "length (cc_points c) = length (sy_workers s)" using assms(1) pool_exit_cancelled by (simp add: ports_inv_def Let_def)
  have p: "mset (concat (map2 past_command ((sy_workers s)[i := WExited]) (cc_points c))) = mset (past_commands c)"
    using past_commands_update [OF pool_exit_cancelled(2) l pool_exit_cancelled(5), of WExited "cc_points c ! i"]
      pool_exit_cancelled by simp
  have "ports_inv b0 (c\<lparr>cc_system := s\<lparr>sy_workers := (sy_workers s)[i := WExited]\<rparr>, cc_points := cc_points c\<rparr>)"
    by (rule ports_inv_pool [OF assms(1)])
      (use assms(1) pool_exit_cancelled l p in \<open>auto simp: ports_inv_def Let_def nth_list_update split: if_splits\<close>)
  then show ?thesis using pool_exit_cancelled(1) by simp
next
  case (pool_exit_closed i s ch')
  have l: "length (cc_points c) = length (sy_workers s)" using assms(1) pool_exit_closed by (simp add: ports_inv_def Let_def)
  have p: "mset (concat (map2 past_command ((sy_workers s)[i := WExited]) (cc_points c))) = mset (past_commands c)"
    using past_commands_update [OF pool_exit_closed(2) l pool_exit_closed(5), of WExited "cc_points c ! i"]
      pool_exit_closed by simp
  have "ports_inv b0 (c\<lparr>cc_system := s\<lparr>sy_workers := (sy_workers s)[i := WExited]\<rparr>, cc_points := cc_points c\<rparr>)"
    by (rule ports_inv_pool [OF assms(1)])
      (use assms(1) pool_exit_closed l p in \<open>auto simp: ports_inv_def Let_def nth_list_update split: if_splits\<close>)
  then show ?thesis using pool_exit_closed(1) by simp
qed

lemma fetched_from_contents:
  assumes "binv x" and "op_Fetch b x = (y, res)"
  shows "binv y \<and> set (contents y) \<union> (case res of Inl err \<Rightarrow> {} | Inr items \<Rightarrow> set items) \<subseteq> set (contents x)"
proof (cases res)
  case (Inl err)
  then show ?thesis using buf.buf.fetch_err [OF assms(1)] buf.buf.inv_fetch [OF assms(1)] assms(2) by auto
next
  case (Inr items)
  have "mset items \<subseteq># mset (contents x)" using buf.buf.fetch_items [OF assms(1)] assms(2) Inr by blast
  then have "set items \<subseteq> set (contents x)" by (metis set_mset_mono set_mset_mset)
  moreover have "set (contents y) \<subseteq> set (contents x)"
    using buf.buf.fetch_rest [OF assms(1)] assms(2) Inr by (auto dest: subseq_set)
  ultimately show ?thesis using Inr buf.buf.inv_fetch [OF assms(1)] assms(2) by auto
qed

lemma ports_inv_other:
  assumes "ports_inv b0 c" and "other_step e reload cleanup c d"
  shows "ports_inv b0 d"
  using assms(2)
proof (cases rule: other_step.cases)
  case (other_outer s)
  then show ?thesis using assms(1) outer_step_world [OF other_outer(2)]
    by (simp add: ports_inv_def Let_def past_commands_def)
next
  case (other_hand_over i cmd)
  then show ?thesis unfolding other_hand_over(1) using assms(1)
    by (intro ports_inv_begin) (simp_all add: can_hand_over_def hand_over_def)
next
  case (other_reload r)
  then show ?thesis using assms(1) reload_inv [OF _ other_reload(2)] by (simp add: ports_inv_def Let_def past_commands_def)
next
  case (other_cleanup x)
  then show ?thesis using assms(1) cleanup_inv [OF _ other_cleanup(2)] cleanup_contents [OF _ other_cleanup(2)]
    by (auto simp: ports_inv_def Let_def past_commands_def)
next
  case (other_cloud k)
  then show ?thesis using assms(1) by (simp add: ports_inv_def Let_def past_commands_def)
next
  case (other_fetch ops x res)
  have "binv (w_buf (sy_world (cc_system c)))" using assms(1) by (simp add: ports_inv_def Let_def)
  moreover have "op_Fetch b (w_buf (sy_world (cc_system c))) = (x, res)" using other_fetch buf.eng_buf by simp
  ultimately have f: "binv x" "set (contents x) \<union> (case res of Inl err \<Rightarrow> {} | Inr items \<Rightarrow> set items)
      \<subseteq> set (contents (w_buf (sy_world (cc_system c))))"
    using fetched_from_contents by blast+
  have "set (case res of Inl err \<Rightarrow> [] | Inr items \<Rightarrow> items) =
      (case res of Inl err \<Rightarrow> {} | Inr items \<Rightarrow> set items)" by (simp split: sum.split)
  then show ?thesis using assms(1) f other_fetch(1)
    by (auto simp: ports_inv_def Let_def past_commands_def)
next
  case (other_pass ops now t x err)
  have i: "binv (w_buf (sy_world (cc_system c)))" using assms(1) by (simp add: ports_inv_def Let_def)
  have op: "op_AddData b (w_buf (sy_world (cc_system c))) now ''telemetry'' (telemetry_json t) = (x, err)"
    using other_pass buf.eng_buf by simp
  have "binv x" using buf.buf.inv_add [OF i, of now "''telemetry''" "telemetry_json t"] op by simp
  moreover have "contents x = contents (w_buf (sy_world (cc_system c))) @
      (if err = None then [telemetry_item now t] else [])"
    using buf.buf.add_contents [OF i, of now "''telemetry''" "telemetry_json t"] op
    by (simp add: telemetry_item_def)
  ultimately show ?thesis using assms(1) other_pass(1)
    by (auto simp: ports_inv_def Let_def past_commands_def)
qed

lemma ports_inv_reach:
  assumes "reach (\<lambda>c. c = start_concurrent cap n w) (concurrent_step e env reload cleanup) c"
    and "rinv (w_reg w)" and "binv (w_buf w)"
  shows "ports_inv (w_buf w) c"
  using assms(1)
proof (induction rule: reach.induct)
  case (reach_init c)
  then show ?case using ports_inv_start assms(2,3) by simp
next
  case (reach_step c d)
  from reach_step.hyps(2) show ?case unfolding concurrent_step_def
    by (elim disjE) (rule ports_inv_worker [OF reach_step.IH], assumption, rule ports_inv_other [OF reach_step.IH])
qed

text \<open>A command stores at most once: the commands that did are among the accepted ones.\<close>

lemma stored_accepted:
  assumes "reach (\<lambda>c. c = start_concurrent cap n w) (concurrent_step e env reload cleanup) c"
    and "rinv (w_reg w)" and "binv (w_buf w)"
  shows "mset (map fst (cc_stored c)) \<subseteq># mset (sy_accepted (cc_system c))"
proof -
  have q: "queue_inv cap n (cc_system c)"
    by (rule concurrent_queue_inv [OF reach_is_start [OF assms(1)]])
  have "mset (map fst (cc_stored c)) \<subseteq># mset (sy_finished (cc_system c)) + mset (past_commands c)"
    using ports_inv_reach [OF assms] by (simp add: ports_inv_def Let_def)
  also have "\<dots> \<subseteq># mset (sy_finished (cc_system c)) + mset (busy (sy_workers (cc_system c)))"
    unfolding past_commands_def by (rule subset_mset.add_left_mono [OF past_command_busy])
  also have "\<dots> \<subseteq># mset (sy_accepted (cc_system c))" using q by (simp add: queue_inv_def)
  finally show ?thesis .
qed

text \<open>No step of a worker changes a core configuration, adds a device or removes one.\<close>

lemma worker_keeps_core:
  assumes "pool_step e env c d" and "rinv (w_reg (sy_world (cc_system c)))"
  shows "map_option core_config (view (w_reg (sy_world (cc_system d))) did) =
    map_option core_config (view (w_reg (sy_world (cc_system c))) did)"
  using assms(1)
proof (cases rule: pool_step.cases)
  case (pool_work i s cmd pt pt' w')
  have "map_option core_config (view (w_reg w') did) = map_option core_config (view (w_reg (sy_world s)) did)"
    using point_step_reg [OF pool_work(8)] assms(2) pool_work(7)
    by (cases pt) (simp_all add: reg.reg.update_view option.map_comp comp_def)
  with pool_work show ?thesis by simp
qed simp_all

definition registry_history :: "'r \<Rightarrow> ('r, 'c, 'n, 'b, 'm) concurrent \<Rightarrow> bool" where
  "registry_history r0 c \<longleftrightarrow>
     rinv (w_reg (sy_world (cc_system c))) \<and>
     view (w_reg (sy_world (cc_system c))) = with_outcomes (cc_recorded c) (view r0) \<and>
     (\<forall>pt \<in> set (cc_points c). job_known (view r0) pt)"

lemma history_work:
  assumes h: "registry_history r0 c" and i: "i < length (cc_points c)" "cc_points c ! i = pt"
    and st: "point_step e env' pt (sy_world (cc_system c)) = (pt', w')"
  shows "rinv (w_reg w') \<and>
    view (w_reg w') = with_outcomes (cc_recorded c @ recorded_at env' pt (sy_world (cc_system c))) (view r0) \<and>
    job_known (view r0) pt'"
proof -
  let ?w = "sy_world (cc_system c)"
  have r: "rinv (w_reg ?w)" and v: "view (w_reg ?w) = with_outcomes (cc_recorded c) (view r0)"
    using h by (simp_all add: registry_history_def)
  have jk: "job_known (view r0) pt" using h i nth_mem by (auto simp: registry_history_def)
  have "job_known (view r0) pt'"
    unfolding job_known_def
  proof (intro allI impI)
    fix j assume "job_of pt' = Some j"
    from job_of_step [OF st this]
    show "\<exists>d0. view r0 (dev_ID (jb_dev j)) = Some d0 \<and> dev_Metadata (jb_dev j) = dev_Metadata d0"
    proof
      assume "job_of pt = Some j"
      then show ?thesis using jk by (simp add: job_known_def)
    next
      assume "\<exists>did. op_GetDevice (eng_registry e) (w_reg ?w) did = Inr (jb_dev j)"
      then obtain did where g: "op_GetDevice (eng_registry e) (w_reg ?w) did = Inr (jb_dev j)" by blast
      have "view (w_reg ?w) did = Some (jb_dev j)" using reg.reg.get_found [OF r] g by blast
      with v reg.reg.get_id [OF r g] show ?thesis by (auto dest: with_outcomes_metadata)
    qed
  qed
  moreover have "rinv (w_reg w') \<and> view (w_reg w') =
      with_outcomes (cc_recorded c @ recorded_at env' pt ?w) (view r0)"
  proof (cases pt)
    case (Recording j tel ok)
    obtain d0 where d0: "view r0 (dev_ID (jb_dev j)) = Some d0" "dev_Metadata (jb_dev j) = dev_Metadata d0"
      using jk Recording by (auto simp: job_known_def)
    have "view (w_reg w') did = with_outcomes (cc_recorded c @ recorded_at env' pt ?w) (view r0) did" for did
    proof (cases "did = dev_ID (jb_dev j)")
      case True
      obtain x where x: "with_outcomes (cc_recorded c) (view r0) did = Some x"
        using d0 True by (simp add: with_outcomes_def)
      have "dev_Metadata (jb_dev j) = dev_Metadata x"
        using with_outcomes_metadata [OF x] d0 True by auto
      from runtime_same_metadata [OF this] show ?thesis
        using point_step_reg [OF st] Recording r v x True
        by (simp add: reg.reg.update_view with_outcomes_snoc recorded_device_def)
    next
      case False
      then show ?thesis using point_step_reg [OF st] Recording r v
        by (simp add: reg.reg.update_view with_outcomes_snoc recorded_device_def)
    qed
    moreover have "rinv (w_reg w')" using point_step_reg [OF st] Recording r by (simp add: reg.reg.inv_update)
    ultimately show ?thesis by (simp add: fun_eq_iff)
  qed (use point_step_reg [OF st] r v in simp_all)
  ultimately show ?thesis by blast
qed

lemma history_worker:
  assumes h: "registry_history r0 c" and p: "pool_step e env c d"
  shows "registry_history r0 d"
  using p
proof (cases rule: pool_step.cases)
  case (pool_work i s cmd pt pt' w')
  have "point_step e (env_of env s) pt (sy_world (cc_system c)) = (pt', w')" using pool_work(7,8) by simp
  from history_work [OF h pool_work(4,5) this] h pool_work(1,7) show ?thesis
    by (auto simp: registry_history_def dest: set_update_subset_insert [THEN subsetD])
qed (use h in \<open>auto simp: registry_history_def dest: set_update_subset_insert [THEN subsetD]\<close>)

lemma history_other:
  assumes "registry_history r0 c" and "other_step e reload cleanup c d" and "\<And>r r'. \<not> reload r r'"
  shows "registry_history r0 d"
  using assms(2)
proof (cases rule: other_step.cases)
  case (other_outer s)
  then show ?thesis using assms(1) outer_step_world [OF other_outer(2)] by (simp add: registry_history_def)
next
  case (other_hand_over i cmd)
  then show ?thesis using assms(1)
    by (auto simp: registry_history_def hand_over_def dest: set_update_subset_insert [THEN subsetD])
qed (use assms(1,3) in \<open>auto simp: registry_history_def\<close>)

lemma registry_history_reach:
  assumes "reach (\<lambda>c. c = start_concurrent cap n w) (concurrent_step e env reload cleanup) c"
    and "rinv (w_reg w)" and "\<And>r r'. \<not> reload r r'"
  shows "registry_history (w_reg w) c"
  using assms(1)
proof (induction rule: reach.induct)
  case (reach_init c)
  then show ?case using assms(2)
    by (simp add: registry_history_def start_concurrent_def start_system_def)
next
  case (reach_step c d)
  from reach_step.hyps(2) show ?case unfolding concurrent_step_def
    by (elim disjE) (rule history_worker [OF reach_step.IH], assumption, rule history_other [OF reach_step.IH _ assms(3)])
qed

end

end
