(* ===== verification/Config.thy ===== *)
theory Config
  imports Domain
begin

text \<open>
  \<open>internal/config/config.go\<close>: the configuration and its defaults.  The library that
  merges defaults, environment and file (\<open>viper\<close>) is not part of the sources: a parameter
  takes the defaults that \<open>Load\<close> sets to the outcome of \<open>Unmarshal\<close>.
\<close>

record config =
  cfg_LogLevel :: string
  cfg_MetricsPort :: int
  cfg_HealthPort :: int
  cfg_RegistryPath :: string
  cfg_NetworkTimeout :: int
  cfg_CertPath :: string
  cfg_KeyPath :: string
  cfg_IotHubHostname :: string
  cfg_WorkerPoolSize :: int
  cfg_CommandQueueSize :: int
  cfg_RetryMaxAttempts :: int
  cfg_RetryBaseBackoffMs :: int
  cfg_PrometheusURL :: string
  cfg_PrometheusMetrics :: "string list"
  cfg_PrometheusPollInterval :: duration
  cfg_PrometheusMqttTopic :: string
  cfg_RetentionWindowMinutes :: int
  cfg_FetchEndpointPath :: string
  cfg_SQLiteDBPath :: string

datatype setting = SetStr string | SetInt int | SetStrs "string list"

definition config_defaults :: "(string \<times> setting) list" where
  "config_defaults =
     [(''LOG_LEVEL'', SetStr ''info''),
      (''METRICS_PORT'', SetInt 9090),
      (''HEALTH_PORT'', SetInt 8080),
      (''REGISTRY_PATH'', SetStr ''/etc/gateway/devices.json''),
      (''NETWORK_TIMEOUT_MS'', SetInt 5000),
      (''WORKER_POOL_SIZE'', SetInt 100),
      (''COMMAND_QUEUE_SIZE'', SetInt 5000),
      (''RETRY_MAX_ATTEMPTS'', SetInt 3),
      (''RETRY_BASE_BACKOFF_MS'', SetInt 200),
      (''PROMETHEUS_URL'', SetStr ''http://localhost:9090''),
      (''PROMETHEUS_METRICS'', SetStrs [''gateway_commands_dropped_total'',
         ''gateway_command_latency_seconds_count'']),
      (''PROMETHEUS_POLL_INTERVAL'', SetStr ''30s''),
      (''PROMETHEUS_MQTT_TOPIC'', SetStr ''devices/edge-gateway-sim/messages/events/metrics''),
      (''RETENTION_WINDOW_MINUTES'', SetInt 1),
      (''FETCH_ENDPOINT_PATH'', SetStr ''/api/v1/backend/fetch''),
      (''SQLITE_DB_PATH'', SetStr ''/tmp/gateway_buffer.db'')]"

definition LoadConfig :: "((string \<times> setting) list \<Rightarrow> config result) \<Rightarrow> config result" where
  "LoadConfig unmarshal =
     (case unmarshal config_defaults of
        Inl err \<Rightarrow> Inl (wrap_last ''unable to decode config'' err)
      | Inr cfg \<Rightarrow>
          (if cfg_IotHubHostname cfg = [] then Inl (OtherErr ''IOT_HUB_HOSTNAME is required'')
           else Inr cfg))"

text \<open>
  What the library documents of a source that sets nothing but the host name: every key with
  a default decodes to it, the other fields to the zero value of their type.
\<close>

fun set_str :: "setting option \<Rightarrow> string" where
  "set_str (Some (SetStr s)) = s"
| "set_str _ = []"

fun set_int :: "setting option \<Rightarrow> int" where
  "set_int (Some (SetInt n)) = n"
| "set_int _ = 0"

fun set_strs :: "setting option \<Rightarrow> string list" where
  "set_strs (Some (SetStrs xs)) = xs"
| "set_strs _ = []"

definition decode_config :: "(string \<Rightarrow> duration) \<Rightarrow> string \<Rightarrow> (string \<times> setting) list \<Rightarrow> config" where
  "decode_config parse_duration host s = \<lparr>
     cfg_LogLevel = set_str (go_get s ''LOG_LEVEL''),
     cfg_MetricsPort = set_int (go_get s ''METRICS_PORT''),
     cfg_HealthPort = set_int (go_get s ''HEALTH_PORT''),
     cfg_RegistryPath = set_str (go_get s ''REGISTRY_PATH''),
     cfg_NetworkTimeout = set_int (go_get s ''NETWORK_TIMEOUT_MS''),
     cfg_CertPath = set_str (go_get s ''CERT_PATH''),
     cfg_KeyPath = set_str (go_get s ''KEY_PATH''),
     cfg_IotHubHostname = host,
     cfg_WorkerPoolSize = set_int (go_get s ''WORKER_POOL_SIZE''),
     cfg_CommandQueueSize = set_int (go_get s ''COMMAND_QUEUE_SIZE''),
     cfg_RetryMaxAttempts = set_int (go_get s ''RETRY_MAX_ATTEMPTS''),
     cfg_RetryBaseBackoffMs = set_int (go_get s ''RETRY_BASE_BACKOFF_MS''),
     cfg_PrometheusURL = set_str (go_get s ''PROMETHEUS_URL''),
     cfg_PrometheusMetrics = set_strs (go_get s ''PROMETHEUS_METRICS''),
     cfg_PrometheusPollInterval = parse_duration (set_str (go_get s ''PROMETHEUS_POLL_INTERVAL'')),
     cfg_PrometheusMqttTopic = set_str (go_get s ''PROMETHEUS_MQTT_TOPIC''),
     cfg_RetentionWindowMinutes = set_int (go_get s ''RETENTION_WINDOW_MINUTES''),
     cfg_FetchEndpointPath = set_str (go_get s ''FETCH_ENDPOINT_PATH''),
     cfg_SQLiteDBPath = set_str (go_get s ''SQLITE_DB_PATH'')\<rparr>"

lemma LoadConfig_host: "LoadConfig u = Inr cfg \<Longrightarrow> cfg_IotHubHostname cfg \<noteq> []"
  by (auto simp: LoadConfig_def split: sum.splits if_splits)

lemma decode_defaults [simp]:
  "cfg_NetworkTimeout (decode_config pd host config_defaults) = 5000"
  "cfg_WorkerPoolSize (decode_config pd host config_defaults) = 100"
  "cfg_CommandQueueSize (decode_config pd host config_defaults) = 5000"
  "cfg_RetryMaxAttempts (decode_config pd host config_defaults) = 3"
  "cfg_RetryBaseBackoffMs (decode_config pd host config_defaults) = 200"
  "cfg_RetentionWindowMinutes (decode_config pd host config_defaults) = 1"
  "cfg_PrometheusMetrics (decode_config pd host config_defaults) =
     [''gateway_commands_dropped_total'', ''gateway_command_latency_seconds_count'']"
  "cfg_SQLiteDBPath (decode_config pd host config_defaults) = ''/tmp/gateway_buffer.db''"
  "cfg_FetchEndpointPath (decode_config pd host config_defaults) = ''/api/v1/backend/fetch''"
  "cfg_IotHubHostname (decode_config pd host config_defaults) = host"
  by (simp_all add: decode_config_def config_defaults_def)

end
