(* ===== verification/Rules.thy ===== *)
theory Rules
  imports Domain
begin

text \<open>
  \<open>internal/core/rules/engine.go\<close>: the local alerting rules.  The engine keeps no state of
  its own; it publishes through the cloud client and reads the clock once per alert, so its
  operations work on the client's state and the number of readings so far.  The text that
  \<open>fmt.Sprintf\<close> gives to a \<open>float64\<close> under \<open>%v\<close> is a parameter; it ends up in the
  alert's message and decides nothing.
\<close>

record rule =
  rule_MetricName :: string
  rule_Operator :: string
  rule_Threshold :: float64
  rule_Severity :: string

record 'c rules_engine =
  re_rules :: "rule list"
  re_cloudClient :: "'c cloud_ops"
  re_alertTopic :: string

definition NewEngine_rules :: "rule list" where
  "NewEngine_rules =
     [\<lparr>rule_MetricName = ''gateway_commands_dropped_total'', rule_Operator = ''>'',
       rule_Threshold = Fin 5, rule_Severity = ''CRITICAL''\<rparr>,
      \<lparr>rule_MetricName = ''gateway_command_latency_seconds_count'', rule_Operator = ''>'',
       rule_Threshold = Fin 1000, rule_Severity = ''WARNING''\<rparr>]"

definition NewRulesEngine :: "'c cloud_ops \<Rightarrow> string \<Rightarrow> 'c rules_engine" where
  "NewRulesEngine cloudClient alertTopic =
     \<lparr>re_rules = NewEngine_rules, re_cloudClient = cloudClient, re_alertTopic = alertTopic\<rparr>"

definition checkThreshold :: "float64 \<Rightarrow> float64 \<Rightarrow> string \<Rightarrow> bool" where
  "checkThreshold value threshold operator =
     (if operator = ''>'' then f_gt value threshold
      else if operator = ''<'' then f_lt value threshold
      else if operator = ''=='' then f_eq value threshold
      else False)"

text \<open>The standard library around an evaluation: the clock, and \<open>%v\<close> of a \<open>float64\<close>.\<close>

record rules_env =
  ru_clock :: "nat \<Rightarrow> time"
  ru_show :: "float64 \<Rightarrow> string"

definition rule_alert ::
  "rules_env \<Rightarrow> rule \<Rightarrow> string \<Rightarrow> float64 \<Rightarrow> string gomap \<Rightarrow> time \<Rightarrow> alert_payload" where
  "rule_alert env rule metricName value labels now =
     \<lparr>alert_Severity = rule_Severity rule,
      alert_Message = ''Metric '' @ metricName @ '' breached threshold '' @ ru_show env value @ '' ''
        @ rule_Operator rule @ '' '' @ ru_show env (rule_Threshold rule),
      alert_MetricName = metricName, alert_Value = value, alert_Threshold = rule_Threshold rule,
      alert_Labels = labels, alert_Timestamp = now\<rparr>"

definition triggerAlert :: "'c rules_engine \<Rightarrow> rules_env \<Rightarrow> rule \<Rightarrow> string \<Rightarrow> float64 \<Rightarrow>
    string gomap \<Rightarrow> 'c \<times> nat \<Rightarrow> 'c \<times> nat" where
  "triggerAlert e env rule metricName value labels s =
     (if \<not> op_IsConnected (re_cloudClient e) (fst s) then s
      else
        (case json_Marshal (alert_json
                (rule_alert env rule metricName value labels (ru_clock env (snd s)))) of
           Inl err \<Rightarrow> (fst s, Suc (snd s))
         | Inr payloadBytes \<Rightarrow>
             (fst (op_Publish (re_cloudClient e) (fst s) (re_alertTopic e) payloadBytes),
              Suc (snd s))))"

fun evaluate_rules :: "'c rules_engine \<Rightarrow> rules_env \<Rightarrow> rule list \<Rightarrow> string \<Rightarrow> float64 \<Rightarrow>
    string gomap \<Rightarrow> 'c \<times> nat \<Rightarrow> 'c \<times> nat" where
  "evaluate_rules e env [] metricName value labels s = s"
| "evaluate_rules e env (rule # rules) metricName value labels s =
     evaluate_rules e env rules metricName value labels
       (if rule_MetricName rule = metricName \<and>
           checkThreshold value (rule_Threshold rule) (rule_Operator rule)
        then triggerAlert e env rule metricName value labels s else s)"

definition Evaluate :: "'c rules_engine \<Rightarrow> rules_env \<Rightarrow> string \<Rightarrow> float64 \<Rightarrow>
    string gomap \<Rightarrow> 'c \<times> nat \<Rightarrow> 'c \<times> nat" where
  "Evaluate e env metricName value labels s =
     evaluate_rules e env (re_rules e) metricName value labels s"

section \<open>Lemmas\<close>

definition breached :: "string \<Rightarrow> float64 \<Rightarrow> rule \<Rightarrow> bool" where
  "breached metricName value rule \<longleftrightarrow> rule_MetricName rule = metricName \<and>
     checkThreshold value (rule_Threshold rule) (rule_Operator rule)"

text \<open>The alerts of one evaluation, in the order of the rules.\<close>

fun alerts_from :: "rules_env \<Rightarrow> string \<Rightarrow> float64 \<Rightarrow> string gomap \<Rightarrow> nat \<Rightarrow> rule list \<Rightarrow>
    alert_payload list" where
  "alerts_from env metricName value labels k [] = []"
| "alerts_from env metricName value labels k (rule # rules) =
     rule_alert env rule metricName value labels (ru_clock env k) #
       alerts_from env metricName value labels (Suc k) rules"

definition publish_all :: "'c cloud_ops \<Rightarrow> string \<Rightarrow> json list \<Rightarrow> 'c \<Rightarrow> 'c" where
  "publish_all ops topic docs c = fold (\<lambda>d c. fst (op_Publish ops c topic d)) docs c"

lemma publish_all_simps [simp]:
  "publish_all ops topic [] c = c"
  "publish_all ops topic (d # docs) c = publish_all ops topic docs (fst (op_Publish ops c topic d))"
  by (simp_all add: publish_all_def)

lemma length_alerts [simp]: "length (alerts_from env m v l k rs) = length rs"
  by (induction rs arbitrary: k) auto

lemma evaluate_filter:
  "evaluate_rules e env rules m v l s =
     fold (\<lambda>rule s. triggerAlert e env rule m v l s) (filter (breached m v) rules) s"
  by (induction rules arbitrary: s) (simp_all add: breached_def)

lemma triggerAlert_disconnected:
  "\<not> op_IsConnected (re_cloudClient e) (fst s) \<Longrightarrow> triggerAlert e env rule m v l s = s"
  by (simp add: triggerAlert_def)

lemma evaluate_disconnected:
  "\<not> op_IsConnected (re_cloudClient e) (fst s) \<Longrightarrow> evaluate_rules e env rules m v l s = s"
  by (induction rules) (simp_all add: triggerAlert_disconnected)

lemma triggerAlert_connected:
  "op_IsConnected (re_cloudClient e) c \<Longrightarrow> f_finite v \<Longrightarrow> f_finite (rule_Threshold rule) \<Longrightarrow>
     triggerAlert e env rule m v l (c, k) =
       (fst (op_Publish (re_cloudClient e) c (re_alertTopic e)
               (alert_json (rule_alert env rule m v l (ru_clock env k)))), Suc k)"
  by (simp add: triggerAlert_def json_Marshal_def json_finite_alert rule_alert_def)

lemma triggerAlert_infinite:
  "\<not> f_finite v \<Longrightarrow> fst (triggerAlert e env rule m v l s) = fst s"
  by (simp add: triggerAlert_def json_Marshal_def json_finite_alert rule_alert_def)

lemma fold_trigger:
  assumes stays: "\<And>c d. op_IsConnected (re_cloudClient e) c \<Longrightarrow>
      op_IsConnected (re_cloudClient e) (fst (op_Publish (re_cloudClient e) c (re_alertTopic e) d))"
    and fin: "f_finite v" and thr: "\<forall>r \<in> set rs. f_finite (rule_Threshold r)"
    and conn: "op_IsConnected (re_cloudClient e) c"
  shows "fold (\<lambda>rule s. triggerAlert e env rule m v l s) rs (c, k) =
    (publish_all (re_cloudClient e) (re_alertTopic e)
       (map alert_json (alerts_from env m v l k rs)) c, k + length rs)"
  using thr conn
  by (induction rs arbitrary: c k) (simp_all add: triggerAlert_connected fin stays)

lemma fold_trigger_infinite:
  assumes "\<not> f_finite v" and "op_IsConnected (re_cloudClient e) c"
  shows "fold (\<lambda>rule s. triggerAlert e env rule m v l s) rs (c, k) = (c, k + length rs)"
  using assms
  by (induction rs arbitrary: k)
    (simp_all add: triggerAlert_def json_Marshal_def json_finite_alert rule_alert_def)

lemma checkThreshold_nan [simp]: "\<not> checkThreshold NaN t op"
  by (simp add: checkThreshold_def)

lemma evaluate_nan: "evaluate_rules e env rules m NaN l s = s"
  by (induction rules) simp_all

lemma evaluate_infinite:
  "\<not> f_finite v \<Longrightarrow> fst (evaluate_rules e env rules m v l s) = fst s"
  by (induction rules arbitrary: s) (simp_all add: triggerAlert_infinite)

text \<open>The rules of the gateway: which metric breaches which.\<close>

lemma breached_NewEngine:
  "filter (breached m v) NewEngine_rules =
     (if m = ''gateway_commands_dropped_total'' \<and> f_gt v (Fin 5) then [NewEngine_rules ! 0]
      else if m = ''gateway_command_latency_seconds_count'' \<and> f_gt v (Fin 1000)
      then [NewEngine_rules ! 1] else [])"
  by (auto simp: NewEngine_rules_def breached_def checkThreshold_def)

text \<open>No alert leaves the gateway while the client is disconnected, and none for a value
  that is not finite, although an infinite value does breach a threshold: the alert
  cannot be marshalled.\<close>

lemma no_alert_offline_or_infinite:
  assumes "\<not> op_IsConnected (re_cloudClient e) (fst s) \<or> \<not> f_finite v"
  shows "fst (Evaluate e env m v l s) = fst s \<and> checkThreshold PosInf (Fin t) ''>''"
  using assms
  by (auto simp: Evaluate_def evaluate_disconnected evaluate_infinite checkThreshold_def f_gt_def)

section \<open>Properties\<close>

text \<open>C27: with the client connected throughout and finite thresholds, one evaluation of a finite
  value publishes one alert for each rule of that metric whose threshold the value breaches, in
  the order of the rules, on the alert topic, with that rule's severity and threshold and the
  sample's labels, and nothing else.  An infinite value breaches thresholds too, but none of its
  alerts goes out: they cannot be marshalled.\<close>

theorem evaluate_publishes_breaches:
  assumes "\<And>c d. op_IsConnected (re_cloudClient e) c \<Longrightarrow>
      op_IsConnected (re_cloudClient e) (fst (op_Publish (re_cloudClient e) c (re_alertTopic e) d))"
    and "op_IsConnected (re_cloudClient e) c"
    and "list_all (\<lambda>r. f_finite (rule_Threshold r)) (re_rules e)"
  shows "Evaluate e env m v l (c, k) =
    (let hits = filter (\<lambda>r. rule_MetricName r = m \<and> checkThreshold v (rule_Threshold r) (rule_Operator r))
                  (re_rules e)
     in (if f_finite v
         then publish_all (re_cloudClient e) (re_alertTopic e) (map alert_json (alerts_from env m v l k hits)) c
         else c,
         k + length hits))"
proof -
  have eq: "breached m v = (\<lambda>r. rule_MetricName r = m \<and> checkThreshold v (rule_Threshold r) (rule_Operator r))"
    by (simp add: fun_eq_iff breached_def)
  have "\<forall>r \<in> set (filter (breached m v) (re_rules e)). f_finite (rule_Threshold r)"
    using assms(3) by (auto simp: list_all_iff)
  from fold_trigger [OF assms(1) _ this assms(2)] fold_trigger_infinite [OF _ assms(2)] show ?thesis
    by (simp add: Evaluate_def evaluate_filter Let_def eq)
qed

text \<open>A client that is always connected and logs what is published, for the instances.\<close>

definition logging_cloud :: "(string \<times> json) list cloud_ops" where
  "logging_cloud = \<lparr>op_IsConnected = \<lambda>_. True, op_Publish = \<lambda>c topic d. (c @ [(topic, d)], None),
     op_SendTelemetry = \<lambda>c t. (c @ [(''telemetry'', telemetry_json t)], None)\<rparr>"

definition sample_rules_env :: rules_env where
  "sample_rules_env = \<lparr>ru_clock = int, ru_show = \<lambda>_. ''x''\<rparr>"

lemma evaluate_publishes_breaches_witness:
  "Evaluate (NewRulesEngine logging_cloud ''alerts'') sample_rules_env ''gateway_commands_dropped_total''
     (Fin 6) [] ([], 0) =
   ([(''alerts'', alert_json (rule_alert sample_rules_env (NewEngine_rules ! 0)
        ''gateway_commands_dropped_total'' (Fin 6) [] 0))], 1)"
  using evaluate_publishes_breaches [of "NewRulesEngine logging_cloud ''alerts''" "[]" sample_rules_env
      "''gateway_commands_dropped_total''" "Fin 6" "[]" 0]
  by (simp add: NewRulesEngine_def logging_cloud_def NewEngine_rules_def checkThreshold_def sample_rules_env_def)

end
