(* ===== verification/Publisher.thy ===== *)
theory Publisher
  imports Rules
begin

text \<open>
  \<open>internal/observability/publisher.go\<close>: the publisher that scrapes the local metrics
  endpoint and sends the configured metrics to the cloud, evaluating every sample against the
  rules.  The parsed exposition format comes from a library; of its types only what the
  getters used here return is modelled.
\<close>

section \<open>Scraped metrics\<close>

datatype metric_type = COUNTER | GAUGE | SUMMARY | UNTYPED | HISTOGRAM | OtherType

text \<open>
  A metric by its getters: the value of the counter, gauge or untyped sample if present, and
  the sample count and sum of the histogram or summary if present.
\<close>

record metric =
  m_GetLabel :: "(string \<times> string) list"
  m_GetCounter :: "float64 option"
  m_GetGauge :: "float64 option"
  m_GetUntyped :: "float64 option"
  m_GetHistogram :: "(64 word \<times> float64) option"
  m_GetSummary :: "(64 word \<times> float64) option"

record metric_family =
  mf_GetType :: metric_type
  mf_GetMetric :: "metric list"

definition extractDirectValue :: "metric_type \<Rightarrow> metric \<Rightarrow> float64 option" where
  "extractDirectValue fType m =
     (case fType of
        COUNTER \<Rightarrow> m_GetCounter m
      | GAUGE \<Rightarrow> m_GetGauge m
      | UNTYPED \<Rightarrow> m_GetUntyped m
      | HISTOGRAM \<Rightarrow> map_option (\<lambda>h. f_of_u64 (fst h)) (m_GetHistogram m)
      | SUMMARY \<Rightarrow> map_option (\<lambda>s. f_of_u64 (fst s)) (m_GetSummary m)
      | OtherType \<Rightarrow> None)"

definition extractDerivedValue :: "metric_type \<Rightarrow> string \<Rightarrow> metric \<Rightarrow> float64 option" where
  "extractDerivedValue fType sfx m =
     (if sfx = ''_count''
      then (case fType of
              HISTOGRAM \<Rightarrow> map_option (\<lambda>h. f_of_u64 (fst h)) (m_GetHistogram m)
            | SUMMARY \<Rightarrow> map_option (\<lambda>s. f_of_u64 (fst s)) (m_GetSummary m)
            | _ \<Rightarrow> None)
      else if sfx = ''_sum''
      then (case fType of
              HISTOGRAM \<Rightarrow> map_option snd (m_GetHistogram m)
            | SUMMARY \<Rightarrow> map_option snd (m_GetSummary m)
            | _ \<Rightarrow> None)
      else if sfx = ''_total''
      then (if fType = COUNTER then m_GetCounter m else None)
      else None)"

definition labelPairsToMap :: "(string \<times> string) list \<Rightarrow> string gomap" where
  "labelPairsToMap pairs = put_all [] pairs"

fun split_suffix :: "string list \<Rightarrow> string \<Rightarrow> (string \<times> string) option" where
  "split_suffix [] metricName = None"
| "split_suffix (s # ss) metricName =
     (if has_suffix metricName s \<and> trim_suffix metricName s \<noteq> []
      then Some (trim_suffix metricName s, s)
      else split_suffix ss metricName)"

definition splitDerivedSuffix :: "string \<Rightarrow> (string \<times> string) option" where
  "splitDerivedSuffix metricName = split_suffix [''_bucket'', ''_count'', ''_sum'', ''_total''] metricName"

section \<open>The publisher\<close>

text \<open>
  The state is the cloud client's, with the number of clock readings so far.  \<open>pub_rulesEngine\<close>
  is the \<open>Evaluate\<close> of the \<open>metricEvaluator\<close>.
\<close>

type_synonym 'c evaluator =
  "string \<Rightarrow> float64 \<Rightarrow> string gomap \<Rightarrow> 'c \<times> nat \<Rightarrow> 'c \<times> nat"

record 'c publisher =
  pub_prometheusURL :: string
  pub_metrics :: "string list"
  pub_interval :: duration
  pub_topic :: string
  pub_cloudClient :: "'c cloud_ops"
  pub_rulesEngine :: "'c evaluator"

definition nopMetricEvaluator :: "'c evaluator" where
  "nopMetricEvaluator metricName value labels s = s"

definition newPrometheusPublisher :: "string \<Rightarrow> string list \<Rightarrow> duration \<Rightarrow> string \<Rightarrow>
    'c cloud_ops \<Rightarrow> 'c evaluator option \<Rightarrow> 'c publisher" where
  "newPrometheusPublisher prometheusURL metrics interval topic cloudClient evaluator =
     \<lparr>pub_prometheusURL = prometheusURL, pub_metrics = metrics, pub_interval = interval,
      pub_topic = topic, pub_cloudClient = cloudClient,
      pub_rulesEngine = (case evaluator of None \<Rightarrow> nopMetricEvaluator | Some ev \<Rightarrow> ev)\<rparr>"

definition NewPrometheusPublisher :: "rules_env \<Rightarrow> string \<Rightarrow> string list \<Rightarrow> duration \<Rightarrow> string \<Rightarrow>
    'c cloud_ops \<Rightarrow> 'c publisher" where
  "NewPrometheusPublisher env prometheusURL metrics interval topic cloudClient =
     newPrometheusPublisher prometheusURL metrics interval topic cloudClient
       (Some (Evaluate (NewRulesEngine cloudClient ''devices/edge-gateway-sim/messages/events/alerts'') env))"

definition published_json :: "string \<Rightarrow> float64 \<Rightarrow> string gomap \<Rightarrow> time \<Rightarrow> json" where
  "published_json metricName value labels now = JObj
     [(''metric'', JStr metricName), (''value'', JNum value), (''labels'', json_map JStr labels),
      (''timestamp'', JTime now)]"

definition publishPayload :: "'c publisher \<Rightarrow> json \<Rightarrow> 'c \<times> nat \<Rightarrow> ('c \<times> nat) \<times> go_error option" where
  "publishPayload p payload s =
     (case json_Marshal payload of
        Inl err \<Rightarrow> (s, Some (wrap_last ''failed to marshal published metric JSON'' err))
      | Inr payloadBytes \<Rightarrow>
          (case op_Publish (pub_cloudClient p) (fst s) (pub_topic p) payloadBytes of
             (c', Some err) \<Rightarrow> ((c', snd s), Some (wrap_last ''failed to publish to cloud client'' err))
           | (c', None) \<Rightarrow> ((c', snd s), None)))"

text \<open>The loop that \<open>publishFamily\<close> and \<open>publishDerivedField\<close> share, by the extractor.\<close>

fun publish_series :: "'c publisher \<Rightarrow> (metric \<Rightarrow> float64 option) \<Rightarrow> string \<Rightarrow> time \<Rightarrow>
    metric list \<Rightarrow> 'c \<times> nat \<Rightarrow> ('c \<times> nat) \<times> go_error option" where
  "publish_series p extract metricName now [] s = (s, None)"
| "publish_series p extract metricName now (m # ms) s =
     (case extract m of
        None \<Rightarrow> publish_series p extract metricName now ms s
      | Some value \<Rightarrow>
          (let labels = labelPairsToMap (m_GetLabel m);
               s1 = pub_rulesEngine p metricName value labels s
           in case publishPayload p (published_json metricName value labels now) s1 of
                (s2, Some err) \<Rightarrow> (s2, Some err)
              | (s2, None) \<Rightarrow> publish_series p extract metricName now ms s2))"

definition publishFamily :: "'c publisher \<Rightarrow> metric_family \<Rightarrow> string \<Rightarrow> time \<Rightarrow>
    'c \<times> nat \<Rightarrow> ('c \<times> nat) \<times> bool \<times> go_error option" where
  "publishFamily p family metricName now s =
     (if mf_GetMetric family = [] then (s, False, None)
      else (let (s', err) = publish_series p (extractDirectValue (mf_GetType family))
                              metricName now (mf_GetMetric family) s
            in (s', True, err)))"

definition publishDerivedField :: "'c publisher \<Rightarrow> metric_family \<Rightarrow> string \<Rightarrow> string \<Rightarrow> time \<Rightarrow>
    'c \<times> nat \<Rightarrow> ('c \<times> nat) \<times> bool \<times> go_error option" where
  "publishDerivedField p family metricName sfx now s =
     (if mf_GetMetric family = [] then (s, False, None)
      else (let (s', err) = publish_series p (extractDerivedValue (mf_GetType family) sfx)
                              metricName now (mf_GetMetric family) s
            in (s', True, err)))"

definition extractAndPublish :: "'c publisher \<Rightarrow> metric_family gomap \<Rightarrow> string \<Rightarrow> time \<Rightarrow>
    'c \<times> nat \<Rightarrow> ('c \<times> nat) \<times> bool \<times> go_error option" where
  "extractAndPublish p families metricName now s =
     (case go_get families metricName of
        Some family \<Rightarrow> publishFamily p family metricName now s
      | None \<Rightarrow>
          (case splitDerivedSuffix metricName of
             None \<Rightarrow> (s, False, None)
           | Some (baseName, sfx) \<Rightarrow>
               (case go_get families baseName of
                  None \<Rightarrow> (s, False, None)
                | Some family \<Rightarrow> publishDerivedField p family metricName sfx now s)))"

section \<open>Scraping\<close>

record 'body scrape_env =
  sc_NewRequest :: "go_error option"
  sc_Do :: "go_error + (int \<times> 'body)"
  sc_Parse :: "'body \<Rightarrow> metric_family gomap result"

definition scrapeMetrics :: "'body scrape_env \<Rightarrow> metric_family gomap result" where
  "scrapeMetrics env =
     (case sc_NewRequest env of
        Some err \<Rightarrow> Inl (wrap_last ''failed to create http request'' err)
      | None \<Rightarrow>
          (case sc_Do env of
             Inl err \<Rightarrow> Inl (wrap_last ''failed to execute http request'' err)
           | Inr (status, body) \<Rightarrow>
               (if status \<noteq> 200
                then Inl (OtherErr (''metrics endpoint returned status '' @ show_int status))
                else
                  (case sc_Parse env body of
                     Inl err \<Rightarrow> Inl (wrap_last ''failed to parse prometheus exposition format'' err)
                   | Inr families \<Rightarrow> Inr families))))"

section \<open>A publish cycle\<close>

text \<open>The counters that the cycle logs at its end.\<close>

record cycle_stats =
  cs_found :: nat
  cs_not_found :: nat
  cs_failed :: nat
  cs_published_ok :: nat
  cs_families :: nat

definition no_stats :: cycle_stats where
  "no_stats = \<lparr>cs_found = 0, cs_not_found = 0, cs_failed = 0, cs_published_ok = 0, cs_families = 0\<rparr>"

text \<open>\<open>finished k\<close>: the context is done at the \<open>k\<close>-th test of the cycle.\<close>

fun publish_list :: "'c publisher \<Rightarrow> (nat \<Rightarrow> bool) \<Rightarrow> metric_family gomap \<Rightarrow> time \<Rightarrow> nat \<Rightarrow>
    string list \<Rightarrow> cycle_stats \<Rightarrow> 'c \<times> nat \<Rightarrow> ('c \<times> nat) \<times> cycle_stats" where
  "publish_list p finished families now k [] st s = (s, st)"
| "publish_list p finished families now k (metricName # names) st s =
     (if finished k then (s, st)
      else
        (case extractAndPublish p families metricName now s of
           (s', published, Some err) \<Rightarrow>
             publish_list p finished families now (Suc k) names (st\<lparr>cs_failed := Suc (cs_failed st)\<rparr>) s'
         | (s', False, None) \<Rightarrow>
             publish_list p finished families now (Suc k) names
               (st\<lparr>cs_not_found := Suc (cs_not_found st)\<rparr>) s'
         | (s', True, None) \<Rightarrow>
             publish_list p finished families now (Suc k) names
               (st\<lparr>cs_found := Suc (cs_found st), cs_published_ok := Suc (cs_published_ok st)\<rparr>) s'))"

definition publishMetrics :: "'c publisher \<Rightarrow> rules_env \<Rightarrow> (nat \<Rightarrow> bool) \<Rightarrow> 'body scrape_env \<Rightarrow>
    'c \<times> nat \<Rightarrow> ('c \<times> nat) \<times> cycle_stats" where
  "publishMetrics p env finished scrape s =
     (if finished 0 then (s, no_stats)
      else
        (case scrapeMetrics scrape of
           Inl err \<Rightarrow> (s, no_stats)
         | Inr families \<Rightarrow>
             (let st = no_stats\<lparr>cs_families := length families\<rparr>
              in if \<not> op_IsConnected (pub_cloudClient p) (fst s) then (s, st)
                 else publish_list p finished families (ru_clock env (snd s)) 1 (pub_metrics p) st
                        (fst s, Suc (snd s)))))"

section \<open>The publisher's goroutine\<close>

text \<open>
  \<open>waitForCloud\<close>: each entry is a tick of its ticker, with what \<open>IsConnected\<close> says then,
  or \<open>None\<close> when the context ends the wait.  The result says whether the wait is over.
\<close>

fun wait_ticks :: "bool option list \<Rightarrow> bool" where
  "wait_ticks [] = False"
| "wait_ticks (None # evs) = True"
| "wait_ticks (Some isConn # evs) = (if isConn then True else wait_ticks evs)"

definition waitForCloud :: "bool \<Rightarrow> bool option list \<Rightarrow> bool" where
  "waitForCloud isConn evs = (if isConn then True else wait_ticks evs)"

text \<open>
  A cycle of \<open>Start\<close>: what happens to the cloud client meanwhile, what the scrape meets and
  when the context is done.  \<open>None\<close> in the list is the loop taking \<open>ctx.Done()\<close>.
\<close>

record ('c, 'body) cycle =
  cy_outside :: "'c \<Rightarrow> 'c"
  cy_scrape :: "'body scrape_env"
  cy_done :: "nat \<Rightarrow> bool"

definition run_cycle :: "'c publisher \<Rightarrow> rules_env \<Rightarrow> ('c, 'body) cycle \<Rightarrow> 'c \<times> nat \<Rightarrow> 'c \<times> nat" where
  "run_cycle p env cy s = fst (publishMetrics p env (cy_done cy) (cy_scrape cy) (cy_outside cy (fst s), snd s))"

fun publish_ticks :: "'c publisher \<Rightarrow> rules_env \<Rightarrow> ('c, 'body) cycle option list \<Rightarrow> 'c \<times> nat \<Rightarrow> 'c \<times> nat" where
  "publish_ticks p env [] s = s"
| "publish_ticks p env (None # evs) s = s"
| "publish_ticks p env (Some cy # evs) s = publish_ticks p env evs (run_cycle p env cy s)"

text \<open>\<open>time.NewTicker\<close> panics unless the interval is positive.\<close>

definition StartPublisher :: "'c publisher \<Rightarrow> rules_env \<Rightarrow> bool option list \<Rightarrow> ('c, 'body) cycle \<Rightarrow>
    ('c, 'body) cycle option list \<Rightarrow> 'c \<times> nat \<Rightarrow> ('c \<times> nat) outcome" where
  "StartPublisher p env waits first evs s =
     (if sint (pub_interval p) \<le> 0 then Panic ''non-positive interval for NewTicker''
      else if waitForCloud (op_IsConnected (pub_cloudClient p) (fst s)) waits
      then Ret (publish_ticks p env evs (run_cycle p env first s))
      else Ret s)"

section \<open>Lemmas\<close>

lemma newPublisher_simps [simp]:
  "pub_metrics (newPrometheusPublisher u ms i t ops ev) = ms"
  "pub_topic (newPrometheusPublisher u ms i t ops ev) = t"
  "pub_cloudClient (newPrometheusPublisher u ms i t ops ev) = ops"
  "pub_rulesEngine (newPrometheusPublisher u ms i t ops ev) =
     (case ev of None \<Rightarrow> nopMetricEvaluator | Some f \<Rightarrow> f)"
  by (simp_all add: newPrometheusPublisher_def)

lemma trim_suffix_Some: "has_suffix m s \<longleftrightarrow> m = trim_suffix m s @ s"
  by (metis suffixE suffixI trim_suffix_append)

lemma split_suffix_Some:
  "split_suffix ss m = Some (b, s) \<Longrightarrow> m = b @ s \<and> b \<noteq> [] \<and> s \<in> set ss"
  by (induction ss) (auto simp: trim_suffix_Some split: if_splits)

lemma split_suffix_None: "split_suffix ss m = None \<Longrightarrow> s \<in> set ss \<Longrightarrow> m = b @ s \<Longrightarrow> b = []"
proof (induction ss)
  case (Cons t ss)
  then show ?case by (cases "s = t") (auto simp: suffix_def split: if_splits)
qed simp

lemma published_json_finite [simp]: "json_finite (published_json m v l now) = f_finite v"
  by (simp add: published_json_def)

section \<open>The documents of a family\<close>

fun series_docs :: "(metric \<Rightarrow> float64 option) \<Rightarrow> string \<Rightarrow> time \<Rightarrow> metric list \<Rightarrow> json list" where
  "series_docs extract name now [] = []"
| "series_docs extract name now (m # ms) =
     (case extract m of
        None \<Rightarrow> series_docs extract name now ms
      | Some v \<Rightarrow> published_json name v (labelPairsToMap (m_GetLabel m)) now # series_docs extract name now ms)"

lemma publishPayload_infinite:
  "\<not> json_finite d \<Longrightarrow> publishPayload p d s = (s, Some (wrap_last ''failed to marshal published metric JSON''
     (OtherErr ''json: unsupported value'')))"
  by (simp add: publishPayload_def json_Marshal_def)

lemma publishPayload_finite:
  "json_finite d \<Longrightarrow> publishPayload p d (c, k) =
     (case op_Publish (pub_cloudClient p) c (pub_topic p) d of
        (c', e) \<Rightarrow> ((c', k), map_option (wrap_last ''failed to publish to cloud client'') e))"
  by (simp add: publishPayload_def json_Marshal_def split: prod.split option.split)

lemma publishPayload_state:
  "json_finite d \<Longrightarrow>
     fst (publishPayload p d s) = (fst (op_Publish (pub_cloudClient p) (fst s) (pub_topic p) d), snd s)"
  by (simp add: publishPayload_def json_Marshal_def split: prod.split option.split)

lemma publishDerived_state:
  "mf_GetMetric family \<noteq> [] \<Longrightarrow> fst (publishDerivedField p family name sfx now s) =
     fst (publish_series p (extractDerivedValue (mf_GetType family) sfx) name now (mf_GetMetric family) s)"
  by (simp add: publishDerivedField_def split: prod.split)

section \<open>What a cloud client was given\<close>

text \<open>
  \<open>sent_log c\<close> lists the publications that a client has been given so far, each with its topic and
  its error, if any; a client with such a log is one that records them.
\<close>

definition publish_log :: "'c cloud_ops \<Rightarrow> ('c \<Rightarrow> (string \<times> json \<times> go_error option) list) \<Rightarrow> bool" where
  "publish_log ops sent_log \<longleftrightarrow> (\<forall>c topic d. sent_log (fst (op_Publish ops c topic d)) =
     sent_log c @ [(topic, d, snd (op_Publish ops c topic d))])"

definition on_topic :: "string \<Rightarrow> (string \<times> json \<times> go_error option) list \<Rightarrow> (json \<times> go_error option) list" where
  "on_topic topic entries = map snd (filter (\<lambda>e. fst e = topic) entries)"

lemma on_topic_append [simp]: "on_topic topic (xs @ ys) = on_topic topic xs @ on_topic topic ys"
  by (simp add: on_topic_def)

lemma on_topic_simps [simp]:
  "on_topic topic [] = []" "on_topic topic ((topic, r) # es) = r # on_topic topic es"
  "t \<noteq> topic \<Longrightarrow> on_topic topic ((t, r) # es) = on_topic topic es"
  by (simp_all add: on_topic_def)

lemma log_publish:
  "publish_log ops sent_log \<Longrightarrow> op_Publish ops c topic d = (c', e) \<Longrightarrow> sent_log c' = sent_log c @ [(topic, d, e)]"
  unfolding publish_log_def by (metis fst_conv snd_conv)

text \<open>The rules only publish on their own topic.\<close>

lemma triggerAlert_log:
  assumes "publish_log (re_cloudClient e) sent_log" and "topic \<noteq> re_alertTopic e"
  shows "on_topic topic (sent_log (fst (triggerAlert e env rule m v l s))) = on_topic topic (sent_log (fst s))"
  using assms(1) assms(2) [symmetric]
  by (simp add: triggerAlert_def publish_log_def split: sum.split)

lemma Evaluate_log:
  assumes "publish_log (re_cloudClient e) sent_log" and "topic \<noteq> re_alertTopic e"
  shows "on_topic topic (sent_log (fst (Evaluate e env m v l s))) = on_topic topic (sent_log (fst s))"
proof -
  have "on_topic topic (sent_log (fst (evaluate_rules e env rules m v l s))) = on_topic topic (sent_log (fst s))" for rules
    by (induction rules arbitrary: s) (simp_all add: triggerAlert_log [OF assms])
  then show ?thesis by (simp add: Evaluate_def)
qed

text \<open>How far the loop over the series gets, in terms of what the client was given.\<close>

fun sent_in_order :: "(json \<times> go_error option) list \<Rightarrow> json list \<Rightarrow> go_error option \<Rightarrow> bool" where
  "sent_in_order sent [] err = (sent = [] \<and> err = None)"
| "sent_in_order sent (d # docs) err =
     (case json_Marshal d of
        Inl e \<Rightarrow> sent = [] \<and> err = Some (wrap_last ''failed to marshal published metric JSON'' e)
      | Inr bytes \<Rightarrow>
          (case sent of
             [] \<Rightarrow> False
           | (given, result) # later \<Rightarrow> given = bytes \<and>
               (case result of
                  Some e \<Rightarrow> later = [] \<and> err = Some (wrap_last ''failed to publish to cloud client'' e)
                | None \<Rightarrow> sent_in_order later docs err)))"

lemma publish_series_sent:
  assumes "publish_log (pub_cloudClient p) sent_log"
    and "\<And>v l s. on_topic (pub_topic p) (sent_log (fst (pub_rulesEngine p name v l s))) = on_topic (pub_topic p) (sent_log (fst s))"
  shows "publish_series p extract name now ms s = (s', err) \<Longrightarrow>
    \<exists>sent. on_topic (pub_topic p) (sent_log (fst s')) = on_topic (pub_topic p) (sent_log (fst s)) @ sent \<and>
      sent_in_order sent (series_docs extract name now ms) err"
proof (induction ms arbitrary: s)
  case Nil
  then show ?case by simp
next
  case (Cons m ms)
  show ?case
  proof (cases "extract m")
    case None
    with Cons show ?thesis by simp
  next
    case (Some v)
    let ?l = "labelPairsToMap (m_GetLabel m)"
    let ?d = "published_json name v ?l now"
    obtain c1 k1 where s1: "pub_rulesEngine p name v ?l s = (c1, k1)" by (metis surj_pair)
    have l1: "on_topic (pub_topic p) (sent_log c1) = on_topic (pub_topic p) (sent_log (fst s))" using assms(2) [of v ?l s] s1 by simp
    show ?thesis
    proof (cases "f_finite v")
      case False
      then have fin: "\<not> json_finite ?d" by simp
      with Cons.prems Some s1 have "s' = (c1, k1)" "err = Some (wrap_last ''failed to marshal published metric JSON'' (OtherErr ''json: unsupported value''))"
        by (simp_all add: publishPayload_infinite)
      with fin Some l1 show ?thesis by (simp add: json_Marshal_def)
    next
      case True
      obtain c2 e where pub: "op_Publish (pub_cloudClient p) c1 (pub_topic p) ?d = (c2, e)" by (metis surj_pair)
      note l2 = log_publish [OF assms(1) pub]
      have pay: "publishPayload p ?d (c1, k1) =
          ((c2, k1), map_option (wrap_last ''failed to publish to cloud client'') e)"
        using publishPayload_finite [of ?d p c1 k1] True pub by simp
      show ?thesis
      proof (cases e)
        case (Some er)
        with Cons.prems \<open>extract m = Some v\<close> s1 l1 l2 pay True show ?thesis
          by (auto simp: json_Marshal_def)
      next
        case None
        then have "publish_series p extract name now ms (c2, k1) = (s', err)"
          using Cons.prems Some s1 pay by simp
        from Cons.IH [OF this] obtain sent where sent:
          "on_topic (pub_topic p) (sent_log (fst s')) = on_topic (pub_topic p) (sent_log c2) @ sent"
          "sent_in_order sent (series_docs extract name now ms) err" by auto
        with Some None l1 l2 True show ?thesis
          by (intro exI [of _ "(?d, None) # sent"]) (simp add: json_Marshal_def)
      qed
    qed
  qed
qed

section \<open>The built-in rule on the number of commands\<close>






lemma publish_list_stats:
  "publish_list p finished fams now k names st s = (s', st') \<Longrightarrow>
     cs_found st' + cs_not_found st' + cs_failed st' \<le> cs_found st + cs_not_found st + cs_failed st + length names \<and>
     ((\<forall>i. \<not> finished i) \<longrightarrow>
       cs_found st' + cs_not_found st' + cs_failed st' = cs_found st + cs_not_found st + cs_failed st + length names) \<and>
     int (cs_published_ok st') - int (cs_found st') = int (cs_published_ok st) - int (cs_found st) \<and>
     cs_families st' = cs_families st"
proof (induction p finished fams now k names st s rule: publish_list.induct)
  case (2 p finished fams now k name names st s)
  obtain s1 b e where x: "extractAndPublish p fams name now s = (s1, b, e)" by (metis prod_cases3)
  show ?case
  proof (cases "finished k")
    case True
    with "2.prems" show ?thesis by auto
  next
    case False
    show ?thesis using "2.IH" [OF False x [symmetric]] "2.prems" False x
      by (cases b; cases e) simp_all
  qed
qed simp

lemma bucket_never_extracted: "extractDerivedValue t ''_bucket'' m = None"
  by (simp add: extractDerivedValue_def)

lemma publish_series_none:
  "\<forall>m \<in> set ms. extract m = None \<Longrightarrow> publish_series p extract name now ms s = (s, None)"
  by (induction ms) simp_all

text \<open>
  A bucket of a histogram counts as found and published, and nothing is published.
\<close>

lemma bucket_counts_as_published:
  assumes "go_get families (b @ ''_bucket'') = None" and "b \<noteq> []" and "go_get families b = Some family"
    and "mf_GetMetric family \<noteq> []"
  shows "extractAndPublish p families (b @ ''_bucket'') now s = (s, True, None)"
  using assms suffixI [of "b @ ''_bucket''" b "''_bucket''"]
  by (simp add: extractAndPublish_def splitDerivedSuffix_def publishDerivedField_def
      publish_series_none bucket_never_extracted)

section \<open>Properties\<close>

text \<open>C29: what the production publisher sends of a family.  Whatever the built-in rules make of the
  samples, and however the client fails, the documents of the series that have a value are given to
  the cloud client on the publisher's topic in order, each once, up to the end, or up to the first
  that cannot be marshalled, or up to and including the first that fails to be published; the
  error returned is that failure's, and none exactly when all went out.\<close>

theorem series_published_in_order:
  assumes "publish_log ops sent_log" and "topic \<noteq> ''devices/edge-gateway-sim/messages/events/alerts''"
    and "mf_GetMetric family \<noteq> []"
    and "publishFamily (NewPrometheusPublisher env url ms iv topic ops) family name now (c, k) = ((c', k'), found, err)"
  shows "found \<and> (\<exists>sent. on_topic topic (sent_log c') = on_topic topic (sent_log c) @ sent \<and>
    sent_in_order sent (series_docs (extractDirectValue (mf_GetType family)) name now (mf_GetMetric family)) err)"
proof -
  let ?p = "NewPrometheusPublisher env url ms iv topic ops"
  have p: "pub_cloudClient ?p = ops" "pub_topic ?p = topic"
    "pub_rulesEngine ?p = Evaluate (NewRulesEngine ops ''devices/edge-gateway-sim/messages/events/alerts'') env"
    by (simp_all add: NewPrometheusPublisher_def)
  have e: "re_cloudClient (NewRulesEngine ops tp) = ops" "re_alertTopic (NewRulesEngine ops tp) = tp" for tp
    by (simp_all add: NewRulesEngine_def)
  have run: "publish_series ?p (extractDirectValue (mf_GetType family)) name now (mf_GetMetric family) (c, k) = ((c', k'), err)"
    and found: "found" using assms(3,4) by (auto simp: publishFamily_def split: prod.splits)
  show ?thesis using found publish_series_sent [of ?p sent_log, OF _ _ run]
      Evaluate_log [of "NewRulesEngine ops ''devices/edge-gateway-sim/messages/events/alerts''" sent_log topic]
      assms(1,2) unfolding p e by simp
qed

text \<open>A client that logs what it is given, and refuses documents on the topic \<open>full\<close>.\<close>

definition recording_cloud :: "(string \<times> json \<times> go_error option) list cloud_ops" where
  "recording_cloud = \<lparr>op_IsConnected = \<lambda>_. True,
     op_Publish = \<lambda>c topic d. (let r = (if topic = ''full'' then Some ErrNetwork else None) in (c @ [(topic, d, r)], r)),
     op_SendTelemetry = \<lambda>c t. (c, None)\<rparr>"

lemma recording_cloud_log: "publish_log recording_cloud (\<lambda>c. c)"
  by (simp add: publish_log_def recording_cloud_def Let_def)

definition counter_metric :: "float64 \<Rightarrow> metric" where
  "counter_metric v = \<lparr>m_GetLabel = [], m_GetCounter = Some v, m_GetGauge = None, m_GetUntyped = None,
     m_GetHistogram = None, m_GetSummary = None\<rparr>"

lemma series_published_witness:
  "\<exists>c' k'. publishFamily (NewPrometheusPublisher sample_rules_env [] [] 0 ''t'' recording_cloud)
       \<lparr>mf_GetType = COUNTER, mf_GetMetric = [counter_metric (Fin 1), counter_metric (Fin 2)]\<rparr> ''a'' 7 ([], 0) =
       ((c', k'), True, None) \<and>
     on_topic ''t'' c' = [(published_json ''a'' (Fin 1) [] 7, None), (published_json ''a'' (Fin 2) [] 7, None)]"
proof -
  let ?p = "NewPrometheusPublisher sample_rules_env [] [] 0 ''t'' recording_cloud"
  let ?f = "\<lparr>mf_GetType = COUNTER, mf_GetMetric = [counter_metric (Fin 1), counter_metric (Fin 2)]\<rparr>"
  obtain c' k' found err where run: "publishFamily ?p ?f ''a'' 7 ([], 0) = ((c', k'), found, err)"
    by (metis prod.exhaust)
  have docs: "series_docs (extractDirectValue COUNTER) ''a'' 7 [counter_metric (Fin 1), counter_metric (Fin 2)] =
      [published_json ''a'' (Fin 1) [] 7, published_json ''a'' (Fin 2) [] 7]"
    by (simp add: extractDirectValue_def counter_metric_def labelPairsToMap_def)
  have "err = None"
    using run by (auto simp: publishFamily_def NewPrometheusPublisher_def extractDirectValue_def counter_metric_def
        Evaluate_def NewRulesEngine_def NewEngine_rules_def publishPayload_def json_Marshal_def recording_cloud_def Let_def)
  with series_published_in_order [OF recording_cloud_log _ _ run] docs run show ?thesis
    by (auto simp: json_Marshal_def split: list.splits option.splits)
qed

text \<open>A publish cycle that cannot scrape, or finds the cloud client disconnected, leaves
  the client alone.  One that runs through accounts for every configured metric exactly once,
  as found, not found or failed, and reports as published those it found; a cancelled
  one accounts for at most all of them.\<close>

lemma cycle_accounting:
  "case publishMetrics p env finished scrape s of (s', st) \<Rightarrow>
     cs_found st + cs_not_found st + cs_failed st \<le> length (pub_metrics p) \<and>
     cs_published_ok st = cs_found st \<and>
     (isl (scrapeMetrics scrape) \<or> \<not> op_IsConnected (pub_cloudClient p) (fst s) \<longrightarrow>
        s' = s \<and> cs_found st + cs_not_found st + cs_failed st = 0) \<and>
     (\<not> isl (scrapeMetrics scrape) \<and> op_IsConnected (pub_cloudClient p) (fst s) \<and> (\<forall>i. \<not> finished i) \<longrightarrow>
        cs_found st + cs_not_found st + cs_failed st = length (pub_metrics p))"
proof (cases "scrapeMetrics scrape")
  case (Inl e)
  then show ?thesis by (simp add: publishMetrics_def no_stats_def)
next
  case (Inr fams)
  obtain s1 st1 where l: "publish_list p finished fams (ru_clock env (snd s)) 1 (pub_metrics p)
      (no_stats\<lparr>cs_families := length fams\<rparr>) (fst s, Suc (snd s)) = (s1, st1)" by (metis surj_pair)
  from publish_list_stats [OF l] Inr l show ?thesis
    by (auto simp: publishMetrics_def no_stats_def Let_def)
qed



end
