(* ===== verification/AzureCloud.thy ===== *)
theory AzureCloud
  imports Domain
begin

text \<open>
  \<open>internal/adapters/cloud/azure_mqtt.go\<close>: the cloud client.  The MQTT library
  (\<open>paho.mqtt.golang\<close>) is not part of the sources: the operations of its client are a
  parameter, over its state.  Its two handlers run when the library calls them, so they are
  operations of their own here, \<open>OnConnect\<close> and \<open>ConnectionLost\<close>.
\<close>

section \<open>The MQTT library\<close>

text \<open>
  A token is complete, with its error, or \<open>WaitTimeout\<close> gives up on it.  A callback is
  the name the client knows it by; what it does with a message is \<open>on_message\<close> below.
  Two observers of the library's state are not called by the code, and say what it does on
  its own: \<open>mq_IsConnectionOpen\<close>, whether the network connection is up (\<open>IsConnected\<close> holds also
  while it reconnects), and \<open>mq_Handler\<close>, its message router: the callback of a topic.
\<close>

datatype token = Complete "go_error option" | Incomplete

record mqtt_options =
  mo_Broker :: string
  mo_ClientID :: string
  mo_Username :: string
  mo_AutoReconnect :: bool
  mo_MaxReconnectInterval :: duration

record ('p, 'cb) mqtt_lib =
  mq_NewClient :: "mqtt_options \<Rightarrow> 'p"
  mq_Connect :: "'p \<Rightarrow> 'p \<times> go_error option"
  mq_Disconnect :: "'p \<Rightarrow> 'p"
  mq_IsConnected :: "'p \<Rightarrow> bool"
  mq_IsConnectionOpen :: "'p \<Rightarrow> bool"
  mq_Handler :: "'p \<Rightarrow> string \<Rightarrow> 'cb option"
  mq_Subscribe :: "'p \<Rightarrow> string \<Rightarrow> nat \<Rightarrow> 'cb \<Rightarrow> 'p"
  mq_Publish :: "'p \<Rightarrow> string \<Rightarrow> nat \<Rightarrow> json \<Rightarrow> 'p \<times> token"

section \<open>The client\<close>

record ('p, 'cb) azure =
  az_hostname :: string
  az_deviceID :: string
  az_client :: "'p option"
  az_callbacks :: "'cb list"
  az_connected :: bool

definition NewAzureMQTTClient :: "string \<Rightarrow> ('p, 'cb) azure" where
  "NewAzureMQTTClient hostname = \<lparr>az_hostname = hostname, az_deviceID = ''edge-gateway-sim'',
     az_client = None, az_callbacks = [], az_connected = False\<rparr>"

definition azure_options :: "('p, 'cb) azure \<Rightarrow> mqtt_options" where
  "azure_options c = \<lparr>mo_Broker = ''tls://'' @ az_hostname c @ '':8883'',
     mo_ClientID = az_deviceID c,
     mo_Username = az_hostname c @ ''/'' @ az_deviceID c @ ''/?api-version=2021-04-12'',
     mo_AutoReconnect = True, mo_MaxReconnectInterval = seconds 10\<rparr>"

definition c2d_topic :: "('p, 'cb) azure \<Rightarrow> string" where
  "c2d_topic c = ''devices/'' @ az_deviceID c @ ''/messages/devicebound/#''"

definition d2c_topic :: "('p, 'cb) azure \<Rightarrow> string" where
  "d2c_topic c = ''devices/'' @ az_deviceID c @ ''/messages/events/''"

text \<open>\<open>Connect\<close>; \<open>cert\<close> is the error of \<open>LoadX509KeyPair\<close>, if any.\<close>

definition Connect :: "('p, 'cb) mqtt_lib \<Rightarrow> go_error option \<Rightarrow> ('p, 'cb) azure \<Rightarrow>
    ('p, 'cb) azure \<times> go_error option" where
  "Connect lib cert c =
     (case cert of
        Some err \<Rightarrow> (c, Some (wrap_last ''could not load x509 key pair'' err))
      | None \<Rightarrow>
          (let (p, err) = mq_Connect lib (mq_NewClient lib (azure_options c))
           in (c\<lparr>az_client := Some p\<rparr>, err)))"

text \<open>The handler set with \<open>SetOnConnectHandler\<close>: it resubscribes every callback.\<close>

definition OnConnect :: "('p, 'cb) mqtt_lib \<Rightarrow> ('p, 'cb) azure \<Rightarrow> ('p, 'cb) azure" where
  "OnConnect lib c = c\<lparr>az_connected := True,
     az_client := map_option (\<lambda>p. fold (\<lambda>cb p. mq_Subscribe lib p (c2d_topic c) 1 cb) (az_callbacks c) p)
       (az_client c)\<rparr>"

definition ConnectionLost :: "('p, 'cb) azure \<Rightarrow> ('p, 'cb) azure" where
  "ConnectionLost c = c\<lparr>az_connected := False\<rparr>"

definition Disconnect :: "('p, 'cb) mqtt_lib \<Rightarrow> ('p, 'cb) azure \<Rightarrow> ('p, 'cb) azure" where
  "Disconnect lib c =
     c\<lparr>az_client := map_option (mq_Disconnect lib) (az_client c), az_connected := False\<rparr>"

definition IsConnected :: "('p, 'cb) mqtt_lib \<Rightarrow> ('p, 'cb) azure \<Rightarrow> bool" where
  "IsConnected lib c =
     (az_connected c \<and> (case az_client c of None \<Rightarrow> False | Some p \<Rightarrow> mq_IsConnected lib p))"

definition SubscribeToCommands :: "('p, 'cb) mqtt_lib \<Rightarrow> 'cb \<Rightarrow> ('p, 'cb) azure \<Rightarrow>
    ('p, 'cb) azure" where
  "SubscribeToCommands lib cb c =
     (let c1 = c\<lparr>az_callbacks := az_callbacks c @ [cb]\<rparr>
      in if IsConnected lib c1
         then c1\<lparr>az_client := map_option (\<lambda>p. mq_Subscribe lib p (c2d_topic c1) 1 cb) (az_client c1)\<rparr>
         else c1)"

text \<open>
  The message handler of a subscription: what the decoder makes of the payload is a
  parameter, the command or its error; the callback gets the command stamped with the clock.
\<close>

definition on_message :: "go_error + cloud_command \<Rightarrow> time \<Rightarrow> cloud_command option" where
  "on_message decoded now =
     (case decoded of
        Inl err \<Rightarrow> None
      | Inr cmd \<Rightarrow> Some (cmd\<lparr>cmd_IssuedAt := now\<rparr>))"

definition Publish :: "('p, 'cb) mqtt_lib \<Rightarrow> ('p, 'cb) azure \<Rightarrow> string \<Rightarrow> json \<Rightarrow>
    ('p, 'cb) azure \<times> go_error option" where
  "Publish lib c topic payload =
     (if \<not> IsConnected lib c then (c, Some (OtherErr ''cannot publish: not connected''))
      else
        (case az_client c of
           None \<Rightarrow> (c, Some (OtherErr ''cannot publish: not connected''))
         | Some p \<Rightarrow>
             (case mq_Publish lib p topic 1 payload of
                (p', Complete err) \<Rightarrow> (c\<lparr>az_client := Some p'\<rparr>, err)
              | (p', Incomplete) \<Rightarrow>
                  (c\<lparr>az_client := Some p'\<rparr>, Some (OtherErr ''publish timeout'')))))"

definition SendTelemetry :: "('p, 'cb) mqtt_lib \<Rightarrow> ('p, 'cb) azure \<Rightarrow> device_telemetry \<Rightarrow>
    ('p, 'cb) azure \<times> go_error option" where
  "SendTelemetry lib c telemetry =
     (case json_Marshal (telemetry_json telemetry) of
        Inl err \<Rightarrow> (c, Some err)
      | Inr payload \<Rightarrow> Publish lib c (d2c_topic c) payload)"

definition azure_ops :: "('p, 'cb) mqtt_lib \<Rightarrow> ('p, 'cb) azure cloud_ops" where
  "azure_ops lib = \<lparr>op_IsConnected = IsConnected lib, op_Publish = Publish lib,
     op_SendTelemetry = SendTelemetry lib\<rparr>"

lemma azure_ops_simps [simp]:
  "op_IsConnected (azure_ops lib) = IsConnected lib"
  "op_Publish (azure_ops lib) = Publish lib"
  "op_SendTelemetry (azure_ops lib) = SendTelemetry lib"
  by (simp_all add: azure_ops_def)

section \<open>The interface of a cloud client\<close>

text \<open>
  What the router, the rules and the publisher rely on: without a connection nothing is
  handed to the network and the caller gets an error; telemetry that can be marshalled is a
  publication on the client's telemetry topic, other telemetry is refused.
\<close>

locale cloud_client =
  fixes ops :: "'c cloud_ops" and topic :: "'c \<Rightarrow> string"
  assumes publish_offline: "\<not> op_IsConnected ops c \<Longrightarrow> \<exists>e. op_Publish ops c tp d = (c, Some e)"
    and send_publish: "json_finite (telemetry_json t) \<Longrightarrow>
        op_SendTelemetry ops c t = op_Publish ops c (topic c) (telemetry_json t)"
    and send_refused: "\<not> json_finite (telemetry_json t) \<Longrightarrow> \<exists>e. op_SendTelemetry ops c t = (c, Some e)"
begin

lemma send_offline: "\<not> op_IsConnected ops c \<Longrightarrow> \<exists>e. op_SendTelemetry ops c t = (c, Some e)"
  using publish_offline send_publish send_refused by (cases "json_finite (telemetry_json t)") auto

lemma send_success: "op_SendTelemetry ops c t = (c', None) \<Longrightarrow>
    op_IsConnected ops c \<and> json_finite (telemetry_json t) \<and>
    op_Publish ops c (topic c) (telemetry_json t) = (c', None)"
  using send_offline [of c t] send_publish [of t c] send_refused [of t c]
  by (cases "json_finite (telemetry_json t)"; cases "op_IsConnected ops c") auto

end

interpretation azure: cloud_client "azure_ops lib" d2c_topic for lib
  by unfold_locales (auto simp: Publish_def SendTelemetry_def json_Marshal_def)

section \<open>Subscriptions\<close>

text \<open>
  What the library documents of \<open>Subscribe\<close>: on an open connection the callback becomes the
  handler of its topic, in place of any earlier one, and the connection stays.  Without a connection
  nothing is said.
\<close>

definition mqtt_lib_ok :: "('p, 'cb) mqtt_lib \<Rightarrow> bool" where
  "mqtt_lib_ok lib \<longleftrightarrow>
     (\<forall>p. mq_IsConnectionOpen lib p \<longrightarrow> mq_IsConnected lib p) \<and>
     (\<forall>p tp q cb. mq_IsConnectionOpen lib p \<longrightarrow> mq_IsConnectionOpen lib (mq_Subscribe lib p tp q cb) \<and>
        mq_Handler lib (mq_Subscribe lib p tp q cb) = (mq_Handler lib p)(tp \<mapsto> cb))"

text \<open>The client has an open connection; the callback that gets the cloud-to-device messages.\<close>

definition open_connection :: "('p, 'cb) mqtt_lib \<Rightarrow> ('p, 'cb) azure \<Rightarrow> bool" where
  "open_connection lib c = (case az_client c of None \<Rightarrow> False | Some p \<Rightarrow> mq_IsConnectionOpen lib p)"

definition c2d_handler :: "('p, 'cb) mqtt_lib \<Rightarrow> ('p, 'cb) azure \<Rightarrow> 'cb option" where
  "c2d_handler lib c = (case az_client c of None \<Rightarrow> None | Some p \<Rightarrow> mq_Handler lib p (c2d_topic c))"

text \<open>The library can bring up a connection, whatever its handlers are.\<close>

definition connection_possible :: "('p, 'cb) mqtt_lib \<Rightarrow> bool" where
  "connection_possible lib \<longleftrightarrow>
     (\<forall>p. \<exists>q. mq_IsConnectionOpen lib q \<and> mq_Handler lib q = mq_Handler lib p)"

lemma mqtt_lib_okD:
  assumes "mqtt_lib_ok lib" and "mq_IsConnectionOpen lib p"
  shows "mq_IsConnected lib p" "mq_IsConnectionOpen lib (mq_Subscribe lib p tp q cb)"
    "mq_Handler lib (mq_Subscribe lib p tp q cb) = (mq_Handler lib p)(tp \<mapsto> cb)"
  using assms by (auto simp: mqtt_lib_ok_def)

lemma subscribe_all:
  assumes "mqtt_lib_ok lib"
  shows "mq_IsConnectionOpen lib p \<Longrightarrow>
    mq_IsConnectionOpen lib (fold (\<lambda>cb p. mq_Subscribe lib p tp q cb) cbs p) \<and>
    mq_Handler lib (fold (\<lambda>cb p. mq_Subscribe lib p tp q cb) cbs p) tp =
      (if cbs = [] then mq_Handler lib p tp else Some (last cbs))"
  by (induction cbs arbitrary: p) (simp_all add: mqtt_lib_okD [OF assms])

lemma OnConnect_handler:
  assumes "mqtt_lib_ok lib" and "open_connection lib c"
  shows "open_connection lib (OnConnect lib c) \<and> c2d_handler lib (OnConnect lib c) =
    (if az_callbacks c = [] then c2d_handler lib c else Some (last (az_callbacks c)))"
  using assms(2) subscribe_all [OF assms(1)]
  by (auto simp: open_connection_def c2d_handler_def OnConnect_def c2d_topic_def split: option.splits)

lemma Subscribe_handler:
  assumes "mqtt_lib_ok lib" and "open_connection lib c"
  shows "open_connection lib (SubscribeToCommands lib cb c)"
    "az_connected c \<Longrightarrow> c2d_handler lib (SubscribeToCommands lib cb c) = Some cb"
  using assms(2) mqtt_lib_okD [OF assms(1)]
  by (auto simp: open_connection_def c2d_handler_def SubscribeToCommands_def IsConnected_def c2d_topic_def Let_def
      split: option.splits)

lemma azure_frame [frame_simps]:
  "az_callbacks (OnConnect lib c) = az_callbacks c"
  "az_connected (OnConnect lib c)"
  "az_callbacks (SubscribeToCommands lib cb c) = az_callbacks c @ [cb]"
  "az_connected (SubscribeToCommands lib cb c) = az_connected c"
  by (simp_all add: OnConnect_def SubscribeToCommands_def Let_def)

section \<open>Properties\<close>

text \<open>C34: the order in which \<open>main\<close> registers its callback and the library reports the
  connection does not matter.  With an open connection, a callback registered before the library
  reports it, or after, ends up as the handler of the cloud-to-device topic, and stays it when the
  connection is reported again.  It is the only one: whatever callbacks were registered
  before, on this one topic each is replaced by the next, and only the last one ever gets a
  message.\<close>

theorem callback_subscribed_either_order:
  assumes "mqtt_lib_ok lib" and "open_connection lib c"
  shows "c2d_handler lib (OnConnect lib (SubscribeToCommands lib cb c)) = Some cb \<and>
    c2d_handler lib (SubscribeToCommands lib cb (OnConnect lib c)) = Some cb \<and>
    c2d_handler lib (OnConnect lib (SubscribeToCommands lib cb (OnConnect lib c))) = Some cb"
  using OnConnect_handler [OF assms(1)] Subscribe_handler [OF assms(1)] assms(2)
  by (simp add: frame_simps)

text \<open>A library whose state is the handlers of the topics and whether it is connected.\<close>

definition list_mqtt :: "((string \<times> string) list \<times> bool, string) mqtt_lib" where
  "list_mqtt = \<lparr>mq_NewClient = \<lambda>_. ([], False), mq_Connect = \<lambda>(s, _). ((s, True), None),
     mq_Disconnect = \<lambda>(s, _). (s, False), mq_IsConnected = snd, mq_IsConnectionOpen = snd,
     mq_Handler = \<lambda>p. map_of (fst p),
     mq_Subscribe = \<lambda>(s, b) tp _ cb. (if b then (tp, cb) # s else s, b),
     mq_Publish = \<lambda>p _ _ _. (p, Complete None)\<rparr>"

lemma list_mqtt_ok: "mqtt_lib_ok list_mqtt"
  by (simp add: mqtt_lib_ok_def list_mqtt_def)

lemma list_mqtt_connects: "connection_possible list_mqtt"
  by (auto simp: connection_possible_def list_mqtt_def)

lemma callback_subscribed_witness:
  "c2d_handler list_mqtt (OnConnect list_mqtt (SubscribeToCommands list_mqtt ''dispatch''
     ((NewAzureMQTTClient ''hub'')\<lparr>az_client := Some ([(''other'', ''cb'')], True)\<rparr>))) = Some ''dispatch''"
  using callback_subscribed_either_order [OF list_mqtt_ok, of
      "(NewAzureMQTTClient ''hub'')\<lparr>az_client := Some ([(''other'', ''cb'')], True)\<rparr>" "''dispatch''"]
  by (simp add: open_connection_def list_mqtt_def)

end
