(* ===== verification/Observability.thy ===== *)
theory Observability
  imports Domain
begin

text \<open>
  \<open>internal/observability/observability.go\<close>: the Prometheus collectors with their server,
  and the health server.  The collectors are a library's: the operations used on them are a parameter.  The
  health server's handlers are functions from the request to the response.
\<close>

section \<open>Metrics service\<close>

text \<open>
  The registry with both collectors: \<open>WithLabelValues(protocol, status).Observe(seconds)\<close>
  on the histogram, \<open>Inc\<close> on the counter, and \<open>MustRegister\<close>, which panics.
\<close>

record 'm prom_lib =
  pr_MustRegister :: "'m \<Rightarrow> string list \<Rightarrow> 'm outcome"
  pr_Observe :: "'m \<Rightarrow> string \<Rightarrow> string list \<Rightarrow> float64 \<Rightarrow> 'm"
  pr_Inc :: "'m \<Rightarrow> string \<Rightarrow> 'm"

definition latency_name :: string where
  "latency_name = ''gateway_command_latency_seconds''"

definition dropped_name :: string where
  "dropped_name = ''gateway_commands_dropped_total''"

definition newMetricsService :: "'m prom_lib \<Rightarrow> 'm \<Rightarrow> 'm outcome" where
  "newMetricsService lib m = pr_MustRegister lib m [latency_name, dropped_name]"

text \<open>\<open>Duration.Seconds\<close> is the parameter \<open>secs\<close>.\<close>

definition RecordCommandLatency ::
  "'m prom_lib \<Rightarrow> (int \<Rightarrow> float64) \<Rightarrow> 'm \<Rightarrow> protocol \<Rightarrow> string \<Rightarrow> int \<Rightarrow> 'm" where
  "RecordCommandLatency lib secs m protocol status latency =
     pr_Observe lib m latency_name [protocol, status] (secs latency)"

definition RecordCommandDropped :: "'m prom_lib \<Rightarrow> 'm \<Rightarrow> 'm" where
  "RecordCommandDropped lib m = pr_Inc lib m dropped_name"

definition prom_metrics_ops :: "'m prom_lib \<Rightarrow> (int \<Rightarrow> float64) \<Rightarrow> 'm metrics_ops" where
  "prom_metrics_ops lib secs = \<lparr>op_RecordCommandLatency = RecordCommandLatency lib secs,
     op_RecordCommandDropped = RecordCommandDropped lib\<rparr>"

lemma prom_metrics_ops_simps [simp]:
  "op_RecordCommandLatency (prom_metrics_ops lib secs) = RecordCommandLatency lib secs"
  "op_RecordCommandDropped (prom_metrics_ops lib secs) = RecordCommandDropped lib"
  by (simp_all add: prom_metrics_ops_def)

section \<open>Health service\<close>

text \<open>
  The service holds the cloud client and, if configured, the buffer; their states are the
  arguments of the handlers.
\<close>

record ('c, 'b) health =
  hs_cloudClient :: "'c cloud_ops"
  hs_buffer :: "'b buffer_ops option"
  hs_fetchEndpoint :: string
  hs_shuttingDown :: bool

definition NewHealthService :: "'c cloud_ops \<Rightarrow> 'b buffer_ops option \<Rightarrow> string \<Rightarrow> ('c, 'b) health" where
  "NewHealthService cloud buf fetchEndpoint = \<lparr>hs_cloudClient = cloud, hs_buffer = buf,
     hs_fetchEndpoint = fetchEndpoint, hs_shuttingDown = False\<rparr>"

datatype body = Plain string | Document json

record response =
  rsp_status :: int
  rsp_body :: body

definition reply :: "int \<Rightarrow> string \<Rightarrow> response" where
  "reply status txt = \<lparr>rsp_status = status, rsp_body = Plain txt\<rparr>"

definition handle_live :: "('c, 'b) health \<Rightarrow> response" where
  "handle_live h =
     (if hs_shuttingDown h then reply 503 ''Shutting Down'' else reply 200 ''OK'')"

definition handle_ready :: "('c, 'b) health \<Rightarrow> 'c \<Rightarrow> response" where
  "handle_ready h c =
     (if \<not> op_IsConnected (hs_cloudClient h) c then reply 503 ''Not connected to Azure IoT Hub''
      else reply 200 ''Ready'')"

definition item_json :: "buffered_item \<Rightarrow> json" where
  "item_json i = JObj [(''timestamp'', JTime (item_Timestamp i)),
     (''data_type'', JStr (item_DataType i)), (''payload'', item_Payload i)]"

text \<open>
  \<open>handleFetch\<close>: the encoder writes after the status has gone out, so its error only
  leaves the body empty.  \<open>http.Error\<close> ends the text with a line feed.
\<close>

definition handleFetch :: "('c, 'b) health \<Rightarrow> string \<Rightarrow> 'b \<Rightarrow> 'b \<times> response" where
  "handleFetch h method b =
     (if method \<noteq> ''GET'' then (b, reply 405 (''Method not allowed'' @ [CHR 0x0A]))
      else
        (let (b', fetched) = (case hs_buffer h of
                Some ops \<Rightarrow> op_Fetch ops b
              | None \<Rightarrow> (b, Inr []))
         in case fetched of
              Inl err \<Rightarrow> (b', reply 500 (''Internal server error'' @ [CHR 0x0A]))
            | Inr items \<Rightarrow>
                (case json_Marshal (JArr (map item_json items)) of
                   Inl err \<Rightarrow> (b', reply 200 [])
                 | Inr doc \<Rightarrow> (b', \<lparr>rsp_status = 200, rsp_body = Document doc\<rparr>))))"

definition Shutdown :: "('c, 'b) health \<Rightarrow> ('c, 'b) health" where
  "Shutdown h = h\<lparr>hs_shuttingDown := True\<rparr>"

text \<open>
  \<open>Start\<close>: the routes.  A pattern without a slash is invalid, and registering it panics, as does
  registering a path a second time.  A request is served by the route with its path, and otherwise
  not found.  This is so for plain patterns: those that name a subtree, a method, a host or a
  wildcard, or that are not clean, are not modelled.
\<close>

definition plain_route :: "string \<Rightarrow> bool" where
  "plain_route p \<longleftrightarrow> take 1 p = ''/'' \<and> last p \<noteq> CHR ''/'' \<and>
     list_all (\<lambda>c. c \<notin> {CHR '' '', CHR 0x09, CHR ''{'', CHR ''%''}) p \<and>
     \<not> sublist ''//'' p \<and> \<not> sublist ''/.'' p"

datatype route = RouteLive | RouteReady | RouteFetch

definition health_routes :: "('c, 'b) health \<Rightarrow> (string \<times> route) list outcome" where
  "health_routes h =
     (if hs_fetchEndpoint h = []
      then Ret [(''/health/live'', RouteLive), (''/health/ready'', RouteReady)]
      else if CHR ''/'' \<notin> set (hs_fetchEndpoint h) then Panic ''http: invalid pattern''
      else if hs_fetchEndpoint h \<in> {''/health/live'', ''/health/ready''}
      then Panic ''http: multiple registrations''
      else Ret [(''/health/live'', RouteLive), (''/health/ready'', RouteReady),
                (hs_fetchEndpoint h, RouteFetch)])"

definition serve_health :: "('c, 'b) health \<Rightarrow> (string \<times> route) list \<Rightarrow> string \<Rightarrow> string \<Rightarrow>
    'c \<Rightarrow> 'b \<Rightarrow> 'b \<times> response" where
  "serve_health h routes method path c b =
     (case go_get routes path of
        None \<Rightarrow> (b, reply 404 (''404 page not found'' @ [CHR 0x0A]))
      | Some RouteLive \<Rightarrow> (b, handle_live h)
      | Some RouteReady \<Rightarrow> (b, handle_ready h c)
      | Some RouteFetch \<Rightarrow> handleFetch h method b)"

text \<open>
  \<open>MetricsService.Start\<close>: one route.  The handler that \<open>promhttp.HandlerFor\<close> makes of the
  gatherer is the library's, the parameter \<open>handler\<close>; requests only read the collectors.
\<close>

definition serve_metrics :: "('m \<Rightarrow> response) \<Rightarrow> 'm \<Rightarrow> string \<Rightarrow> response" where
  "serve_metrics handler m path =
     (if path = ''/metrics'' then handler m else reply 404 (''404 page not found'' @ [CHR 0x0A]))"

section \<open>Lemmas\<close>

lemma item_json_finite [simp]: "json_finite (item_json i) = json_finite (item_Payload i)"
  by (simp add: item_json_def)

lemma handleFetch_not_get:
  "m \<noteq> ''GET'' \<Longrightarrow> fst (handleFetch h m b) = b \<and> rsp_status (snd (handleFetch h m b)) = 405"
  by (simp add: handleFetch_def reply_def)

lemma handleFetch_get:
  "hs_buffer h = Some ops \<Longrightarrow> op_Fetch ops b = (b', Inr items) \<Longrightarrow>
     \<forall>i \<in> set items. json_finite (item_Payload i) \<Longrightarrow>
     handleFetch h ''GET'' b = (b', \<lparr>rsp_status = 200, rsp_body = Document (JArr (map item_json items))\<rparr>)"
  by (simp add: handleFetch_def json_Marshal_def list_all_iff)

lemma handleFetch_error:
  "hs_buffer h = Some ops \<Longrightarrow> op_Fetch ops b = (b', Inl err) \<Longrightarrow>
     fst (handleFetch h ''GET'' b) = b' \<and> rsp_status (snd (handleFetch h ''GET'' b)) = 500"
  by (simp add: handleFetch_def reply_def)

lemma serve_probes:
  "path \<noteq> hs_fetchEndpoint h \<Longrightarrow> health_routes h = Ret routes \<Longrightarrow>
     fst (serve_health h routes m path c b) = b"
  by (auto simp: serve_health_def health_routes_def split: if_splits option.splits route.splits)

end
