(* ===== verification/Southbound.thy ===== *)
theory Southbound
  imports PJLinkAdapter GoChannel
begin

text \<open>
  \<open>internal/adapters/southbound/tcp_communicator.go\<close>: framing, the request/response
  exchange with a device, the telemetry poller of a PJLink device, and the translation of
  network errors.  The device at the other end is data: what each byte-wise \<open>Read\<close>
  returns, and whether each \<open>Write\<close> and \<open>SetDeadline\<close> fails.  The texts of
  errors keep their words; the quoting of \<open>%q\<close> is left out.
\<close>

section \<open>Connections\<close>

text \<open>
  One entry of \<open>con_incoming\<close> is the result of one \<open>Read\<close> of one byte: the byte, if
  any, and the error, if any.  When the list is used up the peer says nothing more, and the
  deadline that is set before every read turns the next \<open>Read\<close> into a time-out.
  \<open>con_write_errs\<close> and \<open>con_deadline_errs\<close> are the results of the successive
  \<open>Write\<close> and \<open>SetDeadline\<close> calls, success once used up; \<open>con_written\<close> is what was
  written, \<open>con_deadline\<close> the last deadline.
\<close>

type_synonym read_event = "char option \<times> go_error option"

record conn =
  con_incoming :: "read_event list"
  con_write_errs :: "go_error option list"
  con_deadline_errs :: "go_error option list"
  con_written :: "bytes list"
  con_deadline :: time

definition read_timeout :: go_error where
  "read_timeout = OpError ''read tcp'' (NetTimeout ''i/o timeout'')"

definition dial_timeout :: go_error where
  "dial_timeout = OpError ''dial tcp'' (NetTimeout ''i/o timeout'')"

definition conn_Write :: "conn \<Rightarrow> bytes \<Rightarrow> conn \<times> go_error option" where
  "conn_Write c p =
     (c\<lparr>con_written := con_written c @ [p], con_write_errs := tl (con_write_errs c)\<rparr>,
      (case con_write_errs c of [] \<Rightarrow> None | e # _ \<Rightarrow> e))"

definition conn_SetDeadline :: "conn \<Rightarrow> time \<Rightarrow> conn \<times> go_error option" where
  "conn_SetDeadline c t =
     (c\<lparr>con_deadline := t, con_deadline_errs := tl (con_deadline_errs c)\<rparr>,
      (case con_deadline_errs c of [] \<Rightarrow> None | e # _ \<Rightarrow> e))"

section \<open>Errors\<close>

definition categorizeNetworkError :: "go_error \<Rightarrow> string \<Rightarrow> go_error" where
  "categorizeNetworkError err contextMsg =
     (if errors_is err CtxCanceled
      then wrap_first ErrTimeout (contextMsg @ '' (context canceled)'')
      else if errors_is err CtxDeadlineExceeded \<or> os_is_timeout err
      then wrap_first ErrTimeout contextMsg
      else if errors_is err IoEOF
      then wrap_first ErrNetwork (contextMsg @ '' (unexpected EOF)'')
      else wrap_first ErrNetwork (contextMsg @ '' ('' @ error_text err @ '')''))"

section \<open>Framing\<close>

definition maxPJLinkFrameBytes :: nat where
  "maxPJLinkFrameBytes = 1024"

definition frame_error :: "bytes \<Rightarrow> go_error \<Rightarrow> bytes \<times> go_error option" where
  "frame_error buf err =
     (if buf \<noteq> [] then (buf, Some (categorizeNetworkError err ''incomplete frame read''))
      else ([], Some (categorizeNetworkError err ''read failed'')))"

definition frame_exceeded :: "nat \<Rightarrow> go_error" where
  "frame_exceeded maxBytes =
     wrap_first ErrNetwork (''PJLink frame exceeded '' @ show_nat maxBytes @ '' bytes'')"

text \<open>The loop of \<open>readUntilCR\<close>: what is left to read, and Go's two results.\<close>

fun read_loop :: "nat \<Rightarrow> bytes \<Rightarrow> read_event list \<Rightarrow> read_event list \<times> bytes \<times> go_error option" where
  "read_loop maxBytes buf [] =
     (if length buf < maxBytes then ([], frame_error buf read_timeout)
      else ([], [], Some (frame_exceeded maxBytes)))"
| "read_loop maxBytes buf ((n, err) # events) =
     (if length buf < maxBytes
      then
        (let buf' = (case n of Some one \<Rightarrow> buf @ [one] | None \<Rightarrow> buf)
         in if n = Some CR then (events, buf', None)
            else (case err of
                    Some e \<Rightarrow> (events, frame_error buf' e)
                  | None \<Rightarrow> read_loop maxBytes buf' events))
      else ((n, err) # events, [], Some (frame_exceeded maxBytes)))"

definition readUntilCR :: "conn \<Rightarrow> nat \<Rightarrow> conn \<times> bytes \<times> go_error option" where
  "readUntilCR c maxBytes =
     (let (rest, buf, err) = read_loop maxBytes [] (con_incoming c)
      in (c\<lparr>con_incoming := rest\<rparr>, buf, err))"

text \<open>\<open>io.ReadAll\<close> of an \<open>io.LimitReader\<close>: end of file, or the limit, is success.\<close>

fun read_all :: "nat \<Rightarrow> bytes \<Rightarrow> read_event list \<Rightarrow> read_event list \<times> bytes \<times> go_error option" where
  "read_all 0 buf events = (events, buf, None)"
| "read_all (Suc limit) buf [] = ([], buf, Some read_timeout)"
| "read_all (Suc limit) buf ((n, err) # events) =
     (let buf' = (case n of Some one \<Rightarrow> buf @ [one] | None \<Rightarrow> buf);
          limit' = (case n of Some one \<Rightarrow> limit | None \<Rightarrow> Suc limit)
      in case err of
           Some e \<Rightarrow> (events, buf', if e = IoEOF then None else Some e)
         | None \<Rightarrow> read_all limit' buf' events)"

section \<open>Requests\<close>

definition sendPJLinkCommand :: "conn \<Rightarrow> bytes \<Rightarrow> conn \<times> bytes result" where
  "sendPJLinkCommand c payload =
     (case readUntilCR c maxPJLinkFrameBytes of
        (c1, greeting, Some err) \<Rightarrow>
          (c1, Inl (categorizeNetworkError err ''PJLink greeting read failed''))
      | (c1, greeting, None) \<Rightarrow>
          (let greetingText = trim_space greeting
           in if \<not> has_prefix greetingText ''PJLINK''
              then (c1, Inl (wrap_first ErrNetwork (''unexpected PJLink greeting '' @ greetingText)))
              else
                (case conn_Write c1 payload of
                   (c2, Some err) \<Rightarrow> (c2, Inl (categorizeNetworkError err ''write failed''))
                 | (c2, None) \<Rightarrow>
                     (case readUntilCR c2 maxPJLinkFrameBytes of
                        (c3, response, Some err) \<Rightarrow>
                          (c3, Inl (categorizeNetworkError err ''PJLink response read failed''))
                      | (c3, response, None) \<Rightarrow> (c3, Inr response)))))"

definition responseLimit :: nat where
  "responseLimit = 1024 * 1024"

definition sendRawCommand :: "conn \<Rightarrow> bytes \<Rightarrow> conn \<times> bytes result" where
  "sendRawCommand c payload =
     (case conn_Write c payload of
        (c1, Some err) \<Rightarrow> (c1, Inl (categorizeNetworkError err ''write failed''))
      | (c1, None) \<Rightarrow>
          (case read_all responseLimit [] (con_incoming c1) of
             (rest, response, Some err) \<Rightarrow>
               (c1\<lparr>con_incoming := rest\<rparr>, Inl (categorizeNetworkError err ''read failed''))
           | (rest, response, None) \<Rightarrow> (c1\<lparr>con_incoming := rest\<rparr>, Inr response)))"

text \<open>
  The network: what the successive dials give (time-outs once used up), and the address and
  the final state of the connection of every finished request.
\<close>

record net =
  net_dials :: "(go_error + conn) list"
  net_log :: "(string \<times> conn option) list"

definition dial :: "net \<Rightarrow> net \<times> (go_error + conn)" where
  "dial n = (case net_dials n of
       [] \<Rightarrow> (n, Inl dial_timeout)
     | d # ds \<Rightarrow> (n\<lparr>net_dials := ds\<rparr>, d))"

definition net_record :: "net \<Rightarrow> string \<Rightarrow> conn option \<Rightarrow> net" where
  "net_record n address c = n\<lparr>net_log := net_log n @ [(address, c)]\<rparr>"

definition dev_address :: "device \<Rightarrow> string" where
  "dev_address dev = dev_IP dev @ '':'' @ show_int (dev_Port dev)"

record tcp_communicator =
  tcp_defaultTimeout :: duration

definition NewTCPCommunicator :: "int \<Rightarrow> tcp_communicator" where
  "NewTCPCommunicator timeoutMs = \<lparr>tcp_defaultTimeout = millis timeoutMs\<rparr>"

text \<open>
  \<open>SendCommand\<close>: \<open>now\<close> is the clock reading it takes when \<open>ctx\<close> has no deadline.
  The deferred \<open>Close\<close> puts the connection in the log.
\<close>

definition SendCommand ::
  "tcp_communicator \<Rightarrow> time \<Rightarrow> net \<Rightarrow> time option \<Rightarrow> device \<Rightarrow> bytes \<Rightarrow> net \<times> bytes result" where
  "SendCommand tc now n ctx_deadline dev payload =
     (let address = dev_address dev;
          deadline = (case ctx_deadline of Some d \<Rightarrow> d | None \<Rightarrow> now + sint (tcp_defaultTimeout tc))
      in case dial n of
           (n1, Inl err) \<Rightarrow> (net_record n1 address None, Inl (categorizeNetworkError err ''dial failed''))
         | (n1, Inr c) \<Rightarrow>
             (case conn_SetDeadline c deadline of
                (c1, Some err) \<Rightarrow>
                  (net_record n1 address (Some c1), Inl (wrap_last ''failed to set socket deadline'' err))
              | (c1, None) \<Rightarrow>
                  (let (c2, res) = (if dev_Protocol dev = ProtocolPJLink
                                    then sendPJLinkCommand c1 payload
                                    else sendRawCommand c1 payload)
                   in (net_record n1 address (Some c2), res))))"

definition tcp_ops :: "tcp_communicator \<Rightarrow> (nat \<Rightarrow> time) \<Rightarrow> net communicator_ops" where
  "tcp_ops tc clock = \<lparr>op_SendCommand =
     (\<lambda>n ctx_deadline dev payload. SendCommand tc (clock (length (net_log n))) n ctx_deadline dev payload)\<rparr>"

section \<open>Lemmas on errors\<close>

lemma root_categorize: "root_cause (categorizeNetworkError e m) =
    (if root_cause e \<in> {CtxCanceled, CtxDeadlineExceeded} \<or> os_is_timeout e then ErrTimeout
     else ErrNetwork)"
  by (auto simp: categorizeNetworkError_def errors_is_root)

lemma categorize_retryable [simp]: "retryable (categorizeNetworkError e m)"
  by (simp add: retryable_iff root_categorize)

lemma os_is_timeout_wrap [simp]:
  "\<not> os_is_timeout (wrap_first e m)" "\<not> os_is_timeout (wrap_last m e)"
  by (simp_all add: wrap_first_def wrap_last_def)

text \<open>Categorising an error that was categorised before loses the time-out.\<close>

lemma categorize_not_timeout [simp]: "\<not> os_is_timeout (categorizeNetworkError e m)"
  by (simp add: categorizeNetworkError_def)

lemma root_categorize_twice [simp]:
  "root_cause (categorizeNetworkError (categorizeNetworkError e m) m') = ErrNetwork"
  by (simp add: root_categorize)

lemma frame_exceeded_root [simp]: "root_cause (frame_exceeded n) = ErrNetwork"
  by (simp add: frame_exceeded_def)

section \<open>Lemmas on framing\<close>

definition clean :: "bytes \<Rightarrow> read_event list" where
  "clean s = map (\<lambda>c. (Some c, None)) s"

lemma clean_simps [simp]:
  "clean [] = []" "clean (c # s) = (Some c, None) # clean s" "clean (s @ t) = clean s @ clean t"
  by (simp_all add: clean_def)

text \<open>The bytes that a list of read events delivers.\<close>

definition delivered :: "read_event list \<Rightarrow> bytes" where
  "delivered ev = concat (map (\<lambda>(n, _). case n of Some c \<Rightarrow> [c] | None \<Rightarrow> []) ev)"

lemma delivered_simps [simp]:
  "delivered [] = []" "delivered ((Some c, e) # ev) = c # delivered ev"
  "delivered ((None, e) # ev) = delivered ev"
  by (simp_all add: delivered_def)

lemma read_loop_frame:
  "CR \<notin> set f \<Longrightarrow> length buf + length f < maxBytes \<Longrightarrow>
     read_loop maxBytes buf (clean f @ (Some CR, e) # rest) = (rest, buf @ f @ [CR], None)"
  by (induction f arbitrary: buf) auto

lemma read_loop_long:
  "CR \<notin> set f \<Longrightarrow> length buf + length f = maxBytes \<Longrightarrow>
     read_loop maxBytes buf (clean f @ rest) = (rest, [], Some (frame_exceeded maxBytes))"
proof (induction f arbitrary: buf)
  case Nil
  then show ?case by (cases rest) auto
qed auto

lemma read_loop_short:
  "CR \<notin> set f \<Longrightarrow> length buf + length f < maxBytes \<Longrightarrow>
     read_loop maxBytes buf (clean f) = ([], frame_error (buf @ f) read_timeout)"
  by (induction f arbitrary: buf) auto

lemma read_loop_success:
  "read_loop maxBytes buf ev = (rest, out, None) \<Longrightarrow> CR \<notin> set buf \<Longrightarrow>
     \<exists>used f. ev = used @ rest \<and> out = buf @ delivered used \<and> out = f @ [CR] \<and>
       CR \<notin> set f \<and> length out \<le> maxBytes"
proof (induction maxBytes buf ev rule: read_loop.induct)
  case (1 maxBytes buf)
  then show ?case by (auto simp: frame_error_def split: if_splits)
next
  case (2 maxBytes buf n err events)
  define buf' where "buf' = (case n of Some one \<Rightarrow> buf @ [one] | None \<Rightarrow> buf)"
  have len: "length buf < maxBytes" using "2.prems"(1) by (auto split: if_splits)
  show ?case
  proof (cases "n = Some CR")
    case True
    with "2.prems" len have "rest = events" "out = buf @ [CR]" by auto
    with True "2.prems"(2) len show ?thesis
      by (intro exI [of _ "[(n, err)]"] exI [of _ buf]) auto
  next
    case False
    then have err: "err = None"
      using "2.prems"(1) len by (auto simp: Let_def frame_error_def split: option.splits if_splits)
    have clean: "CR \<notin> set buf'" using "2.prems"(2) False by (auto simp: buf'_def split: option.split)
    have "read_loop maxBytes buf' events = (rest, out, None)"
      using "2.prems"(1) len False err by (simp add: buf'_def)
    from "2.IH" [OF len buf'_def False err this clean]
    obtain used f where "events = used @ rest" "out = buf' @ delivered used"
      "out = f @ [CR]" "CR \<notin> set f" "length out \<le> maxBytes" by blast
    then show ?thesis
      by (intro exI [of _ "(n, err) # used"] exI [of _ f])
        (auto simp: buf'_def split: option.splits)
  qed
qed

lemma frame_error_root:
  "frame_error buf e = (out, r) \<Longrightarrow> \<exists>e' m. r = Some (categorizeNetworkError e' m)"
  by (auto simp: frame_error_def split: if_splits)

lemma read_loop_error:
  "read_loop maxBytes buf ev = (rest, out, Some e) \<Longrightarrow> root_cause e \<in> {ErrTimeout, ErrNetwork}"
proof (induction maxBytes buf ev rule: read_loop.induct)
  case (1 maxBytes buf)
  then show ?case by (auto simp: frame_error_def root_categorize split: if_splits)
next
  case (2 maxBytes buf n err events)
  then show ?case
    by (auto simp: Let_def frame_error_def root_categorize split: if_splits option.splits)
qed

lemma read_loop_error_timeout: "read_loop maxBytes buf ev = (rest, out, Some e) \<Longrightarrow> \<not> os_is_timeout e"
proof (induction maxBytes buf ev rule: read_loop.induct)
  case (1 maxBytes buf)
  then show ?case by (auto simp: frame_error_def frame_exceeded_def split: if_splits)
next
  case (2 maxBytes buf n err events)
  then show ?case
    by (auto simp: Let_def frame_error_def frame_exceeded_def split: if_splits option.splits)
qed

lemma read_loop_recategorized:
  "read_loop maxBytes buf ev = (rest, out, Some e) \<Longrightarrow>
     root_cause (categorizeNetworkError e m) = ErrNetwork"
  using read_loop_error [of maxBytes buf ev rest out e] read_loop_error_timeout [of maxBytes buf ev rest out e]
  by (auto simp: root_categorize)

text \<open>What the frame reader does with any stream of bytes, by the first carriage return.\<close>

lemma read_loop_clean:
  "read_loop maxBytes [] (clean s) =
     (let f = takeWhile (\<lambda>c. c \<noteq> CR) s
      in if length f < length s \<and> length f < maxBytes
         then (clean (drop (Suc (length f)) s), f @ [CR], None)
         else if maxBytes \<le> length f then (clean (drop maxBytes s), [], Some (frame_exceeded maxBytes))
         else ([], frame_error f read_timeout))"
proof -
  define f where "f = takeWhile (\<lambda>c. c \<noteq> CR) s"
  have f: "CR \<notin> set f" by (auto simp: f_def dest: set_takeWhileD)
  show ?thesis
  proof (cases "length f < length s \<and> length f < maxBytes")
    case True
    then have s: "s = f @ CR # drop (Suc (length f)) s"
      by (metis (full_types) Cons_nth_drop_Suc append_take_drop_id f_def nth_length_takeWhile
          takeWhile_eq_take)
    have "read_loop maxBytes [] (clean s) = (clean (drop (Suc (length f)) s), f @ [CR], None)"
      by (subst s) (use f True read_loop_frame [of f "[]" maxBytes] in simp)
    with True show ?thesis by (simp add: f_def Let_def)
  next
    case False
    show ?thesis
    proof (cases "maxBytes \<le> length f")
      case True
      have "take maxBytes s = take maxBytes f"
        by (metis True f_def length_take min.absorb2 take_take takeWhile_eq_take)
      then have s: "s = take maxBytes f @ drop maxBytes s" by (metis append_take_drop_id)
      have "CR \<notin> set (take maxBytes f)" using f by (meson in_set_takeD)
      then have "read_loop maxBytes [] (clean s) =
          (clean (drop maxBytes s), [], Some (frame_exceeded maxBytes))"
        by (subst s) (use True read_loop_long [of "take maxBytes f" "[]" maxBytes] in simp)
      with True False show ?thesis by (simp add: f_def Let_def)
    next
      case small: False
      with False have "length f = length s"
        by (metis f_def length_takeWhile_le linorder_not_le nat_less_le)
      then have s: "s = f" by (metis f_def order_refl takeWhile_eq_take take_all)
      then have tw: "takeWhile (\<lambda>c. c \<noteq> CR) f = f" using f_def by simp
      show ?thesis using f s small read_loop_short [of f "[]" maxBytes]
        by (simp add: tw Let_def)
    qed
  qed
qed

section \<open>Lemmas on exchanges\<close>

definition write_ok :: "conn \<Rightarrow> bool" where
  "write_ok c \<longleftrightarrow> (case con_write_errs c of [] \<Rightarrow> True | e # _ \<Rightarrow> e = None)"

lemma conn_Write_ok: "write_ok c \<Longrightarrow> conn_Write c p =
    (c\<lparr>con_written := con_written c @ [p], con_write_errs := tl (con_write_errs c)\<rparr>, None)"
  by (auto simp: conn_Write_def write_ok_def split: list.splits)

lemma readUntilCR_frame:
  assumes "con_incoming c = clean (f @ [CR]) @ rest" and "CR \<notin> set f" and "length f < n"
  shows "readUntilCR c n = (c\<lparr>con_incoming := rest\<rparr>, f @ [CR], None)"
  using read_loop_frame [of f "[]" n None rest] assms by (simp add: readUntilCR_def)

lemma readUntilCR_success:
  assumes "readUntilCR c n = (c', out, None)"
  shows "\<exists>f. out = f @ [CR] \<and> CR \<notin> set f \<and> length out \<le> n"
  using assms by (fastforce simp: readUntilCR_def dest!: read_loop_success split: prod.splits)

lemma readUntilCR_con [simp]:
  "con_written (fst (readUntilCR c n)) = con_written c"
  "con_write_errs (fst (readUntilCR c n)) = con_write_errs c"
  "con_deadline (fst (readUntilCR c n)) = con_deadline c"
  by (simp_all add: readUntilCR_def split: prod.split)

lemma readUntilCR_recategorized:
  "readUntilCR c n = (c', out, Some e) \<Longrightarrow> root_cause (categorizeNetworkError e m) = ErrNetwork"
  by (auto simp: readUntilCR_def dest: read_loop_recategorized split: prod.splits)

text \<open>The outcomes of a PJLink exchange.\<close>

definition greeting_ok :: "bytes \<Rightarrow> bool" where
  "greeting_ok g \<longleftrightarrow> has_prefix (trim_space g) ''PJLINK''"

lemma sendPJLink_cases:
  assumes "sendPJLinkCommand c payload = (c', res)"
  obtains (greeting_failed) c1 out e where
      "readUntilCR c maxPJLinkFrameBytes = (c1, out, Some e)" "c' = c1"
      "res = Inl (categorizeNetworkError e ''PJLink greeting read failed'')"
  | (greeting_bad) c1 g e where "readUntilCR c maxPJLinkFrameBytes = (c1, g, None)" "\<not> greeting_ok g"
      "c' = c1" "res = Inl e" "root_cause e = ErrNetwork"
  | (write_failed) c1 g c2 e where "readUntilCR c maxPJLinkFrameBytes = (c1, g, None)" "greeting_ok g"
      "conn_Write c1 payload = (c2, Some e)" "c' = c2"
      "res = Inl (categorizeNetworkError e ''write failed'')"
  | (response_failed) c1 g c2 out e where "readUntilCR c maxPJLinkFrameBytes = (c1, g, None)"
      "greeting_ok g" "conn_Write c1 payload = (c2, None)"
      "readUntilCR c2 maxPJLinkFrameBytes = (c', out, Some e)"
      "res = Inl (categorizeNetworkError e ''PJLink response read failed'')"
  | (exchanged) c1 g c2 r where "readUntilCR c maxPJLinkFrameBytes = (c1, g, None)"
      "greeting_ok g" "conn_Write c1 payload = (c2, None)"
      "readUntilCR c2 maxPJLinkFrameBytes = (c', r, None)" "res = Inr r"
proof -
  obtain c1 g ge where r1: "readUntilCR c maxPJLinkFrameBytes = (c1, g, ge)" by (metis prod_cases3)
  obtain c2 we where w: "conn_Write c1 payload = (c2, we)" by (metis surj_pair)
  obtain c3 r re where r2: "readUntilCR c2 maxPJLinkFrameBytes = (c3, r, re)" by (metis prod_cases3)
  note eval = assms [unfolded sendPJLinkCommand_def, simplified r1]
  show thesis
  proof (cases ge)
    case (Some e)
    with eval r1 show ?thesis by (intro greeting_failed) auto
  next
    case ge: None
    show ?thesis
    proof (cases "greeting_ok g")
      case False
      with eval r1 ge show ?thesis
        by (intro greeting_bad [of c1 g "projl res"]) (auto simp: greeting_ok_def Let_def)
    next
      case g: True
      show ?thesis
      proof (cases we)
        case (Some e)
        with eval r1 ge g w show ?thesis
          by (intro write_failed) (auto simp: greeting_ok_def Let_def)
      next
        case we: None
        show ?thesis
        proof (cases re)
          case (Some e)
          with eval r1 ge g w we r2 show ?thesis
            by (intro response_failed) (auto simp: greeting_ok_def Let_def)
        next
          case None
          with eval r1 ge g w we r2 show ?thesis
            by (intro exchanged) (auto simp: greeting_ok_def Let_def)
        qed
      qed
    qed
  qed
qed

lemma conn_Write_written: "conn_Write c p = (c', e) \<Longrightarrow> con_written c' = con_written c @ [p]"
  by (auto simp: conn_Write_def)

lemma conn_Write_incoming: "conn_Write c p = (c', e) \<Longrightarrow> con_incoming c' = con_incoming c"
  by (auto simp: conn_Write_def)

lemma readUntilCR_written: "readUntilCR c n = (c', out, e) \<Longrightarrow> con_written c' = con_written c"
  by (metis fst_conv readUntilCR_con(1))

lemma sendPJLink_error: "sendPJLinkCommand c payload = (c', Inl e) \<Longrightarrow> retryable e"
  by (erule sendPJLink_cases) (auto simp: retryable_iff root_categorize)

lemma sendPJLink_frame:
  "sendPJLinkCommand c payload = (c', Inr r) \<Longrightarrow>
     \<exists>f. r = f @ [CR] \<and> CR \<notin> set f \<and> length r \<le> maxPJLinkFrameBytes"
  by (erule sendPJLink_cases) (auto dest: readUntilCR_success)

text \<open>The payload goes out at most once, and only to a peer that greeted as PJLink.\<close>

lemma sendPJLink_written:
  assumes "sendPJLinkCommand c payload = (c', res)"
  shows "con_written c' = con_written c \<and> (\<exists>e. res = Inl e) \<or>
    con_written c' = con_written c @ [payload] \<and>
      (\<exists>c1 g. readUntilCR c maxPJLinkFrameBytes = (c1, g, None) \<and> greeting_ok g)"
  using assms
proof (cases rule: sendPJLink_cases)
  case (greeting_failed c1 out e)
  then show ?thesis using readUntilCR_written [OF greeting_failed(1)] by simp
next
  case (greeting_bad c1 g e)
  then show ?thesis using readUntilCR_written [OF greeting_bad(1)] by simp
next
  case (write_failed c1 g c2 e)
  then show ?thesis
    using readUntilCR_written [OF write_failed(1)] conn_Write_written [OF write_failed(3)] by simp
next
  case (response_failed c1 g c2 out e)
  then show ?thesis
    using readUntilCR_written [OF response_failed(1)] conn_Write_written [OF response_failed(3)]
      readUntilCR_written [OF response_failed(4)] by simp
next
  case (exchanged c1 g c2 r)
  then show ?thesis
    using readUntilCR_written [OF exchanged(1)] conn_Write_written [OF exchanged(3)]
      readUntilCR_written [OF exchanged(4)] by simp
qed

lemma sendPJLink_exchange:
  assumes "con_incoming c = clean (g @ [CR]) @ clean (r @ [CR]) @ rest"
    and "CR \<notin> set g" and "CR \<notin> set r"
    and "length g < maxPJLinkFrameBytes" and "length r < maxPJLinkFrameBytes"
    and "greeting_ok (g @ [CR])" and "write_ok c"
  shows "sendPJLinkCommand c payload =
    (c\<lparr>con_incoming := rest, con_written := con_written c @ [payload],
        con_write_errs := tl (con_write_errs c)\<rparr>, Inr (r @ [CR]))"
proof -
  let ?c1 = "c\<lparr>con_incoming := clean (r @ [CR]) @ rest\<rparr>"
  let ?c2 = "?c1\<lparr>con_written := con_written c @ [payload], con_write_errs := tl (con_write_errs c)\<rparr>"
  have "readUntilCR c maxPJLinkFrameBytes = (?c1, g @ [CR], None)"
    using assms(1,2,4) by (intro readUntilCR_frame) simp_all
  moreover have "conn_Write ?c1 payload = (?c2, None)"
    using conn_Write_ok [of ?c1 payload] assms(7) by (simp add: write_ok_def)
  moreover have "readUntilCR ?c2 maxPJLinkFrameBytes = (?c2\<lparr>con_incoming := rest\<rparr>, r @ [CR], None)"
    using assms(3,5) by (intro readUntilCR_frame) simp_all
  ultimately show ?thesis
    using assms(6) by (simp add: sendPJLinkCommand_def greeting_ok_def Let_def)
qed

text \<open>Any other protocol: one write, then everything until end of file, up to the limit.\<close>

lemma read_all_length:
  "read_all limit buf ev = (rest, out, e) \<Longrightarrow> length out \<le> length buf + limit"
  by (induction limit buf ev arbitrary: rest out e rule: read_all.induct)
    (fastforce simp: Let_def split: option.splits)+

lemma sendRaw_error: "sendRawCommand c payload = (c', Inl e) \<Longrightarrow> retryable e"
  by (auto simp: sendRawCommand_def split: prod.splits option.splits)

lemma sendRaw_length: "sendRawCommand c payload = (c', Inr r) \<Longrightarrow> length r \<le> responseLimit"
  by (auto simp: sendRawCommand_def dest!: read_all_length split: prod.splits option.splits)

lemma SendCommand_error:
  assumes "SendCommand tc now n dl dev payload = (n', Inl e)"
  shows "retryable e \<or> (\<exists>err. e = wrap_last ''failed to set socket deadline'' err)"
  using assms
  by (auto simp: SendCommand_def Let_def dest: sendPJLink_error sendRaw_error
      split: prod.splits sum.splits option.splits if_splits)

lemma SendCommand_log:
  "\<exists>c. net_log (fst (SendCommand tc now n dl dev payload)) = net_log n @ [(dev_address dev, c)]"
  by (auto simp: SendCommand_def Let_def dial_def net_record_def
      split: prod.split sum.split option.split list.split)

section \<open>Properties\<close>

text \<open>The connection \<open>SendCommand\<close> works on: a dialled one, with its deadline set.\<close>

definition with_deadline :: "conn \<Rightarrow> time option \<Rightarrow> conn" where
  "with_deadline c dl = c\<lparr>con_deadline := the dl, con_deadline_errs := tl (con_deadline_errs c)\<rparr>"

lemma with_deadline_simps [simp]:
  "con_incoming (with_deadline c dl) = con_incoming c" "con_written (with_deadline c dl) = con_written c"
  "con_write_errs (with_deadline c dl) = con_write_errs c" "write_ok (with_deadline c dl) = write_ok c"
  "con_deadline (with_deadline c dl) = the dl"
  by (simp_all add: with_deadline_def write_ok_def)

lemma SendCommand_pjlink:
  assumes "net_dials n = Inr c # ds" and "con_deadline_errs c = []" and "dev_Protocol dev = ProtocolPJLink"
    and "sendPJLinkCommand (with_deadline c (Some dl)) payload = (c', res)"
  shows "SendCommand tc now n (Some dl) dev payload =
    (\<lparr>net_dials = ds, net_log = net_log n @ [(dev_address dev, Some c')]\<rparr>, res)"
  using assms by (simp add: SendCommand_def dial_def conn_SetDeadline_def net_record_def with_deadline_def)

text \<open>C7: the frame reader on any byte stream and any limit.  It returns the bytes up to
  and including the first carriage return and leaves the rest unread, if that is within the
  limit; a longer frame is an error after exactly the limit, a stream that stops short an
  error with the bytes that did come.\<close>

theorem frame_reader_spec:
  "readUntilCR (c\<lparr>con_incoming := clean s\<rparr>) maxBytes =
    (let f = takeWhile (\<lambda>b. b \<noteq> CR) s
     in if length f < length s \<and> length f < maxBytes
        then (c\<lparr>con_incoming := clean (drop (length f + 1) s)\<rparr>, f @ [CR], None)
        else if maxBytes \<le> length f
        then (c\<lparr>con_incoming := clean (drop maxBytes s)\<rparr>, [], Some (frame_exceeded maxBytes))
        else (c\<lparr>con_incoming := []\<rparr>, f,
              Some (categorizeNetworkError read_timeout
                (if f = [] then ''read failed'' else ''incomplete frame read''))))"
  by (simp add: readUntilCR_def read_loop_clean Let_def frame_error_def)

text \<open>C22: a well-behaved projector is asked and answers.  When the dialled connection
  greets with a PJLINK line and then sends one response line, \<open>SendCommand\<close> returns exactly
  that line; the connection it closes has the caller's deadline, the payload written once, and
  what came after the response still unread.\<close>

theorem pjlink_exchange:
  assumes "net_dials n = Inr c # ds" and "con_deadline_errs c = []" and "write_ok c"
    and "dev_Protocol dev = ProtocolPJLink"
    and "con_incoming c = clean (g @ [CR]) @ clean (r @ [CR]) @ rest"
    and "CR \<notin> set g" and "CR \<notin> set r" and "length g < 1024" and "length r < 1024"
    and "has_prefix (trim_space (g @ [CR])) ''PJLINK''"
  shows "\<exists>c'. SendCommand tc now n (Some dl) dev payload =
      (\<lparr>net_dials = ds, net_log = net_log n @ [(dev_address dev, Some c')]\<rparr>, Inr (r @ [CR])) \<and>
    con_written c' = con_written c @ [payload] \<and> con_incoming c' = rest \<and> con_deadline c' = dl"
proof -
  let ?c = "with_deadline c (Some dl)"
  have "sendPJLinkCommand ?c payload = (?c\<lparr>con_incoming := rest, con_written := con_written ?c @ [payload],
      con_write_errs := tl (con_write_errs ?c)\<rparr>, Inr (r @ [CR]))"
    by (rule sendPJLink_exchange [where g = g])
      (use assms in \<open>simp_all add: maxPJLinkFrameBytes_def greeting_ok_def\<close>)
  from SendCommand_pjlink [OF assms(1,2,4) this] show ?thesis by simp
qed

definition sample_conn :: "bytes \<Rightarrow> conn" where
  "sample_conn s = \<lparr>con_incoming = clean s, con_write_errs = [], con_deadline_errs = [],
     con_written = [], con_deadline = 0\<rparr>"

lemma pjlink_exchange_witness:
  "\<exists>c'. SendCommand (NewTCPCommunicator 5000) 0
      \<lparr>net_dials = [Inr (sample_conn (''PJLINK 0'' @ [CR] @ ''%1POWR=1'' @ [CR]))], net_log = []\<rparr>
      (Some 77) projector (''%1POWR ?'' @ [CR]) =
      (\<lparr>net_dials = [], net_log = [(dev_address projector, Some c')]\<rparr>, Inr (''%1POWR=1'' @ [CR])) \<and>
    con_written c' = [''%1POWR ?'' @ [CR]] \<and> con_incoming c' = [] \<and> con_deadline c' = 77"
proof -
  have "trimmed (''PJLINK 0'')"
    using trimmed_header [of "CHR ''P''" "CHR ''K''" "''0''" "''JLIN''"]
      trimmed_header [of "CHR ''P''" "CHR ''0''" "[]" "''JLINK ''"] by (simp add: plain_def trimmed_def)
  then have "trim_space (''PJLINK 0'' @ [CR]) = ''PJLINK 0''" by (rule trim_space_CR) simp
  then show ?thesis
    using pjlink_exchange [of "\<lparr>net_dials = [Inr (sample_conn (''PJLINK 0'' @ [CR] @ ''%1POWR=1'' @ [CR]))], net_log = []\<rparr>"
      "sample_conn (''PJLINK 0'' @ [CR] @ ''%1POWR=1'' @ [CR])" "[]" projector "''PJLINK 0''" "''%1POWR=1''" "[]"]
    by (simp add: sample_conn_def write_ok_def)
qed

text \<open>C8: a command to a PJLink device is never written twice on a connection, and never to a
  peer that did not greet as PJLink; success means it was written.  Every request leaves one
  entry for the device's address: without a connection when the dial failed, and then the error
  is worth a retry; with one otherwise, and then every error is worth a retry but that of
  setting the deadline, after which nothing was written.\<close>

theorem payload_at_most_once:
  assumes "SendCommand tc now n ctx_deadline dev payload = (n', res)" and "dev_Protocol dev = ProtocolPJLink"
  shows "case net_dials n of
      Inr c # ds \<Rightarrow>
        (let dl = (case ctx_deadline of Some d \<Rightarrow> d | None \<Rightarrow> now + sint (tcp_defaultTimeout tc));
             (c0, failed) = conn_SetDeadline c dl
         in \<exists>c'. net_log n' = net_log n @ [(dev_address dev, Some c')] \<and>
              (con_written c' = con_written c \<and> isl res \<or>
               con_written c' = con_written c @ [payload] \<and> failed = None \<and>
                 (\<exists>c1 g. readUntilCR c0 1024 = (c1, g, None) \<and> has_prefix (trim_space g) ''PJLINK'')) \<and>
              (case res of Inl e \<Rightarrow> failed = None \<longrightarrow> Classify e = ClassRetryable | Inr r \<Rightarrow> failed = None))
    | _ \<Rightarrow> net_log n' = net_log n @ [(dev_address dev, None)] \<and>
        (\<exists>e. res = Inl e \<and> Classify e = ClassRetryable)"
proof (cases "\<exists>c ds. net_dials n = Inr c # ds")
  case False
  then show ?thesis using assms(1)
    by (auto simp: SendCommand_def dial_def net_record_def Let_def retryable_def [symmetric]
        split: list.splits sum.splits)
next
  case True
  then obtain c ds where c: "net_dials n = Inr c # ds" by blast
  let ?dl = "case ctx_deadline of Some d \<Rightarrow> d | None \<Rightarrow> now + sint (tcp_defaultTimeout tc)"
  obtain c0 failed where d: "conn_SetDeadline c ?dl = (c0, failed)" by (metis surj_pair)
  then have w0: "con_written c0 = con_written c" by (auto simp: conn_SetDeadline_def)
  show ?thesis
  proof (cases failed)
    case (Some err)
    with assms(1) c d w0 show ?thesis
      by (auto simp: SendCommand_def dial_def net_record_def Let_def)
  next
    case None
    obtain c2 r2 where s: "sendPJLinkCommand c0 payload = (c2, r2)" by (metis surj_pair)
    have "n' = \<lparr>net_dials = ds, net_log = net_log n @ [(dev_address dev, Some c2)]\<rparr>" "res = r2"
      using assms c d None s by (auto simp: SendCommand_def dial_def net_record_def Let_def)
    with sendPJLink_written [OF s] s sendPJLink_error c d None w0 show ?thesis
      by (auto simp: greeting_ok_def maxPJLinkFrameBytes_def retryable_def split: sum.split)
  qed
qed

lemma payload_at_most_once_witness:
  "\<exists>n' res c'. SendCommand (NewTCPCommunicator 5000) 0
      \<lparr>net_dials = [Inr (sample_conn (''HTTP'' @ [CR]))], net_log = []\<rparr> (Some 77) projector ''x'' = (n', res) \<and>
    net_log n' = [(dev_address projector, Some c')]"
proof -
  obtain n' res where r: "SendCommand (NewTCPCommunicator 5000) 0
      \<lparr>net_dials = [Inr (sample_conn (''HTTP'' @ [CR]))], net_log = []\<rparr> (Some 77) projector ''x'' = (n', res)"
    by (metis surj_pair)
  from payload_at_most_once [OF this] r show ?thesis
    by (auto simp: Let_def split: prod.splits)
qed

text \<open>C35: a device that accepts the connection and stays silent is reported as a network
  error, not as a time-out: the error of the frame reader, a time-out, is categorised a second
  time, and wrapping has hidden what it was.  A dial that times out is reported as one.\<close>

theorem silent_device_is_network_error:
  "(\<exists>c' e. sendPJLinkCommand (c\<lparr>con_incoming := []\<rparr>) payload = (c', Inl e) \<and>
      errors_is e ErrNetwork \<and> \<not> errors_is e ErrTimeout) \<and>
   (\<exists>n' e. SendCommand tc now \<lparr>net_dials = [], net_log = l\<rparr> dl dev payload = (n', Inl e) \<and>
      errors_is e ErrTimeout \<and> \<not> errors_is e ErrNetwork)"
proof -
  obtain e where e: "readUntilCR (c\<lparr>con_incoming := []\<rparr>) maxPJLinkFrameBytes = (c\<lparr>con_incoming := []\<rparr>, [], Some e)"
    by (simp add: readUntilCR_def maxPJLinkFrameBytes_def frame_error_def)
  have "root_cause (categorizeNetworkError e m) = ErrNetwork" for m
    using readUntilCR_recategorized [OF e] .
  moreover have "root_cause (categorizeNetworkError dial_timeout m) = ErrTimeout" for m
    by (simp add: root_categorize dial_timeout_def)
  ultimately show ?thesis
    using e by (simp add: sendPJLinkCommand_def SendCommand_def dial_def errors_is_root)
qed

end
