(* ===== verification/TelemetryPoller.thy ===== *)
theory TelemetryPoller
  imports Southbound
begin

text \<open>
  The telemetry poller of \<open>tcp_communicator.go\<close>: \<open>ListenTelemetry\<close>,
  \<open>pollPJLinkTelemetry\<close> and \<open>runPJLinkSession\<close>.  The events of a session are the ticks
  of its ticker and the cancellation of its context, in the order in which the loop takes
  them; the rounds of the outer loop carry what each dial and each session meets.  One reading
  of the clock stands for the several of a tick, and \<open>SetReadDeadline\<close> is treated like
  \<open>SetDeadline\<close>.
\<close>

section \<open>One tick\<close>

text \<open>\<open>SetDeadline\<close>, \<open>Write\<close> and \<open>readUntilCR\<close>, each with its own error return.\<close>

definition poll_query :: "tcp_communicator \<Rightarrow> time \<Rightarrow> bytes \<Rightarrow> string \<Rightarrow> conn \<Rightarrow> conn \<times> bytes result" where
  "poll_query tc now query name c =
     (case conn_SetDeadline c (now + sint (tcp_defaultTimeout tc)) of
        (c1, Some err) \<Rightarrow> (c1, Inl err)
      | (c1, None) \<Rightarrow>
          (case conn_Write c1 query of
             (c2, Some err) \<Rightarrow> (c2, Inl (wrap_last (''failed to send '' @ name @ '' query'') err))
           | (c2, None) \<Rightarrow>
               (case readUntilCR c2 maxPJLinkFrameBytes of
                  (c3, resp, Some err) \<Rightarrow>
                    (c3, Inl (wrap_last (''failed to read '' @ name @ '' response'') err))
                | (c3, resp, None) \<Rightarrow> (c3, Inr resp))))"

definition session_queries :: "tcp_communicator \<Rightarrow> time \<Rightarrow> conn \<Rightarrow> conn \<times> (bytes \<times> bytes) result" where
  "session_queries tc now c =
     (case poll_query tc now (''%1LAMP ?'' @ [CR]) ''LAMP'' c of
        (c1, Inl err) \<Rightarrow> (c1, Inl err)
      | (c1, Inr lampResp) \<Rightarrow>
          (case poll_query tc now (''%1POWR ?'' @ [CR]) ''POWR'' c1 of
             (c2, Inl err) \<Rightarrow> (c2, Inl err)
           | (c2, Inr powrResp) \<Rightarrow> (c2, Inr (lampResp, powrResp))))"

text \<open>Both responses are merged, the POWR entries last; a parse error leaves its part out.\<close>

definition merge_parsed :: "json gomap \<Rightarrow> json gomap result \<Rightarrow> json gomap" where
  "merge_parsed data parsed = (case parsed of Inr m \<Rightarrow> put_all data m | Inl err \<Rightarrow> data)"

definition session_telemetry :: "device \<Rightarrow> time \<Rightarrow> bytes \<Rightarrow> bytes \<Rightarrow> device_telemetry" where
  "session_telemetry dev now lampResp powrResp =
     \<lparr>tel_CorrelationID = ''poll-'' @ show_int now, tel_DeviceID = dev_ID dev, tel_Timestamp = now,
      tel_Data = merge_parsed (merge_parsed [] (ParseTelemetry lampResp)) (ParseTelemetry powrResp)\<rparr>"

section \<open>A session\<close>

text \<open>
  \<open>Tick now ctx_done pick_done\<close>: the ticker fires; the last two say whether the context is
  done when the telemetry is offered to the channel, and which branch a ready \<open>select\<close>
  takes.  \<open>Cancelled\<close>: the loop takes \<open>ctx.Done()\<close>.  In between the goroutines that share the
  channel receive from it (\<open>OthersTake\<close>) and send to it (\<open>OthersPut\<close>).
\<close>

datatype session_event = Tick time bool bool | Cancelled | OthersTake | OthersPut device_telemetry

datatype session_end = Running | Ended go_error | Crashed string

type_synonym telemetry_chan = "device_telemetry channel option"

definition others_put :: "device_telemetry \<Rightarrow> device_telemetry channel \<Rightarrow> device_telemetry channel" where
  "others_put t q = (case try_send q t of Ret (q', r) \<Rightarrow> q' | Panic m \<Rightarrow> q)"

fun session_loop :: "tcp_communicator \<Rightarrow> device \<Rightarrow> session_event list \<Rightarrow> conn \<Rightarrow> telemetry_chan
    \<Rightarrow> conn \<times> telemetry_chan \<times> session_end" where
  "session_loop tc dev [] c ch = (c, ch, Running)"
| "session_loop tc dev (Cancelled # evs) c ch = (c, ch, Ended CtxCanceled)"
| "session_loop tc dev (OthersTake # evs) c ch = session_loop tc dev evs c (map_option (\<lambda>q. fst (try_recv q)) ch)"
| "session_loop tc dev (OthersPut t # evs) c ch = session_loop tc dev evs c (map_option (others_put t) ch)"
| "session_loop tc dev (Tick now ctx_done pick_done # evs) c ch =
     (case session_queries tc now c of
        (c1, Inl err) \<Rightarrow> (c1, ch, Ended err)
      | (c1, Inr (lampResp, powrResp)) \<Rightarrow>
          (case ch of
             None \<Rightarrow> session_loop tc dev evs c1 ch
           | Some q \<Rightarrow>
               (case offer ctx_done pick_done q (session_telemetry dev now lampResp powrResp) of
                  Panic m \<Rightarrow> (c1, ch, Crashed m)
                | Ret (q', DoneTaken) \<Rightarrow> (c1, Some q', Ended CtxCanceled)
                | Ret (q', r) \<Rightarrow> session_loop tc dev evs c1 (Some q'))))"

definition runPJLinkSession :: "tcp_communicator \<Rightarrow> device \<Rightarrow> time \<Rightarrow> session_event list \<Rightarrow> conn
    \<Rightarrow> telemetry_chan \<Rightarrow> conn \<times> telemetry_chan \<times> session_end" where
  "runPJLinkSession tc dev now evs c ch =
     (case conn_SetDeadline c (now + sint (tcp_defaultTimeout tc)) of
        (c1, Some err) \<Rightarrow> (c1, ch, Ended err)
      | (c1, None) \<Rightarrow>
          (case readUntilCR c1 maxPJLinkFrameBytes of
             (c2, greeting, Some err) \<Rightarrow> (c2, ch, Ended (wrap_last ''failed to read greeting'' err))
           | (c2, greeting, None) \<Rightarrow>
               (if \<not> greeting_ok greeting
                then (c2, ch, Ended (OtherErr (''unexpected greeting: '' @ trim_space greeting)))
                else session_loop tc dev evs c2 ch)))"

section \<open>Reconnecting\<close>

text \<open>
  One round of \<open>pollPJLinkTelemetry\<close>: whether the context is done at the top of the loop,
  the dial, the time of the session's first deadline and its events, and whether the wait of
  five seconds ends by the context.
\<close>

record poll_round =
  pr_done :: bool
  pr_dial :: "go_error + conn"
  pr_now :: time
  pr_events :: "session_event list"
  pr_wait_done :: bool

datatype poll_end = PollRunning | PollReturned | PollCrashed string

fun pollPJLinkTelemetry :: "tcp_communicator \<Rightarrow> device \<Rightarrow> poll_round list \<Rightarrow> telemetry_chan
    \<Rightarrow> telemetry_chan \<times> poll_end" where
  "pollPJLinkTelemetry tc dev [] ch = (ch, PollRunning)"
| "pollPJLinkTelemetry tc dev (p # ps) ch =
     (if pr_done p then (ch, PollReturned)
      else
        (case pr_dial p of
           Inl err \<Rightarrow>
             (if pr_wait_done p then (ch, PollReturned) else pollPJLinkTelemetry tc dev ps ch)
         | Inr c \<Rightarrow>
             (case runPJLinkSession tc dev (pr_now p) (pr_events p) c ch of
                (c', ch', Running) \<Rightarrow> (ch', PollRunning)
              | (c', ch', Crashed m) \<Rightarrow> (ch', PollCrashed m)
              | (c', ch', Ended err) \<Rightarrow>
                  (if \<not> errors_is err CtxCanceled \<and> pr_wait_done p then (ch', PollReturned)
                   else pollPJLinkTelemetry tc dev ps ch'))))"

definition ListenTelemetry :: "tcp_communicator \<Rightarrow> device \<Rightarrow> poll_round list \<Rightarrow> telemetry_chan
    \<Rightarrow> telemetry_chan \<times> poll_end \<times> go_error option" where
  "ListenTelemetry tc dev rounds ch =
     (if dev_Protocol dev = ProtocolPJLink
      then (let (ch', e) = pollPJLinkTelemetry tc dev rounds ch in (ch', e, None))
      else (ch, PollReturned, Some (OtherErr ''streaming telemetry not supported over raw TCP in MVP'')))"

section \<open>Lemmas\<close>

text \<open>What the poller puts on the channel belongs to its device and can be marshalled.\<close>

definition telemetry_ok :: "device \<Rightarrow> device_telemetry \<Rightarrow> bool" where
  "telemetry_ok dev t \<longleftrightarrow> tel_DeviceID t = dev_ID dev \<and> tel_Data t \<noteq> [] \<and> data_ok (tel_Data t)"

lemma data_ok_put_all: "data_ok b \<Longrightarrow> data_ok m \<Longrightarrow> data_ok (put_all b m)"
proof (induction b m rule: put_all.induct)
  case (2 b k v m)
  then have "json_finite v" "data_ok m" by (auto simp: data_ok_def map_ok_def)
  with 2 show ?case by simp
qed simp

lemma put_all_neq_Nil: "b \<noteq> [] \<or> m \<noteq> [] \<Longrightarrow> put_all b m \<noteq> []"
  by (induction b m rule: put_all.induct) auto

lemma session_telemetry_ok: "telemetry_ok dev (session_telemetry dev now l p)"
proof -
  obtain ml where l: "ParseTelemetry l = Inr ml" "data_ok ml" "ml \<noteq> []"
    using ParseTelemetry_total by blast
  obtain mp where p: "ParseTelemetry p = Inr mp" "data_ok mp" "mp \<noteq> []"
    using ParseTelemetry_total by blast
  show ?thesis using l p
    by (simp add: telemetry_ok_def session_telemetry_def merge_parsed_def data_ok_put_all
        put_all_neq_Nil)
qed

definition chan_inv :: "device \<Rightarrow> device_telemetry set \<Rightarrow> telemetry_chan \<Rightarrow> bool" where
  "chan_inv dev foreign ch \<longleftrightarrow> (case ch of None \<Rightarrow> True
     | Some q \<Rightarrow> chan_ok q \<and> \<not> ch_closed q \<and> (\<forall>t \<in> set (ch_buf q). t \<in> foreign \<or> telemetry_ok dev t))"

definition put_by_others :: "session_event list \<Rightarrow> device_telemetry set" where
  "put_by_others evs = {t. OthersPut t \<in> set evs}"

lemma put_by_others_Cons:
  "put_by_others (ev # evs) \<subseteq> S \<longleftrightarrow> (\<forall>t. ev = OthersPut t \<longrightarrow> t \<in> S) \<and> put_by_others evs \<subseteq> S"
  by (auto simp: put_by_others_def)

lemma chan_inv_others:
  assumes "chan_inv dev S ch"
  shows "chan_inv dev S (map_option (\<lambda>q. fst (try_recv q)) ch)"
    "t \<in> S \<Longrightarrow> chan_inv dev S (map_option (others_put t) ch)"
  using assms
  by (auto simp: chan_inv_def try_recv_def others_put_def try_send_def chan_ok_def split: option.splits list.splits)

lemma session_loop_inv:
  "session_loop tc dev evs c ch = (c', ch', r) \<Longrightarrow> chan_inv dev S ch \<Longrightarrow> put_by_others evs \<subseteq> S \<Longrightarrow>
     chan_inv dev S ch' \<and> (\<forall>m. r \<noteq> Crashed m) \<and> (ch' = None) = (ch = None)"
proof (induction tc dev evs c ch rule: session_loop.induct)
  case (3 tc dev evs c ch)
  with chan_inv_others(1) [OF "3.prems"(2)] show ?case by (simp add: put_by_others_Cons)
next
  case (4 tc dev t evs c ch)
  with chan_inv_others(2) [OF "4.prems"(2)] show ?case by (simp add: put_by_others_Cons)
next
  case (5 tc dev now d p evs c ch)
  have later: "put_by_others evs \<subseteq> S" using "5.prems"(3) by (simp add: put_by_others_Cons)
  obtain c1 res where q: "session_queries tc now c = (c1, res)" by (metis surj_pair)
  show ?case
  proof (cases res)
    case (Inl err)
    with 5 q show ?thesis by auto
  next
    case (Inr r2)
    obtain l pw where r2: "r2 = (l, pw)" by (metis surj_pair)
    show ?thesis
    proof (cases ch)
      case None
      with 5 q Inr r2 later show ?thesis by auto
    next
      case (Some qq)
      let ?t = "session_telemetry dev now l pw"
      have opn: "\<not> ch_closed qq" using "5.prems"(2) Some by (simp add: chan_inv_def)
      from offer_returns [OF this] obtain q' o' where o: "offer d p qq ?t = Ret (q', o')" by blast
      have inv: "chan_inv dev S (Some q')"
        using "5.prems"(2) Some o opn session_telemetry_ok [of dev now l pw]
        by (auto simp: chan_inv_def offer_open chan_ok_def split: if_splits)
      show ?thesis using "5.prems" "5.IH"(2,3) q Inr r2 Some o inv later by (cases o') auto
    qed
  qed
qed auto

lemma runPJLinkSession_inv:
  assumes "runPJLinkSession tc dev now evs c ch = (c', ch', r)" and "chan_inv dev S ch" and "put_by_others evs \<subseteq> S"
  shows "chan_inv dev S ch' \<and> (\<forall>m. r \<noteq> Crashed m) \<and> (ch' = None) = (ch = None)"
  using assms
  by (auto simp: runPJLinkSession_def dest: session_loop_inv split: prod.splits option.splits if_splits)

lemma poll_inv:
  "pollPJLinkTelemetry tc dev ps ch = (ch', r) \<Longrightarrow> chan_inv dev S ch \<Longrightarrow>
     (\<Union>p \<in> set ps. put_by_others (pr_events p)) \<subseteq> S \<Longrightarrow>
     chan_inv dev S ch' \<and> (\<forall>m. r \<noteq> PollCrashed m) \<and> (ch' = None) = (ch = None)"
proof (induction tc dev ps ch rule: pollPJLinkTelemetry.induct)
  case (2 tc dev p ps ch)
  show ?case
  proof (cases "pr_done p \<or> isl (pr_dial p)")
    case True
    with 2 show ?thesis by (cases "pr_dial p") (auto split: if_splits)
  next
    case False
    then obtain c where c: "pr_dial p = Inr c" by (cases "pr_dial p") auto
    obtain c1 ch1 e where s: "runPJLinkSession tc dev (pr_now p) (pr_events p) c ch = (c1, ch1, e)"
      by (metis prod_cases3)
    have puts: "put_by_others (pr_events p) \<subseteq> S" "(\<Union>p \<in> set ps. put_by_others (pr_events p)) \<subseteq> S"
      using "2.prems"(3) by auto
    note inv = runPJLinkSession_inv [OF s "2.prems"(2) puts(1)]
    show ?thesis
      using "2.prems" "2.IH"(2) False c s inv puts(2) by (cases e) (auto split: if_splits)
  qed
qed auto

section \<open>Properties\<close>

text \<open>C24: the telemetry poller cannot corrupt the channel it shares with other producers and the
  buffer worker.  Starting from any open channel, whatever telemetry of whatever devices is in it,
  and whatever the device sends, however dials, sessions and cancellations follow each other, and
  whatever the others take from the channel and send to it meanwhile, the poller does not panic, and
  the channel stays open and within its capacity; everything in it was there at the start, was sent by
  the others, or is telemetry of the poller's own device that is not empty and that
  \<open>json.Marshal\<close> can write.  A device that is not PJLink is refused with an error.\<close>

theorem poller_keeps_channel:
  assumes "\<not> ch_closed q" and "length (ch_buf q) \<le> ch_cap q"
  shows "case ListenTelemetry tc dev rounds (Some q) of (ch', stopped, err) \<Rightarrow>
    (\<exists>q'. ch' = Some q' \<and> \<not> ch_closed q' \<and> length (ch_buf q') \<le> ch_cap q' \<and>
       (\<forall>t \<in> set (ch_buf q'). t \<in> set (ch_buf q) \<or> (\<exists>p \<in> set rounds. t \<in> put_by_others (pr_events p)) \<or>
          tel_DeviceID t = dev_ID dev \<and> tel_Data t \<noteq> [] \<and> json_finite (telemetry_json t))) \<and>
    (case stopped of PollCrashed m \<Rightarrow> False | _ \<Rightarrow> True) \<and>
    (err = None) = (dev_Protocol dev = ProtocolPJLink)"
proof -
  obtain ch' e where p: "pollPJLinkTelemetry tc dev rounds (Some q) = (ch', e)" by (metis surj_pair)
  let ?S = "set (ch_buf q) \<union> (\<Union>p \<in> set rounds. put_by_others (pr_events p))"
  have good: "telemetry_ok dev t \<Longrightarrow> tel_DeviceID t = dev_ID dev \<and> tel_Data t \<noteq> [] \<and>
      json_finite (telemetry_json t)" for t
    by (simp add: telemetry_ok_def data_ok_def json_finite_telemetry)
  have inv: "chan_inv dev ?S (Some q)"
    using assms by (simp add: chan_inv_def chan_ok_def)
  have stay: "ch \<noteq> None \<Longrightarrow> chan_inv dev ?S ch \<Longrightarrow> \<exists>q'. ch = Some q' \<and> \<not> ch_closed q' \<and>
      length (ch_buf q') \<le> ch_cap q' \<and> (\<forall>t \<in> set (ch_buf q'). t \<in> set (ch_buf q) \<or>
        (\<exists>p \<in> set rounds. t \<in> put_by_others (pr_events p)) \<or>
        tel_DeviceID t = dev_ID dev \<and> tel_Data t \<noteq> [] \<and> json_finite (telemetry_json t))" for ch
    using good by (fastforce simp: chan_inv_def chan_ok_def)
  from poll_inv [OF p inv] have "chan_inv dev ?S ch'" "ch' \<noteq> None" "\<forall>m. e \<noteq> PollCrashed m" by auto
  with stay [of ch'] stay [of "Some q"] inv p show ?thesis
    by (auto simp: ListenTelemetry_def split: poll_end.split)
qed

text \<open>One session of a projector that answers a tick, on a channel that another device shares.\<close>

definition other_telemetry :: device_telemetry where
  "other_telemetry = \<lparr>tel_CorrelationID = [], tel_DeviceID = ''Other'', tel_Timestamp = 0, tel_Data = [(''x'', JNull)]\<rparr>"

definition sample_round :: poll_round where
  "sample_round = \<lparr>pr_done = False, pr_dial = Inr (sample_conn (''PJLINK 0'' @ [CR] @ ''%1LAMP=42 1'' @ [CR] @
     ''%1POWR=1'' @ [CR])), pr_now = 0, pr_events = [OthersPut other_telemetry, Tick 1 False False], pr_wait_done = False\<rparr>"

lemma poller_keeps_channel_witness:
  "\<exists>q'. ListenTelemetry (NewTCPCommunicator 5000) projector [sample_round] (Some (make_chan 100)) =
      (Some q', PollRunning, None) \<and> map tel_DeviceID (ch_buf q') = [''Other'', ''Projector01''] \<and>
    tel_Data (ch_buf q' ! 1) = [(''lamp_hours'', JInt 42), (''lamp_status'', JStr ''ON''), (''powerState'', JStr ''ON'')] \<and>
    \<not> ch_closed q'"
proof -
  have "(\<lambda>(ch, e, err). map_option (\<lambda>q. (map tel_DeviceID (ch_buf q), tel_Data (ch_buf q ! 1))) ch)
      (ListenTelemetry (NewTCPCommunicator 5000) projector [sample_round] (Some (make_chan 100))) =
    Some ([''Other'', ''Projector01''], [(''lamp_hours'', JInt 42), (''lamp_status'', JStr ''ON''), (''powerState'', JStr ''ON'')])"
    by code_simp
  moreover have "(\<lambda>(ch, e, err). e) (ListenTelemetry (NewTCPCommunicator 5000) projector [sample_round] (Some (make_chan 100))) =
    PollRunning" by code_simp
  ultimately show ?thesis
    using poller_keeps_channel [of "make_chan 100" "[sample_round]" projector "NewTCPCommunicator 5000"]
    by (auto simp: make_chan_def split: prod.splits)
qed

end
