(* ===== verification/AdapterFactory.thy ===== *)
theory AdapterFactory
  imports PJLinkAdapter
begin

text \<open>
  \<open>internal/adapters/protocols/adapter_factory.go\<close>: the map from protocol names to
  adapters.  Each operation holds the factory's mutex, so it is one atomic function here.
\<close>

record factory =
  fac_adapters :: "adapter gomap"

definition NewAdapterFactory :: factory where
  "NewAdapterFactory = \<lparr>fac_adapters = []\<rparr>"

definition RegisterAdapter :: "factory \<Rightarrow> protocol \<Rightarrow> adapter \<Rightarrow> factory" where
  "RegisterAdapter f protocol ad = f\<lparr>fac_adapters := go_put protocol ad (fac_adapters f)\<rparr>"

definition GetAdapter :: "factory \<Rightarrow> protocol \<Rightarrow> adapter result" where
  "GetAdapter f protocol =
     (case go_get (fac_adapters f) protocol of
        Some ad \<Rightarrow> Inr ad
      | None \<Rightarrow> Inl (OtherErr (''no adapter registered for protocol: '' @ protocol)))"

definition adapter_factory_ops :: "factory factory_ops" where
  "adapter_factory_ops = \<lparr>op_GetAdapter = GetAdapter\<rparr>"

lemma adapter_factory_ops_simps [simp]: "op_GetAdapter adapter_factory_ops = GetAdapter"
  by (simp add: adapter_factory_ops_def)

lemma GetAdapter_New: "GetAdapter NewAdapterFactory p = Inl (OtherErr (''no adapter registered for protocol: '' @ p))"
  by (simp add: GetAdapter_def NewAdapterFactory_def)

lemma GetAdapter_Register:
  "GetAdapter (RegisterAdapter f p ad) q = (if q = p then Inr ad else GetAdapter f q)"
  by (simp add: GetAdapter_def RegisterAdapter_def get_put)

text \<open>The factory as \<open>main\<close> sets it up.\<close>

definition gateway_factory :: factory where
  "gateway_factory = RegisterAdapter NewAdapterFactory ProtocolPJLink NewPJLinkAdapter"

lemma GetAdapter_gateway:
  "GetAdapter gateway_factory p =
     (if p = ProtocolPJLink then Inr NewPJLinkAdapter
      else Inl (OtherErr (''no adapter registered for protocol: '' @ p)))"
  by (simp add: gateway_factory_def GetAdapter_Register GetAdapter_New)

end
