(* ===== verification/Gateway.thy ===== *)
theory Gateway
  imports Config Publisher AzureCloud Observability RouterSystem TelemetryPoller AdapterFactory
begin

text \<open>
  \<open>cmd/gateway/main.go\<close>: the log level, the start-up sequence and the wiring of the
  components, and the pass-through of telemetry from the registry to the buffer.  The router's
  interfaces are discharged here for the engine that \<open>main\<close> builds.
\<close>

section \<open>Log level\<close>

datatype log_level = LevelDebug | LevelInfo | LevelWarn | LevelError

fun level_value :: "log_level \<Rightarrow> int" where
  "level_value LevelDebug = -4"
| "level_value LevelInfo = 0"
| "level_value LevelWarn = 4"
| "level_value LevelError = 8"

instantiation log_level :: linorder
begin

definition less_eq_log_level :: "log_level \<Rightarrow> log_level \<Rightarrow> bool" where
  "less_eq_log_level a b \<longleftrightarrow> level_value a \<le> level_value b"

definition less_log_level :: "log_level \<Rightarrow> log_level \<Rightarrow> bool" where
  "less_log_level a b \<longleftrightarrow> level_value a < level_value b"

instance
proof
  fix a b :: log_level
  assume "a \<le> b" "b \<le> a"
  then show "a = b" by (cases a; cases b) (simp_all add: less_eq_log_level_def)
qed (auto simp: less_eq_log_level_def less_log_level_def)

end

definition parse_log_level :: "string \<Rightarrow> log_level" where
  "parse_log_level s =
     (let l = to_lower s
      in if l = ''debug'' then LevelDebug else if l = ''warn'' then LevelWarn
         else if l = ''error'' then LevelError else LevelInfo)"

text \<open>The JSON handler writes a record when its level is at least the configured one.\<close>

definition log_enabled :: "log_level \<Rightarrow> log_level \<Rightarrow> bool" where
  "log_enabled configured level = (configured \<le> level)"

section \<open>Wiring\<close>

text \<open>
  The libraries and the parts of the standard library left open: the MQTT client, the
  Prometheus collectors, \<open>Duration.Seconds\<close>, \<open>%v\<close> of a \<open>float64\<close>, the clock the
  communicator reads, the clock of the alerts, and both orders.  \<open>gl_dispatch\<close> is the name by which
  the MQTT client knows the callback that \<open>main\<close> registers, \<open>engine.DispatchCommand\<close>.
\<close>

record ('p, 'cb, 'm) gateway_lib =
  gl_mqtt :: "('p, 'cb) mqtt_lib"
  gl_dispatch :: 'cb
  gl_prom :: "'m prom_lib"
  gl_seconds :: "int \<Rightarrow> float64"
  gl_tcp_clock :: "nat \<Rightarrow> time"
  gl_rules :: rules_env
  gl_map_order :: "device list \<Rightarrow> device list"
  gl_sql_order :: "row list \<Rightarrow> row list"

definition gateway_options :: "config \<Rightarrow> engine_option list" where
  "gateway_options cfg =
     [WithTimeout (millis (cfg_NetworkTimeout cfg)),
      WithWorkerPoolSize (cfg_WorkerPoolSize cfg),
      WithCommandQueueSize (cfg_CommandQueueSize cfg),
      WithRetryPolicy \<lparr>MaxAttempts = cfg_RetryMaxAttempts cfg,
        BaseBackoff = millis (cfg_RetryBaseBackoffMs cfg)\<rparr>]"

definition gateway_buffer :: "('p, 'cb, 'm) gateway_lib \<Rightarrow> config \<Rightarrow> sqlite buffer_ops option" where
  "gateway_buffer lib cfg =
     (if cfg_SQLiteDBPath cfg \<noteq> [] then Some (sqlite_buffer_ops (gl_sql_order lib)) else None)"

definition gateway_engine :: "('p, 'cb, 'm) gateway_lib \<Rightarrow> config \<Rightarrow> engine_settings \<Rightarrow>
    (registry, ('p, 'cb) azure, net, sqlite, 'm) engine" where
  "gateway_engine lib cfg st = \<lparr>
     eng_registry = static_registry_ops (gl_map_order lib),
     eng_cloud = azure_ops (gl_mqtt lib),
     eng_tcpComm = tcp_ops (NewTCPCommunicator (cfg_NetworkTimeout cfg)) (gl_tcp_clock lib),
     eng_GetAdapter = GetAdapter gateway_factory,
     eng_metrics = Some (prom_metrics_ops (gl_prom lib) (gl_seconds lib)),
     eng_buffer = gateway_buffer lib cfg,
     eng_retryPolicy = set_retryPolicy st,
     eng_networkTimeout = set_networkTimeout st\<rparr>"

lemma gateway_engine_simps [simp]:
  "eng_registry (gateway_engine lib cfg st) = static_registry_ops (gl_map_order lib)"
  "eng_cloud (gateway_engine lib cfg st) = azure_ops (gl_mqtt lib)"
  "eng_GetAdapter (gateway_engine lib cfg st) = GetAdapter gateway_factory"
  "eng_buffer (gateway_engine lib cfg st) = gateway_buffer lib cfg"
  "eng_retryPolicy (gateway_engine lib cfg st) = set_retryPolicy st"
  "eng_networkTimeout (gateway_engine lib cfg st) = set_networkTimeout st"
  "eng_tcpComm (gateway_engine lib cfg st) =
     tcp_ops (NewTCPCommunicator (cfg_NetworkTimeout cfg)) (gl_tcp_clock lib)"
  by (simp_all add: gateway_engine_def)

section \<open>Start-up\<close>

text \<open>
  What start-up meets, with the times at which \<open>initCtx\<close> is created and \<open>Load\<close> returns, and the
  gateway it leaves running, or the exit status 1.
\<close>

record ('body, 'm) start_env =
  ge_unmarshal :: "(string \<times> setting) list \<Rightarrow> config result"
  ge_init :: time
  ge_load :: "'body load_env"
  ge_loaded :: time
  ge_sqlite :: sqlite_env
  ge_net :: net
  ge_prom :: 'm

record ('p, 'cb, 'm) gateway =
  gw_config :: config
  gw_level :: log_level
  gw_settings :: engine_settings
  gw_engine :: "(registry, ('p, 'cb) azure, net, sqlite, 'm) engine"
  gw_world :: "(registry, ('p, 'cb) azure, net, sqlite, 'm) world"
  gw_health :: "(('p, 'cb) azure, sqlite) health"
  gw_publisher :: "('p, 'cb) azure publisher"
  gw_poller :: "poller option"
  gw_retention :: duration

datatype 'a startup = ExitFailure | Started 'a

definition gateway_publisher :: "('p, 'cb, 'm) gateway_lib \<Rightarrow> config \<Rightarrow> ('p, 'cb) azure publisher" where
  "gateway_publisher lib cfg = NewPrometheusPublisher (gl_rules lib) (cfg_PrometheusURL cfg)
     (cfg_PrometheusMetrics cfg) (cfg_PrometheusPollInterval cfg) (cfg_PrometheusMqttTopic cfg)
     (azure_ops (gl_mqtt lib))"

definition gateway_assemble :: "('p, 'cb, 'm) gateway_lib \<Rightarrow> config \<Rightarrow> engine_settings \<Rightarrow> poller option \<Rightarrow>
    registry \<Rightarrow> net \<Rightarrow> sqlite \<Rightarrow> 'm \<Rightarrow> ('p, 'cb, 'm) gateway" where
  "gateway_assemble lib cfg st poller r n db m = \<lparr>
     gw_config = cfg,
     gw_level = parse_log_level (cfg_LogLevel cfg),
     gw_settings = st,
     gw_engine = gateway_engine lib cfg st,
     gw_world = \<lparr>w_reg = r, w_cloud = NewAzureMQTTClient (cfg_IotHubHostname cfg), w_net = n,
       w_buf = db, w_met = m, w_now = 0, w_waits = []\<rparr>,
     gw_health = NewHealthService (azure_ops (gl_mqtt lib)) (gateway_buffer lib cfg)
       (cfg_FetchEndpointPath cfg),
     gw_publisher = gateway_publisher lib cfg,
     gw_poller = poller,
     gw_retention = minutes (cfg_RetentionWindowMinutes cfg)\<rparr>"

text \<open>Without a database path no buffer is opened; the empty table then stands for nothing.\<close>

definition open_buffer :: "config \<Rightarrow> sqlite_env \<Rightarrow> sqlite result" where
  "open_buffer cfg env = (if cfg_SQLiteDBPath cfg \<noteq> [] then NewSQLiteBuffer env else Inr empty_db)"

text \<open>The time-out of \<open>initCtx\<close>, the context that the registry's poller gets.\<close>

definition init_timeout :: time where
  "init_timeout = 10 * 1000000000"

definition gateway_main :: "('p, 'cb, 'm) gateway_lib \<Rightarrow> ('body, 'm) start_env \<Rightarrow>
    ('p, 'cb, 'm) gateway startup outcome" where
  "gateway_main lib env =
     (case LoadConfig (ge_unmarshal env) of
        Inl err \<Rightarrow> Ret ExitFailure
      | Inr cfg \<Rightarrow>
          (case Load (ge_load env) (ge_init env + init_timeout) (ge_loaded env)
                  (NewStaticJSONRegistry (cfg_RegistryPath cfg)) of
             Panic m \<Rightarrow> Panic m
           | Ret (r, Some err, poller) \<Rightarrow> Ret ExitFailure
           | Ret (r, None, poller) \<Rightarrow>
               (case open_buffer cfg (ge_sqlite env) of
                  Inl err \<Rightarrow> Ret ExitFailure
                | Inr db \<Rightarrow>
                    (case newMetricsService (gl_prom lib) (ge_prom env) of
                       Panic m \<Rightarrow> Panic m
                     | Ret met \<Rightarrow>
                         (case NewEngine (gateway_options cfg) of
                            Panic m \<Rightarrow> Panic m
                          | Ret st \<Rightarrow>
                              Ret (Started (gateway_assemble lib cfg st poller r (ge_net env) db met)))))))"

section \<open>Telemetry pass-through\<close>

definition vdr_telemetry :: "time \<Rightarrow> time \<Rightarrow> device \<Rightarrow> device_telemetry" where
  "vdr_telemetry now1 now2 dev = \<lparr>tel_CorrelationID = ''vdr-pass-'' @ show_int now1,
     tel_DeviceID = dev_ID dev, tel_Timestamp = now2, tel_Data = dev_Telemetry dev\<rparr>"

text \<open>The background worker that empties the channel into the buffer: one turn.\<close>

definition buffer_turn :: "'b buffer_ops option \<Rightarrow> time \<Rightarrow> device_telemetry channel \<times> 'b \<Rightarrow>
    device_telemetry channel \<times> 'b" where
  "buffer_turn buf now s =
     (case try_recv (fst s) of
        (ch', Received t) \<Rightarrow>
          (ch', (case buf of
                   Some ops \<Rightarrow> fst (op_AddData ops (snd s) now ''telemetry'' (telemetry_json t))
                 | None \<Rightarrow> snd s))
      | (ch', _) \<Rightarrow> s)"

text \<open>
  Both goroutines, in any interleaving.  The one that pushes is at its outer \<open>select\<close> while
  \<open>ps_todo\<close> is empty: a tick (\<open>VdrTick\<close>) lists the devices, \<open>PusherDone\<close> returns.  Otherwise it is
  in its loop, and \<open>VdrOffer\<close> is one round of it: a device without telemetry is skipped, the
  telemetry of the others offered, with the context done or not and the ready branch taken;
  the other goroutine can come between any two rounds.
\<close>

record 'b pass_state =
  ps_chan :: "device_telemetry channel"
  ps_buf :: 'b
  ps_pusher :: bool
  ps_todo :: "device list"
  ps_worker :: bool

datatype 'r pass_event =
    VdrTick 'r
  | VdrOffer bool bool time time
  | PusherDone
  | BufferTurn time
  | WorkerDone

definition pass_start :: "'b \<Rightarrow> 'b pass_state" where
  "pass_start b = \<lparr>ps_chan = make_chan 100, ps_buf = b, ps_pusher = True, ps_todo = [], ps_worker = True\<rparr>"

definition vdr_offer :: "bool \<Rightarrow> bool \<Rightarrow> device_telemetry \<Rightarrow> 'b pass_state \<Rightarrow> 'b pass_state outcome" where
  "vdr_offer ctx_done pick_done t s =
     (case offer ctx_done pick_done (ps_chan s) t of
        Panic m \<Rightarrow> Panic m
      | Ret (ch', DoneTaken) \<Rightarrow> Ret (s\<lparr>ps_chan := ch', ps_pusher := False\<rparr>)
      | Ret (ch', r) \<Rightarrow> Ret (s\<lparr>ps_chan := ch', ps_todo := tl (ps_todo s)\<rparr>))"

fun pass_step :: "'r registry_ops \<Rightarrow> 'b buffer_ops option \<Rightarrow> 'r pass_event \<Rightarrow> 'b pass_state \<Rightarrow>
    'b pass_state outcome" where
  "pass_step rops buf (VdrTick r) s =
     Ret (if ps_pusher s \<and> ps_todo s = [] then s\<lparr>ps_todo := op_ListDevices rops r\<rparr> else s)"
| "pass_step rops buf (VdrOffer ctx_done pick_done now1 now2) s =
     (if \<not> ps_pusher s then Ret s
      else (case ps_todo s of
              [] \<Rightarrow> Ret s
            | dev # devs \<Rightarrow>
                (if dev_Telemetry dev = [] then Ret (s\<lparr>ps_todo := devs\<rparr>)
                 else vdr_offer ctx_done pick_done (vdr_telemetry now1 now2 dev) s)))"
| "pass_step rops buf PusherDone s = Ret (if ps_todo s = [] then s\<lparr>ps_pusher := False\<rparr> else s)"
| "pass_step rops buf (BufferTurn now) s =
     (if \<not> ps_worker s then Ret s
      else (let (ch', b') = buffer_turn buf now (ps_chan s, ps_buf s)
            in Ret (s\<lparr>ps_chan := ch', ps_buf := b'\<rparr>)))"
| "pass_step rops buf WorkerDone s = Ret (s\<lparr>ps_worker := False\<rparr>)"

fun pass_run :: "'r registry_ops \<Rightarrow> 'b buffer_ops option \<Rightarrow> 'r pass_event list \<Rightarrow> 'b pass_state \<Rightarrow>
    'b pass_state outcome" where
  "pass_run rops buf [] s = Ret s"
| "pass_run rops buf (ev # evs) s =
     (case pass_step rops buf ev s of Panic m \<Rightarrow> Panic m | Ret s' \<Rightarrow> pass_run rops buf evs s')"

section \<open>The gateway's engine meets the interfaces\<close>

lemma gateway_router_registry:
  "map_order (gl_map_order lib) \<Longrightarrow> router_registry (gateway_engine lib cfg st) reg_ok reg_view"
  by (simp add: router_registry_def static_registry_interface)

lemma gateway_router_buffer:
  assumes "sql_order (gl_sql_order lib)" and "cfg_SQLiteDBPath cfg \<noteq> []"
  shows "router_buffer (sqlite_buffer_ops (gl_sql_order lib)) db_ok db_contents (gateway_engine lib cfg st)"
  using sqlite_buffer_interface [OF assms(1)] assms(2)
  by (simp add: router_buffer_def router_buffer_axioms_def gateway_buffer_def)

interpretation gwr: router_registry "gateway_engine (lib\<lparr>gl_map_order := \<lambda>xs. xs\<rparr>) cfg st" reg_ok reg_view
  for lib cfg st
  by (rule gateway_router_registry) (simp add: map_order_id)

interpretation gwb: router_buffer "sqlite_buffer_ops (sort_key row_timestamp)" db_ok db_contents
    "gateway_engine (lib\<lparr>gl_sql_order := sort_key row_timestamp\<rparr>) (decode_config pd host config_defaults) st"
  for lib pd host st
  using gateway_router_buffer [of "lib\<lparr>gl_sql_order := sort_key row_timestamp\<rparr>"
      "decode_config pd host config_defaults" st for lib pd host st]
  by (simp add: sql_order_sort)

text \<open>The northbound loop as a client of the cloud: without a connection nothing is sent.\<close>

context cloud_client
begin

lemma tries_offline: "\<not> op_IsConnected ops c \<Longrightarrow> publish_tries ops t n c = (c, n, False)"
proof (induction n)
  case (Suc n)
  obtain e where "op_SendTelemetry ops c t = (c, Some e)" using send_offline [OF Suc.prems] by blast
  with Suc show ?case by simp
qed simp

end

section \<open>Commands on the gateway\<close>

lemma gateway_rejects:
  assumes "op_GetDevice (static_registry_ops ord) (w_reg w) (cmd_DeviceID cmd) = Inl err \<or>
    (\<exists>dev. GetDevice (w_reg w) (cmd_DeviceID cmd) = Inr dev \<and> dev_Protocol dev \<noteq> ProtocolPJLink) \<or>
    cmd_CommandName cmd \<notin> {CmdTurnOn, CmdTurnOff, CmdGetStatus}"
  shows "routed (gateway_engine lib cfg st) env cmd w = None"
  using assms
  by (auto simp: routed_def Let_def GetAdapter_gateway TranslateCommand_def split: sum.split)

lemma followups_data:
  "run_followups e env dev NewPJLinkAdapter ps tel w = (w1, data, None) \<Longrightarrow>
     data_ok tel \<Longrightarrow> tel \<noteq> [] \<Longrightarrow> data_ok data \<and> data \<noteq> []"
proof (induction ps arbitrary: tel w)
  case (Cons p ps)
  obtain w2 resp er where x: "executeWithRetry e env dev p w = (w2, resp, er)" by (metis prod_cases3)
  obtain m where m: "ParseTelemetry resp = Inr m" "data_ok m" using ParseTelemetry_total by blast
  from Cons.prems x m have "run_followups e env dev NewPJLinkAdapter ps (mergeTelemetry tel m) w2 = (w1, data, None)"
    by (auto split: option.splits)
  with Cons.IH Cons.prems(2,3) m(2) show ?case
    by (simp add: mergeTelemetry_def data_ok_put_all put_all_neq_Nil)
qed simp

lemma chain_data:
  assumes "executeCommandChain e env dev NewPJLinkAdapter cmd p w = (w1, data, None)"
  shows "data_ok data \<and> data \<noteq> []"
proof -
  obtain w2 resp er where x: "executeWithRetry e env dev p w = (w2, resp, er)" by (metis prod_cases3)
  obtain m where m: "ParseTelemetry resp = Inr m" "data_ok m" "m \<noteq> []" using ParseTelemetry_total by blast
  have "\<exists>ps. FollowUpCommands cmd = Inr ps" by (simp add: FollowUpCommands_def)
  then obtain ps where ps: "FollowUpCommands cmd = Inr ps" by blast
  from assms x m ps have "run_followups e env dev NewPJLinkAdapter ps m w2 = (w1, data, None)"
    by (auto simp: executeCommandChain_def split: option.splits)
  from followups_data [OF this m(2,3)] show ?thesis .
qed

lemma gateway_routed:
  assumes "routed (gateway_engine lib cfg st) env cmd w = Some (dev, w1, data, r)"
  shows "GetDevice (w_reg w) (cmd_DeviceID cmd) = Inr dev \<and> dev_Protocol dev = ProtocolPJLink \<and>
    (r = None \<longrightarrow> data_ok data \<and> data \<noteq> [])"
  using assms chain_data
  by (fastforce simp: routed_def Let_def GetAdapter_gateway split: sum.splits if_splits)

end
