(* ===== verification/GatewaySystem.thy ===== *)
theory GatewaySystem
  imports Gateway
begin

text \<open>
  Lemmas on the whole gateway: a status query through the router, the communicator, the
  adapter, the registry and the buffer; the invariant of the telemetry pass-through, as a
  client of the buffer's interface; what start-up establishes.
\<close>

section \<open>A status query\<close>

text \<open>A device that greets and answers one line, on a connection without faults.\<close>

definition answers :: "conn \<Rightarrow> bytes \<Rightarrow> bool" where
  "answers c line \<longleftrightarrow> con_incoming c = clean (''PJLINK 0'' @ [CR]) @ clean (line @ [CR]) \<and>
     con_write_errs c = [] \<and> con_deadline_errs c = []"

lemma greeting: "trim_space (''PJLINK 0'' @ [CR]) = ''PJLINK 0''"
proof -
  have "trimmed (''PJLINK 0'')"
    using trimmed_header [of "CHR ''P''" "CHR ''K''" "''0''" "''JLIN''"]
      trimmed_header [of "CHR ''P''" "CHR ''0''" "[]" "''JLINK ''"] by (simp add: plain_def trimmed_def)
  then show ?thesis by (rule trim_space_CR) simp
qed

lemma SendCommand_answers:
  assumes "net_dials n = Inr c # ds" and "answers c line" and "dev_Protocol dev = ProtocolPJLink"
    and "CR \<notin> set line" and "length line < 1024"
  shows "\<exists>c'. SendCommand tc now n (Some dl) dev payload =
      (\<lparr>net_dials = ds, net_log = net_log n @ [(dev_address dev, Some c')]\<rparr>, Inr (line @ [CR])) \<and>
    con_written c' = con_written c @ [payload]"
proof -
  let ?c = "with_deadline c (Some dl)"
  have g: "greeting_ok (''PJLINK 0'' @ [CR])" by (simp only: greeting_ok_def greeting) simp
  have "sendPJLinkCommand ?c payload = (?c\<lparr>con_incoming := [], con_written := con_written ?c @ [payload],
      con_write_errs := tl (con_write_errs ?c)\<rparr>, Inr (line @ [CR]))"
    by (rule sendPJLink_exchange [where g = "''PJLINK 0''", OF _ _ _ _ _ g])
      (use assms in \<open>simp_all add: answers_def maxPJLinkFrameBytes_def write_ok_def\<close>)
  from SendCommand_pjlink [OF assms(1) _ assms(3) this] assms(2) show ?thesis
    by (simp add: answers_def)
qed

lemma execute_answers:
  assumes "1 \<le> MaxAttempts (set_retryPolicy st)" and "net_dials (w_net w) = Inr c # ds" and "answers c line"
    and "dev_Protocol dev = ProtocolPJLink" and "CR \<notin> set line" and "length line < 1024"
  shows "\<exists>c'. executeWithRetry (gateway_engine lib cfg st) env dev payload w =
      (w\<lparr>w_now := Suc (w_now w), w_net := \<lparr>net_dials = ds,
         net_log = net_log (w_net w) @ [(dev_address dev, Some c')]\<rparr>\<rparr>, line @ [CR], None) \<and>
    con_written c' = con_written c @ [payload]"
proof -
  let ?e = "gateway_engine lib cfg st"
  obtain c' where c': "SendCommand (NewTCPCommunicator (cfg_NetworkTimeout cfg))
      (gl_tcp_clock lib (length (net_log (w_net w)))) (w_net w)
      (Some (env_clock env (w_now w) + sint (set_networkTimeout st))) dev payload =
      (\<lparr>net_dials = ds, net_log = net_log (w_net w) @ [(dev_address dev, Some c')]\<rparr>, Inr (line @ [CR]))"
    "con_written c' = con_written c @ [payload]"
    using SendCommand_answers [OF assms(2-6)] by blast
  then have "send_once ?e env dev payload w = (w\<lparr>w_now := Suc (w_now w), w_net := \<lparr>net_dials = ds,
      net_log = net_log (w_net w) @ [(dev_address dev, Some c')]\<rparr>\<rparr>, Inr (line @ [CR]))"
    by (simp add: send_once_def time_now_def tcp_ops_def)
  from executeWithRetry_success [OF _ this] assms(1) c'(2) show ?thesis by (intro exI [of _ c']) simp
qed

definition status_data :: "string \<Rightarrow> nat \<Rightarrow> string \<Rightarrow> json gomap" where
  "status_data pv h lv = [(''powerState'', JStr (power_state pv)), (''lamp_hours'', JInt (int h)),
     (''lamp_status'', JStr (if lv = ''1'' then ''ON'' else ''OFF''))]"

lemma power_digit:
  assumes "pv \<in> {''0'', ''1'', ''2'', ''3''}"
  shows "ParseTelemetry (''%1POWR='' @ pv @ [CR]) = Inr [(''powerState'', JStr (power_state pv))]"
proof (rule ParseTelemetry_POWR)
  show "trimmed pv" using assms by (intro trimmed_word) (auto simp: plain_def)
qed (use assms in \<open>auto simp: frame_eval parsePJLinkError_def\<close>)

lemma status_chain:
  assumes "1 \<le> MaxAttempts (set_retryPolicy st)" and "dev_Protocol dev = ProtocolPJLink"
    and "cmd_CommandName cmd = CmdGetStatus"
    and "net_dials (w_net w) = Inr c1 # Inr c2 # ds"
    and "answers c1 (''%1POWR='' @ pv)" and "pv \<in> {''0'', ''1'', ''2'', ''3''}"
    and "answers c2 (''%1LAMP='' @ show_nat h @ '' '' @ lv)" and "lv \<in> {''0'', ''1''}" and "int h < 2 ^ 63"
  shows "\<exists>d1 d2. executeCommandChain (gateway_engine lib cfg st) env dev NewPJLinkAdapter cmd
        (''%1POWR ?'' @ [CR]) w =
      (w\<lparr>w_now := w_now w + 2, w_net := \<lparr>net_dials = ds, net_log = net_log (w_net w) @
          [(dev_address dev, Some d1), (dev_address dev, Some d2)]\<rparr>\<rparr>, status_data pv h lv, None) \<and>
    con_written d1 = con_written c1 @ [''%1POWR ?'' @ [CR]] \<and>
    con_written d2 = con_written c2 @ [''%1LAMP ?'' @ [CR]]"
proof -
  let ?e = "gateway_engine lib cfg st"
  have l1: "CR \<notin> set (''%1POWR='' @ pv)" "length (''%1POWR='' @ pv) < 1024" using assms(6) by auto
  obtain d1 where d1: "executeWithRetry ?e env dev (''%1POWR ?'' @ [CR]) w =
      (w\<lparr>w_now := Suc (w_now w), w_net := \<lparr>net_dials = Inr c2 # ds,
         net_log = net_log (w_net w) @ [(dev_address dev, Some d1)]\<rparr>\<rparr>, (''%1POWR='' @ pv) @ [CR], None)"
    "con_written d1 = con_written c1 @ [''%1POWR ?'' @ [CR]]"
    using execute_answers [OF assms(1,4,5,2) l1] by blast
  let ?w1 = "w\<lparr>w_now := Suc (w_now w), w_net := \<lparr>net_dials = Inr c2 # ds,
         net_log = net_log (w_net w) @ [(dev_address dev, Some d1)]\<rparr>\<rparr>"
  have cr: "CR \<notin> set (show_nat h)" using show_nat_plain [of h] by (auto simp: plain_def)
  have "h < 10 ^ Suc 19" using assms(9) by simp
  then have len: "length (show_nat h) \<le> 20" using length_show_nat [of h 19] by simp
  have l2: "CR \<notin> set (''%1LAMP='' @ show_nat h @ '' '' @ lv)"
    "length (''%1LAMP='' @ show_nat h @ '' '' @ lv) < 1024" using cr len assms(8) by auto
  obtain d2 where d2: "executeWithRetry ?e env dev (''%1LAMP ?'' @ [CR]) ?w1 =
      (?w1\<lparr>w_now := Suc (w_now ?w1), w_net := \<lparr>net_dials = ds,
         net_log = net_log (w_net ?w1) @ [(dev_address dev, Some d2)]\<rparr>\<rparr>,
       (''%1LAMP='' @ show_nat h @ '' '' @ lv) @ [CR], None)"
    "con_written d2 = con_written c2 @ [''%1LAMP ?'' @ [CR]]"
    using execute_answers [OF assms(1) _ assms(7,2) l2, of ?w1 ds lib cfg env "''%1LAMP ?'' @ [CR]"] by auto
  have p1: "ParseTelemetry ((''%1POWR='' @ pv) @ [CR]) = Inr [(''powerState'', JStr (power_state pv))]"
    using power_digit [OF assms(6)] by simp
  have p2: "ParseTelemetry ((''%1LAMP='' @ show_nat h @ '' '' @ lv) @ [CR]) =
      Inr [(''lamp_hours'', JInt (int h)), (''lamp_status'', JStr (if lv = ''1'' then ''ON'' else ''OFF''))]"
    using ParseTelemetry_LAMP [of lv h] assms(8,9) by (auto simp: plain_def)
  have "run_followups ?e env dev NewPJLinkAdapter [''%1LAMP ?'' @ [CR]]
      [(''powerState'', JStr (power_state pv))] ?w1 =
      (?w1\<lparr>w_now := Suc (w_now ?w1), w_net := \<lparr>net_dials = ds,
         net_log = net_log (w_net ?w1) @ [(dev_address dev, Some d2)]\<rparr>\<rparr>, status_data pv h lv, None)"
    using d2(1) p2 by (simp add: mergeTelemetry_def status_data_def)
  then show ?thesis
    using d1 d2(2) p1 assms(3)
    by (intro exI [of _ d1] exI [of _ d2])
      (simp add: executeCommandChain_def FollowUpCommands_def)
qed

lemma gateway_status_routed:
  assumes "GetDevice (w_reg w) (cmd_DeviceID cmd) = Inr dev" and "dev_Protocol dev = ProtocolPJLink"
    and "cmd_CommandName cmd = CmdGetStatus"
  shows "routed (gateway_engine lib cfg st) env cmd w = Some (dev, executeCommandChain
    (gateway_engine lib cfg st) env dev NewPJLinkAdapter cmd (''%1POWR ?'' @ [CR]) (w\<lparr>w_now := Suc (w_now w)\<rparr>))"
  using assms by (simp add: routed_def Let_def GetAdapter_gateway TranslateCommand_def consts_simps)


lemma process_net:
  "w_net (processCommand e env cmd w) =
     (case routed e env cmd w of None \<Rightarrow> w_net w | Some (dev, w1, data, r) \<Rightarrow> w_net w1)"
  by (auto simp: processCommand_routed Let_def frame_simps split: option.split)

text \<open>
  Without an attempt allowed the retry loop returns neither a response nor an error, and the
  command counts as executed: the device goes online with nothing sent.
\<close>

lemma no_attempts_reports_online:
  assumes "MaxAttempts (set_retryPolicy st) \<le> 0" and "reg_ok (w_reg w)" and "map_order (gl_map_order lib)"
    and "GetDevice (w_reg w) (cmd_DeviceID cmd) = Inr dev" and "dev_Protocol dev = ProtocolPJLink"
    and "cmd_CommandName cmd = CmdTurnOn"
  shows "w_net (processCommand (gateway_engine lib cfg st) env cmd w) = w_net w \<and>
    (\<exists>t. GetDevice (w_reg (processCommand (gateway_engine lib cfg st) env cmd w)) (cmd_DeviceID cmd) =
       Inr (dev\<lparr>dev_Status := StatusOnline, dev_LastSeen := t\<rparr>))"
proof -
  let ?e = "gateway_engine lib cfg st" and ?w0 = "w\<lparr>w_now := Suc (w_now w)\<rparr>"
  obtain m where m: "ParseTelemetry [] = Inr m" using ParseTelemetry_total by blast
  have "executeCommandChain ?e env dev NewPJLinkAdapter cmd (''%1POWR 1'' @ [CR]) ?w0 = (?w0, m, None)"
    using assms(1,6) m
    by (simp add: executeCommandChain_def executeWithRetry_none FollowUpCommands_def consts_simps)
  then have r: "routed ?e env cmd w = Some (dev, ?w0, m, None)"
    using assms(4-6) by (simp add: routed_def Let_def GetAdapter_gateway TranslateCommand_def)
  have "reg_view (w_reg (processCommand ?e env cmd w)) (cmd_DeviceID cmd) =
      Some (dev\<lparr>dev_Status := StatusOnline, dev_LastSeen := env_clock env (Suc (Suc (w_now w)))\<rparr>)"
    using router_registry.process_view [OF gateway_router_registry [OF assms(3)], of w cfg st env cmd]
      assms(2) r by simp
  with r show ?thesis by (auto simp: process_net reg_view_def GetDevice_def)
qed

section \<open>Pass-through\<close>

text \<open>The telemetry of a device as the pass-through makes it.\<close>

definition from_device :: "device \<Rightarrow> device_telemetry \<Rightarrow> bool" where
  "from_device dev t \<longleftrightarrow> dev_Telemetry dev \<noteq> [] \<and> tel_DeviceID t = dev_ID dev \<and> tel_Data t = dev_Telemetry dev"

text \<open>The registries that a run's ticks read.\<close>

fun ticked :: "'r pass_event list \<Rightarrow> 'r set" where
  "ticked [] = {}"
| "ticked (VdrTick r # evs) = insert r (ticked evs)"
| "ticked (_ # evs) = ticked evs"

definition vdr_known :: "'r registry_ops \<Rightarrow> 'r set \<Rightarrow> device_telemetry \<Rightarrow> bool" where
  "vdr_known rops rs t \<longleftrightarrow> (\<exists>r \<in> rs. \<exists>dev \<in> set (op_ListDevices rops r). from_device dev t)"

definition pass_chan_ok :: "'r registry_ops \<Rightarrow> 'r set \<Rightarrow> 'b pass_state \<Rightarrow> bool" where
  "pass_chan_ok rops rs s \<longleftrightarrow> \<not> ch_closed (ps_chan s) \<and> chan_ok (ps_chan s) \<and> ch_cap (ps_chan s) = 100 \<and>
     (\<forall>t \<in> set (ch_buf (ps_chan s)). vdr_known rops rs t) \<and>
     (\<forall>dev \<in> set (ps_todo s). \<exists>r \<in> rs. dev \<in> set (op_ListDevices rops r))"

context telemetry_buffer
begin

definition pass_inv :: "'r registry_ops \<Rightarrow> 'r set \<Rightarrow> buffered_item set \<Rightarrow> 'b pass_state \<Rightarrow> bool" where
  "pass_inv rops rs old s \<longleftrightarrow> pass_chan_ok rops rs s \<and> inv (ps_buf s) \<and>
     (\<forall>i \<in> set (contents (ps_buf s)). i \<in> old \<or>
        (\<exists>t. vdr_known rops rs t \<and> item_DataType i = ''telemetry'' \<and> item_Payload i = telemetry_json t))"

lemma buffer_turn_inv:
  assumes "pass_inv rops rs old s"
  shows "\<exists>q b. buffer_turn (Some ops) now (ps_chan s, ps_buf s) = (q, b) \<and>
    pass_inv rops rs old (s\<lparr>ps_chan := q, ps_buf := b\<rparr>)"
proof (cases "ch_buf (ps_chan s)")
  case Nil
  then have "buffer_turn (Some ops) now (ps_chan s, ps_buf s) = (ps_chan s, ps_buf s)"
    by (simp add: buffer_turn_def try_recv_def)
  with assms show ?thesis by (cases s) simp
next
  case (Cons t ts)
  let ?b = "fst (op_AddData ops (ps_buf s) now ''telemetry'' (telemetry_json t))"
  have turn: "buffer_turn (Some ops) now (ps_chan s, ps_buf s) = ((ps_chan s)\<lparr>ch_buf := ts\<rparr>, ?b)"
    using Cons by (simp add: buffer_turn_def try_recv_def)
  have i: "inv (ps_buf s)" using assms by (simp add: pass_inv_def)
  have "vdr_known rops rs t" using assms Cons by (simp add: pass_inv_def pass_chan_ok_def)
  then have "pass_inv rops rs old (s\<lparr>ps_chan := (ps_chan s)\<lparr>ch_buf := ts\<rparr>, ps_buf := ?b\<rparr>)"
    using assms Cons inv_add [OF i] add_contents [OF i]
    by (auto simp: pass_inv_def pass_chan_ok_def chan_ok_def)
  with turn show ?thesis by blast
qed

lemma vdr_known_mono: "vdr_known rops rs t \<Longrightarrow> rs \<subseteq> rs' \<Longrightarrow> vdr_known rops rs' t"
  by (auto simp: vdr_known_def)

lemma vdr_offer_inv:
  assumes "pass_inv rops rs old s" and "ps_todo s = dev # devs" and "dev_Telemetry dev \<noteq> []"
  shows "\<exists>s'. vdr_offer d p (vdr_telemetry now1 now2 dev) s = Ret s' \<and> pass_inv rops rs old s'"
proof -
  let ?t = "vdr_telemetry now1 now2 dev"
  have opn: "\<not> ch_closed (ps_chan s)" using assms(1) by (simp add: pass_inv_def pass_chan_ok_def)
  have "from_device dev ?t" using assms(3) by (simp add: from_device_def vdr_telemetry_def)
  with assms(1,2) have t: "vdr_known rops rs ?t" by (auto simp: pass_inv_def pass_chan_ok_def vdr_known_def)
  obtain q r where o: "offer d p (ps_chan s) ?t = Ret (q, r)" using offer_returns [OF opn] by blast
  have q: "\<not> ch_closed q" "chan_ok q" "ch_cap q = 100" "set (ch_buf q) \<subseteq> insert ?t (set (ch_buf (ps_chan s)))"
    using o assms(1) offer_open [OF opn, of d p ?t]
    by (auto simp: chan_ok_def pass_inv_def pass_chan_ok_def split: if_splits)
  with t assms(1,2) show ?thesis
    by (cases r) (auto simp: vdr_offer_def o pass_inv_def pass_chan_ok_def)
qed

lemma pass_step_inv:
  assumes "pass_inv rops rs old s" and "ticked [ev] \<subseteq> rs"
  shows "\<exists>s'. pass_step rops (Some ops) ev s = Ret s' \<and> pass_inv rops rs old s'"
proof (cases ev)
  case (VdrTick r)
  with assms show ?thesis by (auto simp: pass_inv_def pass_chan_ok_def)
next
  case (VdrOffer d p now1 now2)
  show ?thesis
  proof (cases "ps_todo s")
    case Nil
    with VdrOffer assms show ?thesis by simp
  next
    case (Cons dev devs)
    with assms have "pass_inv rops rs old (s\<lparr>ps_todo := devs\<rparr>)" by (auto simp: pass_inv_def pass_chan_ok_def)
    with VdrOffer Cons assms vdr_offer_inv [OF assms(1) Cons, of d p now1 now2] show ?thesis by auto
  qed
next
  case (BufferTurn now)
  with buffer_turn_inv [OF assms(1), of now] assms(1) show ?thesis by (cases "ps_worker s") auto
qed (use assms in \<open>auto simp: pass_inv_def pass_chan_ok_def\<close>)

lemma pass_run_inv:
  "pass_inv rops rs old s \<Longrightarrow> ticked evs \<subseteq> rs \<Longrightarrow>
     \<exists>s'. pass_run rops (Some ops) evs s = Ret s' \<and> pass_inv rops rs old s'"
proof (induction evs arbitrary: s)
  case (Cons ev evs)
  have "ticked [ev] \<subseteq> rs" "ticked evs \<subseteq> rs" using Cons.prems(2) by (cases ev; simp)+
  with pass_step_inv [OF Cons.prems(1)] Cons.IH show ?case by fastforce
qed simp

end

section \<open>After start-up\<close>

lemma Load_None: "Load env deadline now r = Ret (r', None, poller) \<Longrightarrow> loadOnce env r = Ret (r', None) \<and>
    poller = (if is_url (reg_path r) then Some (start_poller deadline now) else None)"
  using loadOnce_path by (fastforce simp: Load_def split: outcome.splits option.splits)

lemma NewEngine_gateway:
  "NewEngine (gateway_options cfg) =
     (if cfg_CommandQueueSize cfg < 0 then Panic ''makechan: size out of range''
      else Ret \<lparr>set_cmdChan = make_chan (nat (cfg_CommandQueueSize cfg)), set_workerPool = cfg_WorkerPoolSize cfg,
        set_retryPolicy = \<lparr>MaxAttempts = cfg_RetryMaxAttempts cfg, BaseBackoff = millis (cfg_RetryBaseBackoffMs cfg)\<rparr>,
        set_networkTimeout = millis (cfg_NetworkTimeout cfg)\<rparr>)"
  by (simp add: NewEngine_def gateway_options_def default_settings_def)

lemma gateway_main_Started:
  assumes "gateway_main lib env = Ret (Started g)"
  obtains cfg r db met st where "LoadConfig (ge_unmarshal env) = Inr cfg"
    "loadOnce (ge_load env) (NewStaticJSONRegistry (cfg_RegistryPath cfg)) = Ret (r, None)"
    "open_buffer cfg (ge_sqlite env) = Inr db" "newMetricsService (gl_prom lib) (ge_prom env) = Ret met"
    "NewEngine (gateway_options cfg) = Ret st"
    "g = gateway_assemble lib cfg st (if is_url (cfg_RegistryPath cfg)
       then Some (start_poller (ge_init env + init_timeout) (ge_loaded env)) else None) r (ge_net env) db met"
proof -
  obtain cfg where cfg: "LoadConfig (ge_unmarshal env) = Inr cfg"
    using assms by (auto simp: gateway_main_def split: sum.splits)
  obtain r p where r: "Load (ge_load env) (ge_init env + init_timeout) (ge_loaded env)
      (NewStaticJSONRegistry (cfg_RegistryPath cfg)) = Ret (r, None, p)"
    using assms cfg by (auto simp: gateway_main_def split: outcome.splits option.splits)
  obtain db where db: "open_buffer cfg (ge_sqlite env) = Inr db"
    using assms cfg r by (auto simp: gateway_main_def split: sum.splits)
  obtain met where met: "newMetricsService (gl_prom lib) (ge_prom env) = Ret met"
    using assms cfg r db by (auto simp: gateway_main_def split: outcome.splits)
  obtain st where st: "NewEngine (gateway_options cfg) = Ret st"
    using assms cfg r db met by (auto simp: gateway_main_def split: outcome.splits)
  from assms cfg r db met st have "g = gateway_assemble lib cfg st p r (ge_net env) db met"
    by (simp add: gateway_main_def)
  with Load_None [OF r] cfg db met st show thesis
    by (intro that) (simp_all add: NewStaticJSONRegistry_def)
qed

end
