(* ===== verification/GatewayConcurrent.thy ===== *)
theory GatewayConcurrent
  imports RouterConcurrent GatewaySystem
begin

text \<open>
  The gateway with its goroutines interleaved: the workers, the dispatches of the MQTT client,
  the poller of the registry, the fetch endpoint, the pass-through of telemetry and the cleanup
  of the buffer.  Here the engine that \<open>main\<close> builds is shown to meet the interface of the
  interleaved router.
\<close>

section \<open>The other goroutines\<close>

text \<open>
  What a load by the registry's poller that returns may do, meeting any of \<open>envs\<close> (one that
  panics ends the process), and a tick of the buffer's cleanup.
\<close>

definition registry_reload :: "'body load_env set \<Rightarrow> registry \<Rightarrow> registry \<Rightarrow> bool" where
  "registry_reload envs r r' \<longleftrightarrow> (\<exists>env \<in> envs. \<exists>err. loadOnce env r = Ret (r', err))"

definition buffer_cleanup :: "duration \<Rightarrow> sqlite \<Rightarrow> sqlite \<Rightarrow> bool" where
  "buffer_cleanup retention db db' \<longleftrightarrow> (\<exists>now. db' = cleanup_tick retention db now)"

lemma cleanup_contents: "set (db_contents (cleanup_tick ret db now)) \<subseteq> set (db_contents db)"
  by (auto simp: cleanup_tick_def delete_before_def Let_def db_contents_def
      split: prod.split option.split dest!: db_call_rows)

text \<open>Besides, \<open>main\<close> closes the buffer at the end.\<close>

definition buffer_upkeep :: "duration \<Rightarrow> sqlite \<Rightarrow> sqlite \<Rightarrow> bool" where
  "buffer_upkeep retention db db' \<longleftrightarrow> buffer_cleanup retention db db' \<or> db' = CloseBuffer db"

lemma closing_keeps: "db_ok (CloseBuffer db) = db_ok db" "db_contents (CloseBuffer db) = db_contents db"
  by (simp_all add: CloseBuffer_def db_ok_def db_contents_def)

lemma gateway_router_ports:
  assumes "map_order (gl_map_order lib)" and "sql_order (gl_sql_order lib)" and "cfg_SQLiteDBPath cfg \<noteq> []"
  shows "router_ports (gateway_engine lib cfg st) reg_ok reg_view (sqlite_buffer_ops (gl_sql_order lib))
    db_ok db_contents (registry_reload envs) (buffer_upkeep retention)"
  using gateway_router_registry [OF assms(1)] gateway_router_buffer [OF assms(2,3)]
  by (auto simp: router_ports_def router_ports_axioms_def registry_reload_def buffer_upkeep_def buffer_cleanup_def closing_keeps
      dest: loadOnce_ok cleanup_ok cleanup_contents [THEN subsetD])

interpretation gwc: router_ports
    "gateway_engine (lib\<lparr>gl_map_order := \<lambda>xs. xs, gl_sql_order := sort_key row_timestamp\<rparr>)
       (decode_config pd host config_defaults) st"
    reg_ok reg_view "sqlite_buffer_ops (sort_key row_timestamp)" db_ok db_contents
    "registry_reload envs" "buffer_upkeep retention"
  for lib pd host st envs retention
  using gateway_router_ports [of "lib\<lparr>gl_map_order := \<lambda>xs. xs, gl_sql_order := sort_key row_timestamp\<rparr>"
      "decode_config pd host config_defaults" st envs retention for lib pd host st envs retention]
  by (simp add: map_order_id sql_order_sort)

end
