(* ===== verification/GatewayLife.thy ===== *)
theory GatewayLife
  imports GatewayConcurrent
begin

text \<open>
  The life of the process after start-up: \<open>main\<close> connects, subscribes, waits for the signal
  and shuts down step by step, while the workers, the MQTT client and the other goroutines go
  on.  A step is one action of one of them; a panic of any of them ends the process.  The theory
  holds the invariant of this system, its refinement of the interleaved router, the liveness of the
  shutdown, the causes of every panic, the bound on the reloads of the registry, and runs in which
  the shutdown loses work or panics and in which the reloads do not end.
\<close>

section \<open>The running gateway\<close>

text \<open>
  Where \<open>main\<close> is: \<open>Starting\<close> after the engine was started, \<open>Serving\<close> while it waits for
  the signal, then the steps of the shutdown in order.  \<open>StopWait\<close> is \<open>engine.Stop\<close> after
  closing the queue: it is over once every worker has exited.
\<close>

datatype main_phase = Starting | Connecting | Serving | HealthDown | PublisherCancelled | EngineCancelled
  | StopWait | BufferClosed | ShutDown

text \<open>
  The goroutines besides the workers that can panic: a reload that meets a JSON null, the publisher
  on a ticker without a positive interval, the health server on a pattern that the mux refuses.
\<close>

datatype crash = PollerCrash | PublisherCrash | HealthCrash

text \<open>
  \<open>rn_incoming\<close> holds the messages that the MQTT client has received and not yet given to their
  handler, in order, as the decoder reads them.  \<open>rn_reloads\<close> counts the loads of the poller and
  \<open>rn_slow\<close> says whether one took as long as the interval of its ticker; both only record.
\<close>

record ('p, 'cb, 'm) running =
  rn_phase :: main_phase
  rn_health :: "(('p, 'cb) azure, sqlite) health"
  rn_publishing :: bool
  rn_poller :: "poller option"
  rn_reloads :: nat
  rn_slow :: bool
  rn_incoming :: "(go_error + cloud_command) list"
  rn_crash :: "crash option"
  rn_pool :: "(registry, ('p, 'cb) azure, net, sqlite, 'm) concurrent"

definition run_gateway :: "('p, 'cb, 'm) gateway \<Rightarrow> ('p, 'cb, 'm) running" where
  "run_gateway g = \<lparr>rn_phase = Starting, rn_health = gw_health g, rn_publishing = True,
     rn_poller = gw_poller g, rn_reloads = 0, rn_slow = False, rn_incoming = [], rn_crash = None,
     rn_pool = start_concurrent (ch_cap (set_cmdChan (gw_settings g))) (nat (set_workerPool (gw_settings g)))
       (gw_world g)\<rparr>"

abbreviation rn_system :: "('p, 'cb, 'm) running \<Rightarrow> (registry, ('p, 'cb) azure, net, sqlite, 'm) system" where
  "rn_system g \<equiv> cc_system (rn_pool g)"

abbreviation rn_world :: "('p, 'cb, 'm) running \<Rightarrow> (registry, ('p, 'cb) azure, net, sqlite, 'm) world" where
  "rn_world g \<equiv> sy_world (rn_system g)"

abbreviation with_system :: "((registry, ('p, 'cb) azure, net, sqlite, 'm) system \<Rightarrow>
    (registry, ('p, 'cb) azure, net, sqlite, 'm) system) \<Rightarrow> ('p, 'cb, 'm) running \<Rightarrow> ('p, 'cb, 'm) running" where
  "with_system f g \<equiv> g\<lparr>rn_pool := (rn_pool g)\<lparr>cc_system := f (rn_system g)\<rparr>\<rparr>"

abbreviation with_world :: "((registry, ('p, 'cb) azure, net, sqlite, 'm) world \<Rightarrow>
    (registry, ('p, 'cb) azure, net, sqlite, 'm) world) \<Rightarrow> ('p, 'cb, 'm) running \<Rightarrow> ('p, 'cb, 'm) running" where
  "with_world f \<equiv> with_system (\<lambda>s. s\<lparr>sy_world := f (sy_world s)\<rparr>)"

text \<open>The process is gone once \<open>main\<close> has returned or any goroutine has panicked.\<close>

definition alive :: "('p, 'cb, 'm) running \<Rightarrow> bool" where
  "alive g \<longleftrightarrow> rn_phase g \<noteq> ShutDown \<and> rn_crash g = None \<and> \<not> sy_panicked (rn_system g)"

definition all_exited :: "('r, 'c, 'n, 'b, 'm) system \<Rightarrow> bool" where
  "all_exited s \<longleftrightarrow> list_all (\<lambda>w. w = WExited) (sy_workers s)"

text \<open>The steps of \<open>main\<close>; a failure to connect is only logged, \<open>cert\<close> that of the key pair.\<close>

inductive main_step :: "('p, 'cb, 'm) gateway_lib \<Rightarrow> config \<Rightarrow>
    ('p, 'cb, 'm) running \<Rightarrow> ('p, 'cb, 'm) running \<Rightarrow> bool" for lib cfg where
  main_connect: "rn_phase g = Starting \<Longrightarrow> Connect (gl_mqtt lib) cert (w_cloud (rn_world g)) = (c, err) \<Longrightarrow>
     main_step lib cfg g ((with_world (\<lambda>w. w\<lparr>w_cloud := c\<rparr>) g)\<lparr>rn_phase := Connecting\<rparr>)"
| main_subscribe: "rn_phase g = Connecting \<Longrightarrow>
     main_step lib cfg g ((with_world (\<lambda>w. w\<lparr>w_cloud := SubscribeToCommands (gl_mqtt lib) (gl_dispatch lib) (w_cloud w)\<rparr>) g)
       \<lparr>rn_phase := Serving\<rparr>)"
| main_health: "rn_phase g = Serving \<Longrightarrow>
     main_step lib cfg g (g\<lparr>rn_phase := HealthDown, rn_health := Shutdown (rn_health g)\<rparr>)"
| main_publisher: "rn_phase g = HealthDown \<Longrightarrow>
     main_step lib cfg g (g\<lparr>rn_phase := PublisherCancelled, rn_publishing := False\<rparr>)"
| main_cancel: "rn_phase g = PublisherCancelled \<Longrightarrow>
     main_step lib cfg g ((with_system (\<lambda>s. s\<lparr>sy_cancelled := True\<rparr>) g)\<lparr>rn_phase := EngineCancelled\<rparr>)"
| main_stop: "rn_phase g = EngineCancelled \<Longrightarrow> close_chan (sy_queue (rn_system g)) = Ret ch' \<Longrightarrow>
     main_step lib cfg g ((with_system (\<lambda>s. s\<lparr>sy_queue := ch'\<rparr>) g)\<lparr>rn_phase := StopWait\<rparr>)"
| main_buffer: "rn_phase g = StopWait \<Longrightarrow> all_exited (rn_system g) \<Longrightarrow>
     main_step lib cfg g ((with_world (\<lambda>w. if cfg_SQLiteDBPath cfg \<noteq> [] then w\<lparr>w_buf := CloseBuffer (w_buf w)\<rparr> else w) g)
       \<lparr>rn_phase := BufferClosed\<rparr>)"
| main_disconnect: "rn_phase g = BufferClosed \<Longrightarrow>
     main_step lib cfg g ((with_world (\<lambda>w. w\<lparr>w_cloud := Disconnect (gl_mqtt lib) (w_cloud w)\<rparr>) g)
       \<lparr>rn_phase := ShutDown\<rparr>)"

text \<open>
  What the MQTT client does on its own or for the publisher: it reports that a connection is
  up or lost, with its new state, which keeps the handlers, and it publishes.  Its
  documentation says that it reports no connection after \<open>Disconnect\<close>.
\<close>

inductive cloud_event :: "('p, 'cb) mqtt_lib \<Rightarrow> ('p, 'cb) azure \<Rightarrow> ('p, 'cb) azure \<Rightarrow> bool" for lib where
  cloud_connected: "az_client c = Some p \<Longrightarrow> mq_IsConnectionOpen lib q \<Longrightarrow> mq_Handler lib q = mq_Handler lib p \<Longrightarrow>
     cloud_event lib c (OnConnect lib (c\<lparr>az_client := Some q\<rparr>))"
| cloud_lost: "az_client c = Some p \<Longrightarrow> mq_Handler lib q = mq_Handler lib p \<Longrightarrow>
     cloud_event lib c (ConnectionLost (c\<lparr>az_client := Some q\<rparr>))"
| cloud_publish: "cloud_event lib c (fst (Publish lib c topic payload))"

text \<open>A message is received over an open connection when \<open>DispatchCommand\<close> handles its topic.\<close>

definition subscribed :: "('p, 'cb, 'm) gateway_lib \<Rightarrow> ('p, 'cb) azure \<Rightarrow> bool" where
  "subscribed lib c \<longleftrightarrow> open_connection (gl_mqtt lib) c \<and> c2d_handler (gl_mqtt lib) c = Some (gl_dispatch lib)"

text \<open>
  Every step of the process.  A message is received, and later handled: decoded and dispatched, or
  dropped.  The poller and the goroutines that can panic have steps of their own; the others are those
  of \<open>other_step\<close> that leave the queue, the workers, the registry and the cloud alone: the cleanup, the
  fetch endpoint, the pass-through.
\<close>

inductive gateway_step :: "('p, 'cb, 'm) gateway_lib \<Rightarrow> config \<Rightarrow> engine_settings \<Rightarrow> env \<Rightarrow>
    'body load_env set \<Rightarrow> ('p, 'cb, 'm) running \<Rightarrow> ('p, 'cb, 'm) running \<Rightarrow> bool" for lib cfg st env envs where
  step_main: "alive g \<Longrightarrow> main_step lib cfg g h \<Longrightarrow> gateway_step lib cfg st env envs g h"
| step_worker: "alive g \<Longrightarrow> pool_step (gateway_engine lib cfg st) env (rn_pool g) d \<Longrightarrow>
     gateway_step lib cfg st env envs g (g\<lparr>rn_pool := d\<rparr>)"
| step_receive: "alive g \<Longrightarrow> subscribed lib (w_cloud (rn_world g)) \<Longrightarrow>
     gateway_step lib cfg st env envs g (g\<lparr>rn_incoming := rn_incoming g @ [decoded]\<rparr>)"
| step_ignore: "alive g \<Longrightarrow> rn_incoming g = decoded # later \<Longrightarrow> on_message decoded now = None \<Longrightarrow>
     gateway_step lib cfg st env envs g (g\<lparr>rn_incoming := later\<rparr>)"
| step_message: "alive g \<Longrightarrow> rn_incoming g = decoded # later \<Longrightarrow> on_message decoded now = Some cmd \<Longrightarrow>
     gateway_step lib cfg st env envs g
       ((with_system (dispatch_to (gateway_engine lib cfg st) cmd) g)\<lparr>rn_incoming := later\<rparr>)"
| step_hand_over: "alive g \<Longrightarrow> rn_incoming g = decoded # later \<Longrightarrow> on_message decoded now = Some cmd \<Longrightarrow>
     can_hand_over i (rn_system g) \<Longrightarrow>
     gateway_step lib cfg st env envs g (g\<lparr>rn_pool := (rn_pool g)\<lparr>cc_system := hand_over i cmd (rn_system g),
       cc_points := (cc_points (rn_pool g))[i := Lookup cmd]\<rparr>, rn_incoming := later\<rparr>)"
| step_cloud: "alive g \<Longrightarrow> cloud_event (gl_mqtt lib) (w_cloud (rn_world g)) c \<Longrightarrow>
     gateway_step lib cfg st env envs g (with_world (\<lambda>w. w\<lparr>w_cloud := c\<rparr>) g)"
| step_reload: "alive g \<Longrightarrow> rn_poller g = Some pl \<Longrightarrow> load \<in> envs \<Longrightarrow> 0 \<le> took \<Longrightarrow>
     poll_turn done_first took load pl (w_reg (rn_world g)) = Ret (Some pl', r') \<Longrightarrow>
     gateway_step lib cfg st env envs g ((with_world (\<lambda>w. w\<lparr>w_reg := r'\<rparr>) g)\<lparr>rn_poller := Some pl',
       rn_reloads := Suc (rn_reloads g), rn_slow := rn_slow g \<or> poll_interval \<le> took\<rparr>)"
| step_poll_end: "alive g \<Longrightarrow> rn_poller g = Some pl \<Longrightarrow>
     poll_turn done_first took (load :: 'body load_env) pl (w_reg (rn_world g)) = Ret (None, r') \<Longrightarrow>
     gateway_step lib cfg st env envs g (g\<lparr>rn_poller := None\<rparr>)"
| step_poll_crash: "alive g \<Longrightarrow> rn_poller g = Some pl \<Longrightarrow> load \<in> envs \<Longrightarrow>
     poll_turn done_first took load pl (w_reg (rn_world g)) = Panic m \<Longrightarrow>
     gateway_step lib cfg st env envs g (g\<lparr>rn_crash := Some PollerCrash\<rparr>)"
| step_publisher_crash: "alive g \<Longrightarrow>
     StartPublisher (gateway_publisher lib cfg) (gl_rules lib) waits (first :: (_, 'body) cycle) evs (w_cloud (rn_world g), 0) = Panic m \<Longrightarrow>
     gateway_step lib cfg st env envs g (g\<lparr>rn_crash := Some PublisherCrash\<rparr>)"
| step_health_crash: "alive g \<Longrightarrow> health_routes (rn_health g) = Panic m \<or>
       hs_fetchEndpoint (rn_health g) \<noteq> [] \<and> \<not> plain_route (hs_fetchEndpoint (rn_health g)) \<Longrightarrow>
     gateway_step lib cfg st env envs g (g\<lparr>rn_crash := Some HealthCrash\<rparr>)"
| step_other: "alive g \<Longrightarrow>
     other_step (gateway_engine lib cfg st) (\<lambda>r r'. False)
       (buffer_cleanup (minutes (cfg_RetentionWindowMinutes cfg))) (rn_pool g) d \<Longrightarrow>
     same_pool (rn_system g) (cc_system d) \<Longrightarrow> w_cloud (sy_world (cc_system d)) = w_cloud (rn_world g) \<Longrightarrow>
     gateway_step lib cfg st env envs g (g\<lparr>rn_pool := d\<rparr>)"

inductive_cases main_stepE: "main_step lib cfg g h"
inductive_cases gateway_stepE: "gateway_step lib cfg st env envs g h"

section \<open>A closed database\<close>

lemma closed_call: "db_closed db \<Longrightarrow> db_call db = (db, Some (OtherErr ''sql: database is closed''))"
  by (simp add: db_call_def)

lemma closed_ops:
  assumes "db_closed db"
  shows "AddData db now ty p = (b, r) \<Longrightarrow> b = db \<and> r \<noteq> None"
    "Fetch ord db = (b, res) \<Longrightarrow> b = db \<and> isl res" "cleanup_tick ret db now = db"
  using closed_call [OF assms]
  by (auto simp: AddData_def Fetch_def cleanup_tick_def rollback_def Let_def split: sum.splits)

lemma AddData_closed: "db_closed (fst (AddData db now ty p)) = db_closed db"
  by (auto simp: AddData_def insert_row_def split: sum.split prod.split option.split dest: db_call_rows)

lemma scan_rows_closed: "scan_rows rs db = (db', sc, e) \<Longrightarrow> db_closed db' = db_closed db"
  by (induction rs arbitrary: db db' sc e) (auto split: prod.splits option.splits dest!: db_call_rows)

lemma Fetch_closed: "db_closed (fst (Fetch ord db)) = db_closed db"
  by (auto simp: Fetch_def rollback_def delete_upto_def Let_def split: prod.split option.split
      dest!: db_call_rows scan_rows_closed)

lemma cleanup_closed: "db_closed (cleanup_tick ret db now) = db_closed db"
  by (auto simp: cleanup_tick_def delete_before_def Let_def split: prod.split option.split dest: db_call_rows)

lemma buffer_telemetry_closed:
  "db_closed (w_buf (buffer_telemetry (gateway_engine lib cfg st) env t w)) = db_closed (w_buf w)"
  by (simp add: buffer_telemetry_def gateway_buffer_def AddData_closed time_now_def Let_def
      split: option.split prod.split)

section \<open>What the steps of the others keep\<close>

lemma SendTelemetry_frame:
  "az_connected (fst (SendTelemetry lib c t)) = az_connected c"
  "az_connected (fst (Publish lib c topic payload)) = az_connected c"
  by (auto simp: SendTelemetry_def Publish_def split: sum.split option.split prod.split token.split)

lemma exited_nth: "all_exited s \<Longrightarrow> i < length (sy_workers s) \<Longrightarrow> sy_workers s ! i = WExited"
  by (simp add: all_exited_def list_all_iff)

lemma pool_step_frame:
  assumes "pool_step (gateway_engine lib cfg st) env c d"
  shows "sy_cancelled (cc_system d) = sy_cancelled (cc_system c)"
    "sy_panicked (cc_system d) = sy_panicked (cc_system c)"
    "ch_closed (sy_queue (cc_system d)) = ch_closed (sy_queue (cc_system c))"
    "\<not> all_exited (cc_system c)"
  using assms by (auto simp: try_recv_def split: list.splits if_splits dest: exited_nth elim!: pool_stepE)

lemma pool_step_world:
  assumes "pool_step (gateway_engine lib cfg st) env c d"
  shows "db_closed (w_buf (sy_world (cc_system d))) = db_closed (w_buf (sy_world (cc_system c)))"
    "az_connected (w_cloud (sy_world (cc_system d))) = az_connected (w_cloud (sy_world (cc_system c)))"
proof -
  show "db_closed (w_buf (sy_world (cc_system d))) = db_closed (w_buf (sy_world (cc_system c)))"
    using assms
    by (cases rule: pool_step.cases)
      (auto dest!: point_step_buf simp: buffer_telemetry_closed split: point.splits)
  show "az_connected (w_cloud (sy_world (cc_system d))) = az_connected (w_cloud (sy_world (cc_system c)))"
    using assms
    by (cases rule: pool_step.cases) (auto dest!: point_step_cloud simp: SendTelemetry_frame)
qed

lemma other_step_world:
  assumes "other_step (gateway_engine lib cfg st) reload (buffer_cleanup ret) c d"
  shows "db_closed (w_buf (sy_world (cc_system d))) = db_closed (w_buf (sy_world (cc_system c)))"
    "length (cc_points d) = length (cc_points c)"
  using assms
  by (cases rule: other_step.cases;
      auto simp: hand_over_def buffer_cleanup_def cleanup_closed gateway_buffer_def AddData_closed Fetch_closed
        dest: outer_step_world arg_cong [where f = "\<lambda>p. db_closed (fst p)"] split: if_splits)+

lemma dispatch_frame:
  "sy_workers (dispatch_to e cmd s) = sy_workers s"
  "w_buf (sy_world (dispatch_to e cmd s)) = w_buf (sy_world s)"
  "w_cloud (sy_world (dispatch_to e cmd s)) = w_cloud (sy_world s)"
  "ch_closed (sy_queue (dispatch_to e cmd s)) = ch_closed (sy_queue s)"
  "sy_cancelled (dispatch_to e cmd s) = sy_cancelled s"
  by (cases "ch_closed (sy_queue s)";
      simp add: dispatch_to_def DispatchCommand_closed DispatchCommand_open Let_def)+

section \<open>The invariant\<close>

definition closing :: "main_phase \<Rightarrow> bool" where
  "closing p \<longleftrightarrow> p \<in> {StopWait, BufferClosed, ShutDown}"

definition life_start :: "nat \<Rightarrow> nat \<Rightarrow> ('p, 'cb, 'm) running \<Rightarrow> bool" where
  "life_start cap n g \<longleftrightarrow> rn_phase g = Starting \<and> \<not> hs_shuttingDown (rn_health g) \<and> rn_crash g = None \<and>
     rn_incoming g = [] \<and> rn_reloads g = 0 \<and> \<not> rn_slow g \<and>
     (\<exists>w. rn_pool g = start_concurrent cap n w \<and> \<not> db_closed (w_buf w))"

definition life_inv :: "nat \<Rightarrow> nat \<Rightarrow> config \<Rightarrow> ('p, 'cb, 'm) running \<Rightarrow> bool" where
  "life_inv cap n cfg g \<longleftrightarrow> queue_inv cap n (rn_system g) \<and> length (cc_points (rn_pool g)) = n \<and>
     ch_closed (sy_queue (rn_system g)) = closing (rn_phase g) \<and>
     sy_cancelled (rn_system g) = (rn_phase g = EngineCancelled \<or> closing (rn_phase g)) \<and>
     (rn_phase g \<in> {BufferClosed, ShutDown} \<longrightarrow> all_exited (rn_system g)) \<and>
     db_closed (w_buf (rn_world g)) = (rn_phase g \<in> {BufferClosed, ShutDown} \<and> cfg_SQLiteDBPath cfg \<noteq> []) \<and>
     hs_shuttingDown (rn_health g) = (rn_phase g \<notin> {Starting, Connecting, Serving}) \<and>
     (rn_phase g = ShutDown \<longrightarrow> \<not> az_connected (w_cloud (rn_world g)))"

lemma queue_inv_pool:
  assumes "queue_inv cap n (cc_system c)" and "pool_step e env c d"
  shows "queue_inv cap n (cc_system d)"
  using pool_step_simulated [OF assms(2) same_pool_refl]
proof
  assume "same_pool (cc_system d) (cc_system c)"
  with assms(1) show ?thesis by (simp add: same_pool_inv)
next
  assume "\<exists>t. worker_step e env (cc_system c) t \<and> same_pool (cc_system d) t"
  then obtain t where t: "worker_step e env (cc_system c) t" "same_pool (cc_system d) t" by (elim exE conjE)
  with queue_inv_worker [OF assms(1) t(1)] show ?thesis by (simp add: same_pool_inv)
qed

lemma pool_step_points: "pool_step e env c d \<Longrightarrow> length (cc_points d) = length (cc_points c)"
  by (auto elim!: pool_stepE)

lemma life_inv_start: "life_start cap n g \<Longrightarrow> life_inv cap n cfg g"
  by (auto simp: life_start_def life_inv_def closing_def is_start_def intro!: queue_inv_start)

lemma life_inv_main:
  assumes "life_inv cap n cfg g" and "main_step lib cfg g h"
  shows "life_inv cap n cfg h"
  using assms(2)
proof (cases rule: main_step.cases)
  case (main_stop ch')
  with assms(1) show ?thesis
    by (auto simp: life_inv_def closing_def queue_inv_def close_chan_def chan_ok_def split: if_splits)
qed (use assms(1) in \<open>auto simp: life_inv_def closing_def queue_inv_def all_exited_def Shutdown_def Disconnect_def
    CloseBuffer_def\<close>)

lemma life_inv_step:
  assumes "life_inv cap n cfg g" and "gateway_step lib cfg st env envs g h"
  shows "life_inv cap n cfg h"
  using assms(2)
proof (cases rule: gateway_step.cases)
  case step_main
  with assms(1) life_inv_main show ?thesis by blast
next
  case (step_worker d)
  note f = pool_step_frame [OF step_worker(3)] pool_step_world [OF step_worker(3)] pool_step_points [OF step_worker(3)]
  from assms(1) queue_inv_pool [OF _ step_worker(3), of cap n] show ?thesis
    by (auto simp: life_inv_def step_worker(1) f)
next
  case (step_message decoded later now cmd)
  with assms(1) queue_inv_dispatch [of cap n "rn_system g"] show ?thesis
    by (auto simp: life_inv_def dispatch_frame all_exited_def alive_def)
next
  case (step_hand_over decoded later now cmd i)
  have "\<not> all_exited (rn_system g)" using step_hand_over(5) by (auto simp: can_hand_over_def dest: exited_nth)
  with assms(1) step_hand_over(1) queue_inv_hand_over [OF _ step_hand_over(5), of cap n cmd] show ?thesis
    by (auto simp: life_inv_def hand_over_def)
next
  case (step_cloud c)
  with assms(1) show ?thesis by (auto simp: life_inv_def all_exited_def queue_inv_def alive_def)
next
  case (step_reload pl load took done_first pl' r')
  with assms(1) show ?thesis by (auto simp: life_inv_def all_exited_def queue_inv_def)
next
  case (step_other d)
  note f = other_step_world [OF step_other(3)] step_other(4) [unfolded same_pool_iff]
  from assms(1) same_pool_inv [OF step_other(4), of cap n] show ?thesis
    by (auto simp: life_inv_def step_other(1) all_exited_def f step_other(5))
qed (use assms(1) in \<open>auto simp: life_inv_def\<close>)

interpretation life: invariant_system "life_start cap n" "gateway_step lib cfg st env envs" "life_inv cap n cfg"
  for cap n lib cfg st env envs
  by unfold_locales (rule life_inv_start, assumption, rule life_inv_step)

text \<open>Once the database is closed nothing enters or leaves it.\<close>

lemma closed_database_step:
  assumes "life_inv cap n cfg g" and "gateway_step lib cfg st env envs g h" and "db_closed (w_buf (rn_world g))"
  shows "w_buf (rn_world h) = w_buf (rn_world g) \<and> cc_stored (rn_pool h) = cc_stored (rn_pool g) \<and>
    cc_passed (rn_pool h) = cc_passed (rn_pool g) \<and> cc_delivered (rn_pool h) = cc_delivered (rn_pool g)"
  using assms(2)
proof (cases rule: gateway_step.cases)
  case step_main
  have "rn_phase g \<in> {BufferClosed, ShutDown}" using assms(1,3) by (simp add: life_inv_def)
  with step_main(2) show ?thesis by (cases rule: main_step.cases) simp_all
next
  case (step_worker d)
  with assms(1,3) pool_step_frame(4) [OF step_worker(3)] show ?thesis by (auto simp: life_inv_def)
next
  case step_message
  then show ?thesis by (simp add: dispatch_frame)
next
  case step_hand_over
  then show ?thesis by (simp add: hand_over_def)
next
  case (step_other d)
  from step_other(3,1) show ?thesis
    by (cases rule: other_step.cases)
      (auto simp: hand_over_def buffer_cleanup_def gateway_buffer_def closed_ops(3) [OF assms(3)] dest: outer_step_world
        dest!: closed_ops(1,2) [OF assms(3)] split: if_splits sum.splits)
qed simp_all

section \<open>The gateway and the interleaved router\<close>

text \<open>Every step of the process is one of the interleaved router, or leaves it alone.\<close>

lemma other_step_upkeep:
  assumes "other_step e (\<lambda>r r'. False) (buffer_cleanup ret) c d"
  shows "other_step e reload (buffer_upkeep ret) c d"
  using assms
proof (cases rule: other_step.cases)
  case (other_cleanup b)
  then show ?thesis by (simp add: buffer_upkeep_def other_step.other_cleanup)
next
  case (other_fetch ops b res)
  then show ?thesis using other_step.other_fetch [OF other_fetch(2,3)] by simp
next
  case (other_pass ops now t b err)
  then show ?thesis using other_step.other_pass [OF other_pass(2,3)] by simp
qed (simp_all add: other_step.intros)

lemma poll_turn_reload:
  assumes "poll_turn done_first took load pl r = Ret (pl', r')" and "pl' = None \<or> load \<in> envs"
  shows "r' = r \<or> registry_reload envs r r'"
  using assms(1) by (cases rule: poll_turn_cases) (use assms(2) in \<open>auto simp: registry_reload_def\<close>)

lemma poll_end_keeps: "poll_turn done_first took load pl r = Ret (None, r') \<Longrightarrow> r' = r"
  by (erule poll_turn_cases) auto

lemma main_simulated:
  assumes "main_step lib cfg g h"
  shows "rn_pool h = rn_pool g \<or> other_step (gateway_engine lib cfg st) reload (buffer_upkeep ret) (rn_pool g) (rn_pool h)"
  using assms
proof (cases rule: main_step.cases)
  case (main_connect cert c err)
  then show ?thesis by (simp add: other_cloud)
next
  case main_subscribe
  then show ?thesis by (simp add: other_cloud)
next
  case main_cancel
  then show ?thesis by (simp add: other_outer outer_step.cancel)
next
  case (main_stop ch')
  then show ?thesis by (simp add: other_outer outer_step.stop)
next
  case main_buffer
  then show ?thesis by (auto simp: buffer_upkeep_def intro!: other_cleanup)
next
  case main_disconnect
  then show ?thesis by (simp add: other_cloud)
qed simp_all

lemma gateway_simulated:
  assumes "gateway_step lib cfg st env envs g h"
  shows "rn_pool h = rn_pool g \<or> concurrent_step (gateway_engine lib cfg st) env (registry_reload envs)
    (buffer_upkeep (minutes (cfg_RetentionWindowMinutes cfg))) (rn_pool g) (rn_pool h)"
  using assms
proof (cases rule: gateway_step.cases)
  case step_main
  with main_simulated [OF step_main(2), of st "registry_reload envs" "minutes (cfg_RetentionWindowMinutes cfg)"] show ?thesis
    unfolding concurrent_step_def by blast
next
  case (step_message decoded later now cmd)
  then show ?thesis by (simp add: alive_def concurrent_step_def other_outer outer_step.dispatch)
next
  case (step_reload pl load took done_first pl' r')
  from poll_turn_reload [OF step_reload(6), of envs] step_reload(1,4) show ?thesis
    by (auto simp: concurrent_step_def intro!: other_reload)
next
  case (step_other d)
  with other_step_upkeep [OF step_other(3)] show ?thesis by (simp add: concurrent_step_def)
qed (simp_all add: concurrent_step_def other_cloud other_hand_over)

text \<open>Only workers and reloads write to the registry.\<close>

lemma main_step_reg: "main_step lib cfg g h \<Longrightarrow> w_reg (rn_world h) = w_reg (rn_world g)"
  by (erule main_stepE) simp_all

lemma gateway_step_reg:
  assumes "gateway_step lib cfg st env envs g h"
  shows "w_reg (rn_world h) = w_reg (rn_world g) \<or>
    registry_reload envs (w_reg (rn_world g)) (w_reg (rn_world h)) \<and> rn_reloads h = Suc (rn_reloads g) \<or>
    pool_step (gateway_engine lib cfg st) env (rn_pool g) (rn_pool h)"
  using assms
proof (cases rule: gateway_step.cases)
  case step_main
  then show ?thesis by (simp add: main_step_reg)
next
  case (step_message decoded later now cmd)
  then show ?thesis using outer_step_world [OF outer_step.dispatch, of "rn_system g"] by (simp add: alive_def)
next
  case (step_reload pl load took done_first pl' r')
  with poll_turn_reload [OF step_reload(6), of envs] show ?thesis by auto
next
  case (step_other d)
  from step_other(3,1) show ?thesis
    by (cases rule: other_step.cases) (auto simp: hand_over_def dest: outer_step_world)
qed (simp_all add: hand_over_def)

lemma gateway_refines_router:
  assumes "reach (\<lambda>h. h = run_gateway gw) (gateway_step lib cfg st env envs) g"
  shows "reach (\<lambda>c. c = rn_pool (run_gateway gw)) (concurrent_step (gateway_engine lib cfg st) env
    (registry_reload envs) (buffer_upkeep (minutes (cfg_RetentionWindowMinutes cfg)))) (rn_pool g)"
  using assms
proof (induction rule: reach.induct)
  case (reach_init g)
  then show ?case by (simp add: reach.reach_init)
next
  case (reach_step g h)
  from gateway_simulated [OF reach_step.hyps(2)] show ?case
  proof
    assume "rn_pool h = rn_pool g"
    with reach_step.IH show ?thesis by simp
  next
    assume "concurrent_step (gateway_engine lib cfg st) env (registry_reload envs)
      (buffer_upkeep (minutes (cfg_RetentionWindowMinutes cfg))) (rn_pool g) (rn_pool h)"
    with reach_step.IH show ?thesis by (rule reach.reach_step)
  qed
qed

section \<open>The shutdown comes to its end\<close>

text \<open>A worker that waits in \<open>Stop\<close> sees the cancelled context: when no worker can move, all have exited.\<close>

lemma stop_wait_exits:
  assumes "life_inv cap n cfg g" and "rn_phase g = StopWait" and "\<nexists>d. pool_step e env (rn_pool g) d"
  shows "all_exited (rn_system g)"
proof -
  have c: "sy_cancelled (rn_system g)" "length (cc_points (rn_pool g)) = length (sy_workers (rn_system g))"
    using assms(1,2) by (auto simp: life_inv_def closing_def queue_inv_def)
  have "sy_workers (rn_system g) ! i = WExited" if "i < length (sy_workers (rn_system g))" for i
    using stuck_workers [OF assms(3) c(2) that] pool_step.pool_exit_cancelled [OF that _ c(1) refl] assms(3) by blast
  then show ?thesis by (auto simp: all_exited_def list_all_length)
qed

lemma main_enabled:
  assumes "life_inv cap n cfg g" and "rn_phase g \<noteq> ShutDown"
    and "rn_phase g = StopWait \<Longrightarrow> \<nexists>d. pool_step e env (rn_pool g) d"
  shows "\<exists>h. main_step lib cfg g h"
proof (cases "rn_phase g")
  case Starting
  obtain c err where "Connect (gl_mqtt lib) None (w_cloud (rn_world g)) = (c, err)" by (metis surj_pair)
  from main_connect [OF Starting this] show ?thesis by (rule exI)
next
  case EngineCancelled
  with assms(1) have "close_chan (sy_queue (rn_system g)) = Ret ((sy_queue (rn_system g))\<lparr>ch_closed := True\<rparr>)"
    by (simp add: life_inv_def closing_def close_chan_def)
  from main_stop [OF EngineCancelled this] show ?thesis by (rule exI)
next
  case StopWait
  from main_buffer [OF StopWait stop_wait_exits [OF assms(1) StopWait assms(3) [OF StopWait]]] show ?thesis by (rule exI)
qed (use assms(2) in \<open>auto intro: main_step.intros exI\<close>)

fun phase_rank :: "main_phase \<Rightarrow> nat" where
  "phase_rank Starting = 8"
| "phase_rank Connecting = 7"
| "phase_rank Serving = 6"
| "phase_rank HealthDown = 5"
| "phase_rank PublisherCancelled = 4"
| "phase_rank EngineCancelled = 3"
| "phase_rank StopWait = 2"
| "phase_rank BufferClosed = 1"
| "phase_rank ShutDown = 0"

lemma main_step_rank: "main_step lib cfg g h \<Longrightarrow> phase_rank (rn_phase h) < phase_rank (rn_phase g)"
  by (erule main_stepE) simp_all

lemma main_step_crash:
  "main_step lib cfg g h \<Longrightarrow> sy_panicked (rn_system h) = sy_panicked (rn_system g) \<and> rn_crash h = rn_crash g"
  by (erule main_stepE) simp_all

text \<open>No goroutine has panicked.\<close>

definition not_crashed :: "('p, 'cb, 'm) running \<Rightarrow> bool" where
  "not_crashed g \<longleftrightarrow> rn_crash g = None \<and> \<not> sy_panicked (rn_system g)"

lemma alive_iff: "alive g \<longleftrightarrow> rn_phase g \<noteq> ShutDown \<and> not_crashed g"
  by (simp add: alive_def not_crashed_def)

text \<open>The steps of \<open>main\<close> and of the workers alone: they cannot go on forever.\<close>

definition own_step :: "('p, 'cb, 'm) gateway_lib \<Rightarrow> config \<Rightarrow> engine_settings \<Rightarrow> env \<Rightarrow>
    ('p, 'cb, 'm) running \<Rightarrow> ('p, 'cb, 'm) running \<Rightarrow> bool" where
  "own_step lib cfg st env g h \<longleftrightarrow> main_step lib cfg g h \<or>
     (\<exists>d. pool_step (gateway_engine lib cfg st) env (rn_pool g) d \<and> h = g\<lparr>rn_pool := d\<rparr>)"

lemma own_step_wf: "wfP (\<lambda>h g. own_step lib cfg st env g h)"
proof -
  let ?r = "less_than <*lex*> (less_than <*lex*> listrel1 rank_less)"
  let ?m = "\<lambda>g. (phase_rank (rn_phase g), pool_measure (gateway_engine lib cfg st) (rn_pool g))"
  have "wf (inv_image ?r ?m)" by (intro wf_inv_image wf_lex_prod wf_pool_measure wf_less_than)
  moreover have "{(h, g). own_step lib cfg st env g h} \<subseteq> inv_image ?r ?m"
    using main_step_rank pool_step_decreases by (fastforce simp: own_step_def)
  ultimately show ?thesis unfolding wfp_def by (rule wf_subset)
qed

lemma own_step_gateway:
  assumes "life_inv cap n cfg g" and "own_step lib cfg st env g h" and "not_crashed g"
  shows "gateway_step lib cfg st env envs g h" "not_crashed h"
proof -
  have "rn_phase g \<noteq> ShutDown"
  proof
    assume down: "rn_phase g = ShutDown"
    with assms(1) have "all_exited (rn_system g)" by (simp add: life_inv_def)
    with assms(2) down show False
      by (auto simp: own_step_def dest: pool_step_frame(4) elim: main_stepE)
  qed
  with assms(3) have a: "alive g" by (simp add: alive_iff)
  show "gateway_step lib cfg st env envs g h"
    using assms(2) step_main [OF a] step_worker [OF a] by (auto simp: own_step_def)
  show "not_crashed h"
    using assms(2,3) by (auto simp: own_step_def not_crashed_def main_step_crash pool_step_frame(2))
qed

lemma own_run_ends:
  assumes "life_inv cap n cfg g" and "not_crashed g"
  shows "\<exists>h. (own_step lib cfg st env)\<^sup>*\<^sup>* g h \<and> rn_phase h = ShutDown"
  using assms
proof (induction g rule: wfp_induct_rule [OF own_step_wf [of lib cfg st env]])
  case (1 g)
  show ?case
  proof (cases "rn_phase g = ShutDown")
    case False
    obtain h where h: "own_step lib cfg st env g h"
      using main_enabled [OF 1(2) False, of "gateway_engine lib cfg st" env lib] by (auto simp: own_step_def)
    note own_step_gateway [OF 1(2) h 1(3)]
    then have "life_inv cap n cfg h" "not_crashed h" using life_inv_step [OF 1(2)] by blast+
    from 1(1) [OF h this] converse_rtranclp_into_rtranclp [of "own_step lib cfg st env", OF h] show ?thesis by blast
  qed blast
qed

lemma own_run_stuck:
  "(own_step lib cfg st env)\<^sup>*\<^sup>* g h \<Longrightarrow> life_inv cap n cfg g \<Longrightarrow> not_crashed g \<Longrightarrow>
     \<nexists>i. own_step lib cfg st env h i \<Longrightarrow> rn_phase h = ShutDown"
proof (induction g rule: converse_rtranclp_induct)
  case base
  show ?case
  proof (rule ccontr)
    assume "rn_phase h \<noteq> ShutDown"
    with main_enabled [OF base(1), of "gateway_engine lib cfg st" env lib] base(3) show False
      by (auto simp: own_step_def)
  qed
next
  case (step g f)
  note own_step_gateway [OF step.prems(1) step.hyps(1) step.prems(2)]
  then have "life_inv cap n cfg f" "not_crashed f" using life_inv_step [OF step.prems(1)] by blast+
  with step.IH step.prems(3) show ?case by blast
qed

section \<open>From start-up on\<close>

lemma started_life:
  assumes "gateway_main lib env = Ret (Started gw)"
  shows "life_start (nat (cfg_CommandQueueSize (gw_config gw))) (nat (cfg_WorkerPoolSize (gw_config gw))) (run_gateway gw)"
  using assms
proof (rule gateway_main_Started)
  fix cfg r db met st
  assume db: "open_buffer cfg (ge_sqlite env) = Inr db" and st: "NewEngine (gateway_options cfg) = Ret st"
    and gw: "gw = gateway_assemble lib cfg st (if is_url (cfg_RegistryPath cfg)
      then Some (start_poller (ge_init env + init_timeout) (ge_loaded env)) else None) r (ge_net env) db met"
  have "\<not> db_closed db"
    using db by (auto simp: open_buffer_def NewSQLiteBuffer_def empty_db_def dest: db_call_rows
        split: if_splits option.splits sum.splits prod.splits)
  with st show ?thesis
    by (auto simp: life_start_def run_gateway_def gw gateway_assemble_def NewHealthService_def NewEngine_gateway
        make_chan_def split: if_splits)
qed

lemma life_of_started:
  assumes "gateway_main lib env = Ret (Started gw)"
    and "reach (\<lambda>h. h = run_gateway gw) (gateway_step lib cfg st env' envs) g"
  shows "life_inv (nat (cfg_CommandQueueSize (gw_config gw))) (nat (cfg_WorkerPoolSize (gw_config gw))) cfg g"
  by (rule life.reach_inv, rule reach_mono [OF assms(2)]) (simp add: started_life [OF assms(1)])

text \<open>The registry and the buffer that start-up leaves are well-formed.\<close>

lemma started_world:
  assumes "gateway_main lib env = Ret (Started gw)"
    and "\<And>rows seq. se_Open (ge_sqlite env) = Inr (rows, seq) \<Longrightarrow>
      sorted_wrt (<) (map row_id rows) \<and> list_all (\<lambda>r. row_id r \<le> seq) rows"
  shows "reg_ok (w_reg (gw_world gw))" "db_ok (w_buf (gw_world gw))"
proof -
  obtain cfg r db met st poller where s: "loadOnce (ge_load env) (NewStaticJSONRegistry (cfg_RegistryPath cfg)) = Ret (r, None)"
    "open_buffer cfg (ge_sqlite env) = Inr db"
    "gw = gateway_assemble lib cfg st poller r (ge_net env) db met"
    using gateway_main_Started [OF assms(1)] by metis
  have "db_ok db"
  proof (cases "cfg_SQLiteDBPath cfg = []")
    case True
    with s(2) show ?thesis by (auto simp: open_buffer_def)
  next
    case False
    with s(2) assms(2) show ?thesis
      by (fastforce simp: open_buffer_def NewSQLiteBuffer_def db_ok_def list_all_iff dest: db_call_rows
          split: option.splits sum.splits prod.splits)
  qed
  with loadOnce_ok [OF reg_ok_New s(1)] show "reg_ok (w_reg (gw_world gw))" "db_ok (w_buf (gw_world gw))"
    by (auto simp: s(3) gateway_assemble_def)
qed

lemma started_parts:
  assumes "gateway_main lib env = Ret (Started gw)"
  shows "gw_health gw = NewHealthService (azure_ops (gl_mqtt lib)) (gateway_buffer lib (gw_config gw))
      (cfg_FetchEndpointPath (gw_config gw))"
    "reg_path (w_reg (gw_world gw)) = cfg_RegistryPath (gw_config gw)"
    "gw_poller gw = (if is_url (cfg_RegistryPath (gw_config gw))
      then Some (start_poller (ge_init env + init_timeout) (ge_loaded env)) else None)"
proof -
  obtain cfg r db met st where s: "loadOnce (ge_load env) (NewStaticJSONRegistry (cfg_RegistryPath cfg)) = Ret (r, None)"
    "gw = gateway_assemble lib cfg st (if is_url (cfg_RegistryPath cfg)
       then Some (start_poller (ge_init env + init_timeout) (ge_loaded env)) else None) r (ge_net env) db met"
    by (rule gateway_main_Started [OF assms])
  show "gw_health gw = NewHealthService (azure_ops (gl_mqtt lib)) (gateway_buffer lib (gw_config gw))
      (cfg_FetchEndpointPath (gw_config gw))"
    "reg_path (w_reg (gw_world gw)) = cfg_RegistryPath (gw_config gw)"
    "gw_poller gw = (if is_url (cfg_RegistryPath (gw_config gw))
      then Some (start_poller (ge_init env + init_timeout) (ge_loaded env)) else None)"
    using loadOnce_path [OF s(1)] unfolding s(2) gateway_assemble_def
    by (simp_all add: NewStaticJSONRegistry_def)
qed

lemma run_gateway_pool: "rn_pool (run_gateway gw) =
    start_concurrent (ch_cap (set_cmdChan (gw_settings gw))) (nat (set_workerPool (gw_settings gw))) (gw_world gw)"
  by (simp add: run_gateway_def)

section \<open>What ends the process\<close>

text \<open>The panics of a goroutine, each with its cause: in what a reload meets, or in the configuration.\<close>

definition crash_cause :: "config \<Rightarrow> 'body load_env set \<Rightarrow> crash \<Rightarrow> bool" where
  "crash_cause cfg envs cr =
     (case cr of
        PollerCrash \<Rightarrow> is_url (cfg_RegistryPath cfg) \<and> (\<exists>load \<in> envs. \<exists>body ds.
          fetch_body load (cfg_RegistryPath cfg) = Inr body \<and> env_Decode load body = Inr ds \<and> None \<in> set ds)
      | PublisherCrash \<Rightarrow> sint (cfg_PrometheusPollInterval cfg) \<le> 0
      | HealthCrash \<Rightarrow> cfg_FetchEndpointPath cfg \<noteq> [] \<and> (\<not> plain_route (cfg_FetchEndpointPath cfg) \<or>
          cfg_FetchEndpointPath cfg \<in> {''/health/live'', ''/health/ready''}))"

definition crash_inv :: "config \<Rightarrow> 'body load_env set \<Rightarrow> ('p, 'cb, 'm) running \<Rightarrow> bool" where
  "crash_inv cfg envs g \<longleftrightarrow> reg_path (w_reg (rn_world g)) = cfg_RegistryPath cfg \<and>
     hs_fetchEndpoint (rn_health g) = cfg_FetchEndpointPath cfg \<and>
     (rn_poller g \<noteq> None \<longrightarrow> is_url (cfg_RegistryPath cfg)) \<and>
     (case rn_crash g of None \<Rightarrow> True | Some cr \<Rightarrow> crash_cause cfg envs cr)"

lemma UpdateDevice_path: "reg_path (fst (UpdateDevice r dev)) = reg_path r"
  by (simp add: UpdateDevice_def split: option.split)

lemma pool_step_path:
  assumes "pool_step (gateway_engine lib cfg st) env c d"
  shows "reg_path (w_reg (sy_world (cc_system d))) = reg_path (w_reg (sy_world (cc_system c)))"
  using assms
  by (cases rule: pool_step.cases) (auto dest!: point_step_reg simp: UpdateDevice_path split: point.splits)

lemma registry_reload_path: "registry_reload envs r r' \<Longrightarrow> reg_path r' = reg_path r"
  by (auto simp: registry_reload_def dest: loadOnce_path)

lemma gateway_step_path:
  "gateway_step lib cfg st env envs g h \<Longrightarrow> reg_path (w_reg (rn_world h)) = reg_path (w_reg (rn_world g))"
  by (drule gateway_step_reg) (auto dest: pool_step_path registry_reload_path)

lemma health_routes_panic:
  "health_routes h = Panic m \<Longrightarrow> hs_fetchEndpoint h \<noteq> [] \<and> (\<not> plain_route (hs_fetchEndpoint h) \<or>
     hs_fetchEndpoint h \<in> {''/health/live'', ''/health/ready''})"
  by (cases "hs_fetchEndpoint h") (auto simp: health_routes_def plain_route_def split: if_splits)

lemma publisher_panic:
  "StartPublisher (gateway_publisher lib cfg) rules waits first evs s = Panic m \<Longrightarrow>
     sint (cfg_PrometheusPollInterval cfg) \<le> 0"
  by (simp add: StartPublisher_def gateway_publisher_def NewPrometheusPublisher_def newPrometheusPublisher_def
      split: if_splits)

lemma main_step_health: "main_step lib cfg g h \<Longrightarrow> hs_fetchEndpoint (rn_health h) = hs_fetchEndpoint (rn_health g)"
  by (erule main_stepE) (simp_all add: Shutdown_def)

lemma main_step_poller: "main_step lib cfg g h \<Longrightarrow> rn_poller h = rn_poller g \<and> rn_reloads h = rn_reloads g \<and>
    rn_slow h = rn_slow g"
  by (erule main_stepE) simp_all

lemma crash_inv_step:
  assumes "crash_inv cfg envs g" and "gateway_step lib cfg st env envs g h"
  shows "crash_inv cfg envs h"
  using assms(2)
proof (cases rule: gateway_step.cases)
  case step_main
  with assms(1) main_step_health main_step_crash main_step_poller gateway_step_path [OF assms(2)] show ?thesis
    unfolding crash_inv_def by metis
next
  case (step_poll_crash pl load done_first took m)
  from loadOnce_panic [OF poll_turn_panic [OF step_poll_crash(5)]] assms(1) step_poll_crash(1,3,4) show ?thesis
    by (auto simp: crash_inv_def crash_cause_def)
next
  case (step_publisher_crash waits first evs m)
  with assms(1) publisher_panic [OF step_publisher_crash(3)] show ?thesis by (simp add: crash_inv_def crash_cause_def)
next
  case (step_health_crash m)
  with assms(1) health_routes_panic [of "rn_health g"] show ?thesis by (auto simp: crash_inv_def crash_cause_def)
qed (use assms(1) gateway_step_path [OF assms(2)] in \<open>auto simp: crash_inv_def\<close>)

lemma crash_inv_reach:
  assumes "gateway_main lib env = Ret (Started gw)"
    and "reach (\<lambda>h. h = run_gateway gw) (gateway_step lib (gw_config gw) (gw_settings gw) env' envs) g"
  shows "crash_inv (gw_config gw) envs g"
  using assms(2)
proof (induction rule: reach.induct)
  case (reach_init g)
  with started_parts [OF assms(1)] show ?case
    by (simp add: crash_inv_def run_gateway_def start_concurrent_def start_system_def NewHealthService_def)
qed (rule crash_inv_step)

section \<open>The poller's context\<close>

text \<open>
  As long as every load takes less than the interval, the loop waits at the \<open>select\<close> when a tick
  comes, the \<open>k\<close>-th load is at the \<open>k\<close>-th tick, and no tick after the deadline is taken.
\<close>

definition poller_inv :: "time \<Rightarrow> time \<Rightarrow> ('p, 'cb, 'm) running \<Rightarrow> bool" where
  "poller_inv start deadline g \<longleftrightarrow> rn_slow g \<or>
     (rn_reloads g = 0 \<or> start + poll_interval * int (rn_reloads g) \<le> deadline) \<and>
     (case rn_poller g of None \<Rightarrow> True
      | Some pl \<Rightarrow> pl_deadline pl = deadline \<and> pl_next pl = start + poll_interval * (int (rn_reloads g) + 1) \<and>
          pl_now pl < pl_next pl)"

lemma poller_inv_step:
  assumes "poller_inv start deadline g" and "gateway_step lib cfg st env envs g h"
  shows "poller_inv start deadline h"
  using assms(2)
proof (cases rule: gateway_step.cases)
  case step_main
  from main_step_poller [OF step_main(2)] have "rn_poller h = rn_poller g" "rn_reloads h = rn_reloads g" "rn_slow h = rn_slow g"
    by simp_all
  with assms(1) show ?thesis by (simp add: poller_inv_def split: option.splits)
next
  case (step_reload pl load took done_first pl' r')
  show ?thesis
  proof (cases "rn_slow g \<or> poll_interval \<le> took")
    case True
    with step_reload(1) show ?thesis by (simp add: poller_inv_def)
  next
    case False
    with assms(1) step_reload(3) have pl: "pl_deadline pl = deadline"
      "pl_next pl = start + poll_interval * (int (rn_reloads g) + 1)" "pl_now pl < pl_next pl"
      by (auto simp: poller_inv_def)
    from step_reload(6) have "pl' = pl\<lparr>pl_now := pl_next pl + took, pl_next := pl_next pl + poll_interval\<rparr>"
      "pl_next pl \<le> deadline"
      by (cases rule: poll_turn_cases; use pl in \<open>auto simp: max_def\<close>)+
    with False pl step_reload(1) show ?thesis by (simp add: poller_inv_def algebra_simps)
  qed
qed (use assms(1) in \<open>auto simp: poller_inv_def split: option.splits\<close>)

lemma poller_inv_reach:
  assumes "gateway_main lib env = Ret (Started gw)"
    and "reach (\<lambda>h. h = run_gateway gw) (gateway_step lib (gw_config gw) (gw_settings gw) env' envs) g"
  shows "poller_inv (ge_loaded env) (ge_init env + init_timeout) g"
  using assms(2)
proof (induction rule: reach.induct)
  case (reach_init g)
  with started_parts(3) [OF assms(1)] show ?case
    by (simp add: poller_inv_def run_gateway_def start_poller_def poll_interval_def)
qed (rule poller_inv_step)

lemma poll_bound:
  assumes "poller_inv start (t0 + init_timeout) g" and "t0 \<le> start" and "\<not> rn_slow g"
  shows "rn_reloads g \<le> (if t0 < start then 1 else 2)"
  using assms by (auto simp: poller_inv_def init_timeout_def poll_interval_def)

text \<open>A registry in a file has no poller, and nothing is ever reloaded.\<close>

lemma file_step:
  assumes "rn_poller g = None" and "gateway_step lib cfg st env (envs :: 'body load_env set) g h"
  shows "rn_poller h = None \<and> rn_reloads h = rn_reloads g \<and> gateway_step lib cfg st env ({} :: 'body load_env set) g h"
  using assms(2)
proof (cases rule: gateway_step.cases)
  case step_main
  with assms(1) main_step_poller [OF step_main(2)] show ?thesis by (simp add: gateway_step.step_main)
qed (use assms(1) in \<open>auto intro: gateway_step.intros\<close>)

lemma file_reach:
  assumes "rn_poller g0 = None" and "reach (\<lambda>h. h = g0) (gateway_step lib cfg st env (envs :: 'body load_env set)) g"
  shows "rn_poller g = None \<and> rn_reloads g = rn_reloads g0 \<and>
    reach (\<lambda>h. h = g0) (gateway_step lib cfg st env ({} :: 'body load_env set)) g"
  using assms(2)
proof (induction rule: reach.induct)
  case (reach_init g)
  with assms(1) show ?case by (simp add: reach.reach_init)
next
  case (reach_step g h)
  with file_step [OF _ reach_step.hyps(2)] show ?case by (metis reach.reach_step)
qed

section \<open>Runs of the poller and of the shutdown\<close>

text \<open>A load that lasts beyond the next tick finds it pending, and \<open>select\<close> may take it, done or not.\<close>

lemma overdue_run:
  assumes "reach I (gateway_step lib cfg st env envs) g" and "alive g" and "rn_poller g = Some pl"
    and "pl_next pl \<le> pl_now pl" and "load \<in> envs" and "isl (env_http_Get load)" and "is_url (reg_path (w_reg (rn_world g)))"
  shows "\<exists>h. reach I (gateway_step lib cfg st env envs) h \<and> rn_reloads h = rn_reloads g + k"
  using assms
proof (induction k arbitrary: g pl)
  case 0
  then show ?case by auto
next
  case (Suc k)
  let ?r = "w_reg (rn_world g)" and ?took = "next_tick (pl_now pl) (pl_next pl) - pl_now pl"
  let ?pl = "pl\<lparr>pl_now := pl_now pl + ?took, pl_next := next_tick (pl_now pl) (pl_next pl)\<rparr>"
  let ?h = "(with_world (\<lambda>w. w\<lparr>w_reg := ?r\<rparr>) g)\<lparr>rn_poller := Some ?pl, rn_reloads := Suc (rn_reloads g),
    rn_slow := rn_slow g \<or> poll_interval \<le> ?took\<rparr>"
  obtain err where l: "loadOnce load ?r = Ret (?r, err)" using loadOnce_unreachable [OF Suc.prems(7,6)] by blast
  have "0 \<le> ?took" using next_tick_after [OF Suc.prems(4)] by simp
  from reach.reach_step [OF Suc.prems(1) step_reload [OF Suc.prems(2,3,5) this poll_turn_overdue [OF Suc.prems(4) l]]]
  have h: "reach I (gateway_step lib cfg st env envs) ?h" .
  have "alive ?h" using Suc.prems(2) by (simp add: alive_def)
  from Suc.IH [OF h this, of ?pl] Suc.prems(5-7) show ?case by simp
qed

lemma slow_run:
  assumes "alive g" and "rn_poller g = Some (start_poller (t0 + init_timeout) start)" and "start \<le> t0 + poll_interval"
    and "load \<in> envs" and "isl (env_http_Get load)" and "is_url (reg_path (w_reg (rn_world g)))"
  shows "\<exists>h. reach (\<lambda>h. h = g) (gateway_step lib cfg st env envs) h \<and> rn_reloads h = rn_reloads g + n"
proof (cases n)
  case 0
  then show ?thesis by (auto intro: reach.reach_init)
next
  case (Suc k)
  let ?r = "w_reg (rn_world g)" and ?pl = "start_poller (t0 + init_timeout) start"
  let ?pl' = "?pl\<lparr>pl_now := start + poll_interval + poll_interval, pl_next := start + poll_interval + poll_interval\<rparr>"
  let ?h = "(with_world (\<lambda>w. w\<lparr>w_reg := ?r\<rparr>) g)\<lparr>rn_poller := Some ?pl', rn_reloads := Suc (rn_reloads g),
    rn_slow := rn_slow g \<or> poll_interval \<le> poll_interval\<rparr>"
  obtain err where l: "loadOnce load ?r = Ret (?r, err)" using loadOnce_unreachable [OF assms(6,5)] by blast
  have turn: "poll_turn False poll_interval load ?pl ?r = Ret (Some ?pl', ?r)"
    using assms(3) l by (simp add: poll_turn_def start_poller_def Let_def init_timeout_def poll_interval_def next_tick_def)
  have "reach (\<lambda>h. h = g) (gateway_step lib cfg st env envs) g" by (rule reach.reach_init) simp
  from reach.reach_step [OF this step_reload [OF assms(1,2,4) _ turn]]
  have h: "reach (\<lambda>h. h = g) (gateway_step lib cfg st env envs) ?h" by (simp add: poll_interval_def)
  have "alive ?h" using assms(1) by (simp add: alive_def)
  from overdue_run [OF h this _ _ assms(4,5), of ?pl' k] assms(6) Suc show ?thesis by simp
qed

lemma reach_main:
  "reach I (gateway_step lib cfg st env envs) g \<Longrightarrow> alive g \<Longrightarrow> main_step lib cfg g h \<Longrightarrow>
     reach I (gateway_step lib cfg st env envs) h"
  by (erule reach.reach_step) (rule step_main)

text \<open>\<open>main\<close> connects and subscribes, the library reports the connection: the callback is subscribed.\<close>

lemma connected_subscribed:
  assumes "mqtt_lib_ok (gl_mqtt lib)" and "mq_IsConnectionOpen (gl_mqtt lib) q"
  shows "subscribed lib (OnConnect (gl_mqtt lib)
    ((SubscribeToCommands (gl_mqtt lib) (gl_dispatch lib) c)\<lparr>az_client := Some q\<rparr>))"
proof -
  let ?c = "(SubscribeToCommands (gl_mqtt lib) (gl_dispatch lib) c)\<lparr>az_client := Some q\<rparr>"
  have "open_connection (gl_mqtt lib) ?c" using assms(2) by (simp add: open_connection_def)
  from OnConnect_handler [OF assms(1) this] show ?thesis by (simp add: subscribed_def frame_simps)
qed

lemma reach_serving:
  assumes "life_start cap n g0" and "mqtt_lib_ok (gl_mqtt lib)" and "connection_possible (gl_mqtt lib)"
  shows "\<exists>g w. reach (\<lambda>h. h = g0) (gateway_step lib cfg st env envs) g \<and> rn_phase g = Serving \<and> alive g \<and>
    subscribed lib (w_cloud (rn_world g)) \<and> rn_incoming g = [] \<and> same_pool (start_system cap n w) (rn_system g)"
proof -
  let ?R = "reach (\<lambda>h. h = g0) (gateway_step lib cfg st env envs)" and ?lib = "gl_mqtt lib"
  obtain w0 where g0: "rn_pool g0 = start_concurrent cap n w0" "rn_phase g0 = Starting" "rn_crash g0 = None"
    "rn_incoming g0 = []" using assms(1) by (auto simp: life_start_def)
  obtain c err where c: "Connect ?lib None (w_cloud (rn_world g0)) = (c, err)" "az_client c \<noteq> None"
    by (cases "Connect ?lib None (w_cloud (rn_world g0))") (auto simp: Connect_def split: prod.splits)
  let ?c2 = "SubscribeToCommands ?lib (gl_dispatch lib) c"
  have "az_client ?c2 \<noteq> None" using c(2) by (simp add: SubscribeToCommands_def Let_def)
  then obtain p2 where p2: "az_client ?c2 = Some p2" by blast
  obtain q where q: "mq_IsConnectionOpen ?lib q" "mq_Handler ?lib q = mq_Handler ?lib p2"
    using assms(3) by (auto simp: connection_possible_def)
  let ?c3 = "OnConnect ?lib (?c2\<lparr>az_client := Some q\<rparr>)"
  let ?g1 = "(with_world (\<lambda>w. w\<lparr>w_cloud := c\<rparr>) g0)\<lparr>rn_phase := Connecting\<rparr>"
  let ?g2 = "(with_world (\<lambda>w. w\<lparr>w_cloud := SubscribeToCommands ?lib (gl_dispatch lib) (w_cloud w)\<rparr>) ?g1)\<lparr>rn_phase := Serving\<rparr>"
  let ?g3 = "with_world (\<lambda>w. w\<lparr>w_cloud := ?c3\<rparr>) ?g2"
  have a: "alive g0" "alive ?g1" "alive ?g2" "alive ?g3" using g0 by (simp_all add: alive_def)
  have "?R g0" by (rule reach_init) simp
  from reach_main [OF this a(1) main_connect [OF g0(2) c(1)]] have r1: "?R ?g1" .
  have r2: "?R ?g2" by (rule reach_main [OF r1 a(2) main_subscribe]) simp
  have "cloud_event ?lib (w_cloud (rn_world ?g2)) ?c3" using cloud_connected [OF p2 q] by simp
  from step_cloud [OF a(3) this] have "gateway_step lib cfg st env envs ?g2 ?g3" .
  with r2 have r3: "?R ?g3" by (rule reach.reach_step)
  from connected_subscribed [OF assms(2) q(1)] r3 a(4) g0 show ?thesis
    by (intro exI [of _ ?g3] exI [of _ w0] conjI) (auto simp: same_pool_iff start_concurrent_def start_system_def)
qed

text \<open>From \<open>Serving\<close> to \<open>EngineCancelled\<close> \<open>main\<close> need not wait for anybody.\<close>

lemma reach_cancelled:
  assumes "reach I (gateway_step lib cfg st env envs) g" and "rn_phase g = Serving" and "alive g"
  shows "\<exists>h. reach I (gateway_step lib cfg st env envs) h \<and> rn_phase h = EngineCancelled \<and> alive h \<and>
    rn_incoming h = rn_incoming g \<and> rn_pool h = (rn_pool g)\<lparr>cc_system := (rn_system g)\<lparr>sy_cancelled := True\<rparr>\<rparr>"
proof -
  let ?g1 = "g\<lparr>rn_phase := HealthDown, rn_health := Shutdown (rn_health g)\<rparr>"
  let ?g2 = "?g1\<lparr>rn_phase := PublisherCancelled, rn_publishing := False\<rparr>"
  let ?g3 = "(with_system (\<lambda>s. s\<lparr>sy_cancelled := True\<rparr>) ?g2)\<lparr>rn_phase := EngineCancelled\<rparr>"
  have a: "alive ?g1" "alive ?g2" "alive ?g3" using assms(3) by (simp_all add: alive_def)
  from reach_main [OF assms(1,3) main_health [OF assms(2)]]
  have r1: "reach I (gateway_step lib cfg st env envs) ?g1" .
  have r2: "reach I (gateway_step lib cfg st env envs) ?g2"
    by (rule reach_main [OF r1 a(1) main_publisher]) simp
  have r3: "reach I (gateway_step lib cfg st env envs) ?g3"
    by (rule reach_main [OF r2 a(2) main_cancel]) simp
  with a(3) show ?thesis by (intro exI [of _ ?g3]) simp
qed

lemma workers_exit:
  "reach I (gateway_step lib cfg st env envs) g \<Longrightarrow> alive g \<Longrightarrow> sy_cancelled (rn_system g) \<Longrightarrow>
     sy_workers (rn_system g) = replicate k WExited @ replicate m WIdle \<Longrightarrow>
     reach I (gateway_step lib cfg st env envs) (with_system (\<lambda>s. s\<lparr>sy_workers := replicate (k + m) WExited\<rparr>) g)"
proof (induction m arbitrary: g k)
  case 0
  have "with_system (\<lambda>s. s\<lparr>sy_workers := replicate (k + 0) WExited\<rparr>) g = g" using 0(4) by simp
  with 0(1) show ?case by metis
next
  case (Suc m)
  let ?d = "(rn_pool g)\<lparr>cc_system := (rn_system g)\<lparr>sy_workers := (sy_workers (rn_system g))[k := WExited]\<rparr>\<rparr>"
  have u: "(sy_workers (rn_system g))[k := WExited] = replicate (Suc k) WExited @ replicate m WIdle"
    using Suc.prems(4) by (simp add: list_update_append replicate_app_Cons_same)
  have "pool_step (gateway_engine lib cfg st) env (rn_pool g) ?d"
    by (rule pool_step.pool_exit_cancelled [OF _ _ Suc.prems(3) refl]) (simp_all add: Suc.prems(4) nth_append)
  from reach.reach_step [OF Suc.prems(1) step_worker [OF Suc.prems(2) this]] Suc.IH [of "g\<lparr>rn_pool := ?d\<rparr>" "Suc k"] Suc.prems u
  show ?case by (simp add: alive_def)
qed

text \<open>A message that is received and handled: its command is accepted, or the dispatch panics.\<close>

lemma reach_message:
  assumes "reach I (gateway_step lib cfg st env envs) g" and "alive g"
    and "subscribed lib (w_cloud (rn_world g))" and "rn_incoming g = []"
  shows "reach I (gateway_step lib cfg st env envs)
    ((with_system (dispatch_to (gateway_engine lib cfg st) cmd) g)\<lparr>rn_incoming := []\<rparr>)"
proof -
  let ?g1 = "g\<lparr>rn_incoming := [Inr cmd]\<rparr>"
  have m: "on_message (Inr cmd) (cmd_IssuedAt cmd) = Some cmd" by (simp add: on_message_def)
  have a: "alive ?g1" using assms(2) by (simp add: alive_def)
  from reach.reach_step [OF assms(1) step_receive [OF assms(2,3), of _ _ _ _ "Inr cmd"]] assms(4)
  have r: "reach I (gateway_step lib cfg st env envs) ?g1" by simp
  have "gateway_step lib cfg st env envs ?g1
      ((with_system (dispatch_to (gateway_engine lib cfg st) cmd) ?g1)\<lparr>rn_incoming := []\<rparr>)"
    by (rule step_message [OF a _ m]) simp
  from reach.reach_step [OF r this] show ?thesis by simp
qed

lemma abandoning_run:
  assumes "life_start cap n g0" and "0 < cap" and "mqtt_lib_ok (gl_mqtt lib)" and "connection_possible (gl_mqtt lib)"
  shows "\<exists>g. reach (\<lambda>h. h = g0) (gateway_step lib cfg st env envs) g \<and> rn_phase g = ShutDown \<and> not_crashed g \<and>
    sy_accepted (rn_system g) = [cmd] \<and> ch_buf (sy_queue (rn_system g)) = [cmd] \<and> sy_finished (rn_system g) = []"
proof -
  let ?R = "reach (\<lambda>h. h = g0) (gateway_step lib cfg st env envs)"
  obtain g w where g: "?R g" "rn_phase g = Serving" "alive g" "subscribed lib (w_cloud (rn_world g))"
    "rn_incoming g = []" "same_pool (start_system cap n w) (rn_system g)"
    using reach_serving [OF assms(1,3,4), of cfg st env envs] by blast
  let ?g1 = "(with_system (dispatch_to (gateway_engine lib cfg st) cmd) g)\<lparr>rn_incoming := []\<rparr>"
  have s: "sy_accepted (rn_system ?g1) = [cmd]" "ch_buf (sy_queue (rn_system ?g1)) = [cmd]" "sy_finished (rn_system ?g1) = []"
    "\<not> sy_panicked (rn_system ?g1)" "sy_workers (rn_system ?g1) = replicate n WIdle" "\<not> ch_closed (sy_queue (rn_system ?g1))"
    using g(6) assms(2) by (auto simp: same_pool_iff dispatch_to_def DispatchCommand_open Let_def)
  have a: "alive ?g1" using g(2,3) s(4) by (simp add: alive_def)
  from reach_cancelled [OF reach_message [OF g(1,3-5)] _ a] g(2) obtain h where h: "?R h" "rn_phase h = EngineCancelled"
    "alive h" "rn_pool h = (rn_pool ?g1)\<lparr>cc_system := (rn_system ?g1)\<lparr>sy_cancelled := True\<rparr>\<rparr>" by auto
  let ?i = "with_system (\<lambda>s. s\<lparr>sy_workers := replicate n WExited\<rparr>) h"
  have i: "?R ?i" "alive ?i" using workers_exit [OF h(1,3), of 0 n] h s by (simp_all add: alive_def)
  let ?q = "(sy_queue (rn_system ?i))\<lparr>ch_closed := True\<rparr>"
  let ?j = "(with_system (\<lambda>s. s\<lparr>sy_queue := ?q\<rparr>) ?i)\<lparr>rn_phase := StopWait\<rparr>"
  have "close_chan (sy_queue (rn_system ?i)) = Ret ?q" using h(4) s(6) by (simp add: close_chan_def)
  from reach_main [OF i main_stop [OF _ this]] h(2) have j: "?R ?j" by simp
  have ja: "alive ?j" using i(2) h(2) by (simp add: alive_def)
  let ?k = "(with_world (\<lambda>w. if cfg_SQLiteDBPath cfg \<noteq> [] then w\<lparr>w_buf := CloseBuffer (w_buf w)\<rparr> else w) ?j)
    \<lparr>rn_phase := BufferClosed\<rparr>"
  have "all_exited (rn_system ?j)" by (simp add: all_exited_def list_all_iff)
  from reach_main [OF j ja main_buffer [OF _ this]] have k1: "?R ?k" by simp
  have ka: "alive ?k" using ja by (simp add: alive_def)
  note k = k1 ka
  let ?l = "(with_world (\<lambda>w. w\<lparr>w_cloud := Disconnect (gl_mqtt lib) (w_cloud w)\<rparr>) ?k)\<lparr>rn_phase := ShutDown\<rparr>"
  have "?R ?l" by (rule reach_main [OF k main_disconnect]) simp
  then show ?thesis using k(2) h s by (intro exI [of _ ?l] conjI) (simp_all add: alive_def not_crashed_def)
qed

lemma panicking_run:
  assumes "life_start cap n g0" and "mqtt_lib_ok (gl_mqtt lib)" and "connection_possible (gl_mqtt lib)"
  shows "\<exists>g. reach (\<lambda>h. h = g0) (gateway_step lib cfg st env envs) g \<and> rn_phase g = StopWait \<and>
    subscribed lib (w_cloud (rn_world g)) \<and> sy_panicked (rn_system g) \<and> rn_crash g = None"
proof -
  let ?R = "reach (\<lambda>h. h = g0) (gateway_step lib cfg st env envs)"
  obtain g w where g: "?R g" "rn_phase g = Serving" "alive g" "subscribed lib (w_cloud (rn_world g))"
    "rn_incoming g = []" "same_pool (start_system cap n w) (rn_system g)"
    using reach_serving [OF assms, of cfg st env envs] by blast
  from reach_cancelled [OF g(1-3)] obtain h where h: "?R h" "rn_phase h = EngineCancelled" "alive h"
    "rn_incoming h = rn_incoming g" "rn_pool h = (rn_pool g)\<lparr>cc_system := (rn_system g)\<lparr>sy_cancelled := True\<rparr>\<rparr>" by auto
  have o: "\<not> ch_closed (sy_queue (rn_system h))" using h(5) g(6) by (auto simp: same_pool_iff)
  let ?j = "(with_system (\<lambda>s. s\<lparr>sy_queue := (sy_queue (rn_system h))\<lparr>ch_closed := True\<rparr>\<rparr>) h)\<lparr>rn_phase := StopWait\<rparr>"
  have j: "?R ?j" by (rule reach_main [OF h(1,3) main_stop [OF h(2)]]) (simp add: close_chan_def o)
  have a: "alive ?j" "subscribed lib (w_cloud (rn_world ?j))" "rn_incoming ?j = []" using h g(4,5) by (simp_all add: alive_def)
  let ?k = "\<lambda>cmd. (with_system (dispatch_to (gateway_engine lib cfg st) cmd) ?j)\<lparr>rn_incoming := []\<rparr>"
  have "?R (?k cmd)" for cmd by (rule reach_message [OF j a])
  moreover have "sy_panicked (rn_system (?k cmd))" for cmd by (simp add: dispatch_to_def DispatchCommand_closed)
  moreover have "rn_phase (?k cmd) = StopWait" "rn_crash (?k cmd) = None" for cmd using h(3) by (simp_all add: alive_def)
  moreover have "subscribed lib (w_cloud (rn_world (?k cmd)))" for cmd using a(2) by (simp add: dispatch_frame)
  ultimately show ?thesis by blast
qed

lemma crash_is_final: "\<not> not_crashed g \<Longrightarrow> \<not> gateway_step lib cfg st env envs g h"
  by (auto simp: alive_iff elim: gateway_stepE)

end
