(* ===== verification/SampleGateway.thy ===== *)
theory SampleGateway
  imports GatewayLife
begin

text \<open>
  A concrete gateway on which the properties are applied: the default configuration, one
  projector, lists for the state of the libraries, and connections scripted as data.
\<close>

section \<open>Libraries, configuration and world\<close>

definition sample_prom :: "string list prom_lib" where
  "sample_prom = \<lparr>pr_MustRegister = \<lambda>m names. Ret m, pr_Observe = \<lambda>m name labels v. m @ [name],
     pr_Inc = \<lambda>m name. m @ [name]\<rparr>"

definition sample_lib :: "((string \<times> string) list \<times> bool, string, string list) gateway_lib" where
  "sample_lib = \<lparr>gl_mqtt = list_mqtt, gl_dispatch = ''dispatch'', gl_prom = sample_prom, gl_seconds = \<lambda>_. Fin 0, gl_tcp_clock = int,
     gl_rules = sample_rules_env, gl_map_order = \<lambda>xs. xs, gl_sql_order = sort_key row_timestamp\<rparr>"

definition sample_config :: config where
  "sample_config = decode_config (\<lambda>_. seconds 30) ''hub'' config_defaults"

definition sample_registry :: registry where
  "sample_registry = \<lparr>reg_devices = [(''Projector01'', projector)], reg_path = []\<rparr>"

definition sample_world :: "(go_error + conn) list \<Rightarrow>
    (registry, ((string \<times> string) list \<times> bool, string) azure, net, sqlite, string list) world" where
  "sample_world dials = \<lparr>w_reg = sample_registry, w_cloud = NewAzureMQTTClient ''hub'',
     w_net = \<lparr>net_dials = dials, net_log = []\<rparr>, w_buf = empty_db, w_met = [], w_now = 0, w_waits = []\<rparr>"

definition answering :: "bytes \<Rightarrow> conn" where
  "answering line = sample_conn (''PJLINK 0'' @ [CR] @ line @ [CR])"

definition status_dials :: "(go_error + conn) list" where
  "status_dials = [Inr (answering ''%1POWR=1''), Inr (answering ''%1LAMP=42 1'')]"

lemma sample_lib_simps [simp]:
  "gl_map_order sample_lib = (\<lambda>xs. xs)" "gl_sql_order sample_lib = sort_key row_timestamp"
  "gl_mqtt sample_lib = list_mqtt" "mqtt_lib_ok list_mqtt" "connection_possible list_mqtt"
  by (simp_all add: sample_lib_def list_mqtt_ok list_mqtt_connects)

lemma sample_config_simps [simp]:
  "cfg_SQLiteDBPath sample_config = ''/tmp/gateway_buffer.db''" "cfg_IotHubHostname sample_config = ''hub''"
  by (simp_all add: sample_config_def)

lemma sample_world_simps [simp]:
  "w_reg (sample_world ds) = sample_registry" "w_buf (sample_world ds) = empty_db" "w_now (sample_world ds) = 0"
  "w_cloud (sample_world ds) = NewAzureMQTTClient ''hub''"
  "w_net (sample_world ds) = \<lparr>net_dials = ds, net_log = []\<rparr>"
  by (simp_all add: sample_world_def)

lemma sample_registry_ok [simp]: "reg_ok sample_registry"
  by (simp add: reg_ok_def sample_registry_def valid_device_def map_ok_def)

lemma sample_get [simp]: "GetDevice sample_registry ''Projector01'' = Inr projector"
  by (simp add: GetDevice_def sample_registry_def)

lemma sample_command_simps [simp]:
  "cmd_DeviceID sample_command = ''Projector01''" "cmd_CommandName sample_command = CmdGetStatus"
  "cmd_CorrelationID sample_command = ''c-1''"
  by (simp_all add: sample_command_def)

lemma answers_answering: "answers (answering line) line"
  by (simp add: answers_def answering_def sample_conn_def)

lemma show_42: "show_nat 42 = ''42''"
  by code_simp

lemma default_settings_simps [simp]:
  "MaxAttempts (set_retryPolicy default_settings) = 3"
  by (simp add: default_settings_def)

lemma env_clock_calm [simp]: "env_clock calm = int"
  by (simp add: calm_def)

lemma db_contents_empty [simp]: "db_contents empty_db = []"
  by (simp add: db_contents_def empty_db_def)

lemma reg_view_sample [simp]: "reg_view sample_registry ''Projector01'' = Some projector"
  by (simp add: reg_view_def sample_registry_def)

lemma not_connected_new [simp]: "\<not> IsConnected lib (NewAzureMQTTClient h)"
  by (simp add: IsConnected_def NewAzureMQTTClient_def)

lemma sample_routed:
  "\<exists>d1 d2. routed (gateway_engine sample_lib sample_config default_settings) calm sample_command
      (sample_world status_dials) =
    Some (projector, (sample_world status_dials)\<lparr>w_now := 3, w_net := \<lparr>net_dials = [],
        net_log = [(dev_address projector, Some d1), (dev_address projector, Some d2)]\<rparr>\<rparr>,
      status_data ''1'' 42 ''1'', None)"
proof -
  let ?w0 = "(sample_world status_dials)\<lparr>w_now := Suc 0\<rparr>"
  have "answers (answering ''%1POWR=1'') (''%1POWR='' @ ''1'')" using answers_answering by simp
  moreover have "answers (answering ''%1LAMP=42 1'') (''%1LAMP='' @ show_nat 42 @ '' '' @ ''1'')"
    using answers_answering by (simp add: show_42)
  ultimately obtain d1 d2 where "executeCommandChain (gateway_engine sample_lib sample_config default_settings)
      calm projector NewPJLinkAdapter sample_command (''%1POWR ?'' @ [CR]) ?w0 =
      (?w0\<lparr>w_now := w_now ?w0 + 2, w_net := \<lparr>net_dials = [], net_log = net_log (w_net ?w0) @
          [(dev_address projector, Some d1), (dev_address projector, Some d2)]\<rparr>\<rparr>, status_data ''1'' 42 ''1'', None)"
    using status_chain [of default_settings projector sample_command ?w0 "answering ''%1POWR=1''"
        "answering ''%1LAMP=42 1''" "[]" "''1''" 42 "''1''" sample_lib sample_config calm]
    by (auto simp: status_dials_def)
  then show ?thesis
    using gateway_status_routed [of "sample_world status_dials" sample_command projector sample_lib sample_config
        default_settings calm]
    by (intro exI [of _ d1] exI [of _ d2]) simp
qed

section \<open>Start-up\<close>

definition sample_load :: "unit load_env" where
  "sample_load = \<lparr>env_http_Get = Inr (200, ()), env_os_Open = Inr (), env_Decode = \<lambda>_. Inr [Some projector]\<rparr>"

definition sample_start :: "(unit, string list) start_env" where
  "sample_start = \<lparr>ge_unmarshal = \<lambda>defaults. Inr (decode_config (\<lambda>_. seconds 30) ''hub'' defaults),
     ge_init = 0, ge_load = sample_load, ge_loaded = 1,
     ge_sqlite = \<lparr>se_MkdirAll = None, se_Open = Inr ([], 0), se_faults = []\<rparr>,
     ge_net = \<lparr>net_dials = [], net_log = []\<rparr>, ge_prom = []\<rparr>"

lemma sample_loads: "\<exists>r. loadOnce sample_load (NewStaticJSONRegistry path) = Ret (r, None)"
  by (simp add: loadOnce_def fetch_body_def sample_load_def NewStaticJSONRegistry_def validateDevice_def projector_def)

lemma start_succeeds:
  assumes "LoadConfig (ge_unmarshal env) = Inr cfg" and "ge_load env = sample_load"
    and "open_buffer cfg (ge_sqlite env) = Inr db" and "0 \<le> cfg_CommandQueueSize cfg"
  shows "\<exists>g. gateway_main sample_lib env = Ret (Started g) \<and> gw_config g = cfg"
proof -
  obtain r p where "Load (ge_load env) (ge_init env + init_timeout) (ge_loaded env)
      (NewStaticJSONRegistry (cfg_RegistryPath cfg)) = Ret (r, None, p)"
    using sample_loads [of "cfg_RegistryPath cfg"] by (auto simp: Load_def assms(2))
  moreover obtain st where "NewEngine (gateway_options cfg) = Ret st"
    using assms(4) by (simp add: NewEngine_gateway)
  moreover have "newMetricsService (gl_prom sample_lib) m = Ret m" for m
    by (simp add: newMetricsService_def sample_lib_def sample_prom_def)
  ultimately show ?thesis using assms(1,3) by (simp add: gateway_main_def gateway_assemble_def)
qed

lemma sample_starts:
  "\<exists>g. gateway_main sample_lib sample_start = Ret (Started g) \<and> gw_config g = sample_config"
proof (rule start_succeeds)
  show "open_buffer sample_config (ge_sqlite sample_start) = Inr empty_db"
    by (simp add: open_buffer_def sample_start_def NewSQLiteBuffer_def db_call_def empty_db_def)
qed (simp_all add: LoadConfig_def sample_start_def sample_config_def)

text \<open>The same with its registry at a URL.\<close>

definition url_start :: "(unit, string list) start_env" where
  "url_start = sample_start\<lparr>ge_unmarshal := \<lambda>_. Inr (sample_config\<lparr>cfg_RegistryPath := ''http://vdr''\<rparr>)\<rparr>"

lemma url_starts:
  "\<exists>g. gateway_main sample_lib url_start = Ret (Started g) \<and> gw_config g = sample_config\<lparr>cfg_RegistryPath := ''http://vdr''\<rparr>"
proof (rule start_succeeds)
  show "open_buffer (sample_config\<lparr>cfg_RegistryPath := ''http://vdr''\<rparr>) (ge_sqlite url_start) = Inr empty_db"
    by (simp add: open_buffer_def url_start_def sample_start_def NewSQLiteBuffer_def db_call_def empty_db_def)
qed (simp_all add: LoadConfig_def url_start_def sample_start_def sample_config_def)

text \<open>The gateway after start-up, and after a connect that failed for want of a key pair.\<close>

definition connecting :: "('p, 'cb, 'm) gateway \<Rightarrow> ('p, 'cb, 'm) running" where
  "connecting gw = (run_gateway gw)\<lparr>rn_phase := Connecting\<rparr>"

lemma sample_reach:
  "reach (\<lambda>h. h = run_gateway gw) (gateway_step lib cfg st env (envs :: unit load_env set)) (run_gateway gw)"
  by (rule reach_init) simp

lemma connecting_step: "gateway_step lib cfg st env (envs :: unit load_env set) (run_gateway gw) (connecting gw)"
proof -
  have "Connect (gl_mqtt lib) (Some (OtherErr [])) (w_cloud (rn_world (run_gateway gw))) =
      (w_cloud (rn_world (run_gateway gw)), Some (wrap_last ''could not load x509 key pair'' (OtherErr [])))"
    by (simp add: Connect_def)
  from main_connect [OF _ this] have "main_step lib cfg (run_gateway gw) (connecting gw)"
    by (simp add: run_gateway_def connecting_def start_concurrent_def start_system_def)
  then show ?thesis
    by (intro step_main) (simp_all add: alive_def run_gateway_def start_concurrent_def start_system_def)
qed

end
