(* ===== verification/Certificates.thy ===== *)
theory Certificates
  imports AzureCloud
begin

text \<open>
  \<open>generate_certs.go\<close>: the helper that makes the identity with which the gateway's MQTT client
  connects.  Key generation, signing, DER encoding, SHA-256 and the calendar are the library's,
  parameters here; PEM files are kept as their type and contents.  The errors of creating and
  writing the files are ignored by the program, and so have no effect but on the files.
\<close>

section \<open>Hexadecimal\<close>

text \<open>\<open>hex.EncodeToString\<close> and \<open>strings.ToUpper\<close> on its result.\<close>

definition hex_digit :: "nat \<Rightarrow> char" where
  "hex_digit n = (if n < 10 then char_of (48 + n) else char_of (87 + n))"

definition hex_encode :: "bytes \<Rightarrow> string" where
  "hex_encode bs = concat (map (\<lambda>b. let v = of_char b :: nat in [hex_digit (v div 16), hex_digit (v mod 16)]) bs)"

definition to_upper_char :: "char \<Rightarrow> char" where
  "to_upper_char c = (let n = of_char c :: nat in if 97 \<le> n \<and> n \<le> 122 then char_of (n - 32) else c)"

definition to_upper :: "string \<Rightarrow> string" where
  "to_upper s = map to_upper_char s"

text \<open>Reading an upper-case thumbprint back, as the registration does.\<close>

definition hex_value :: "char \<Rightarrow> nat option" where
  "hex_value c = (let n = of_char c :: nat
     in if 48 \<le> n \<and> n \<le> 57 then Some (n - 48) else if 65 \<le> n \<and> n \<le> 70 then Some (n - 55) else None)"

fun unhex :: "string \<Rightarrow> bytes option" where
  "unhex [] = Some []"
| "unhex [c] = None"
| "unhex (c # d # s) =
     (case (hex_value c, hex_value d, unhex s) of
        (Some h, Some l, Some bs) \<Rightarrow> Some (char_of (16 * h + l) # bs)
      | _ \<Rightarrow> None)"

lemma hex_value_upper: "n < 16 \<Longrightarrow> hex_value (to_upper_char (hex_digit n)) = Some n"
  by (auto simp: hex_value_def to_upper_char_def hex_digit_def Let_def)

lemma unhex_upper: "unhex (to_upper (hex_encode bs)) = Some bs"
proof (induction bs)
  case (Cons b bs)
  have "(of_char b :: nat) < 256" by (rule nat_of_char_less_256)
  then have "of_char b div 16 < (16 :: nat)" by linarith
  then have "hex_value (to_upper_char (hex_digit (of_char b div 16))) = Some (of_char b div 16)"
    "hex_value (to_upper_char (hex_digit (of_char b mod 16))) = Some (of_char b mod 16)"
    by (simp_all add: hex_value_upper)
  with Cons show ?case by (simp add: hex_encode_def to_upper_def Let_def)
qed (simp add: hex_encode_def to_upper_def)

lemma length_hex [simp]: "length (to_upper (hex_encode bs)) = 2 * length bs"
  by (induction bs) (simp_all add: hex_encode_def to_upper_def Let_def)

section \<open>The program\<close>

record cert_template =
  ct_SerialNumber :: int
  ct_CommonName :: string
  ct_NotBefore :: time
  ct_NotAfter :: time
  ct_KeyUsageDigitalSignature :: bool
  ct_ExtKeyUsageClientAuth :: bool
  ct_BasicConstraintsValid :: bool

datatype file_content = EmptyFile | PemFile string bytes

text \<open>
  The library and the disk: \<open>cl_CreateCertificate template parent pub priv\<close> gets the key
  pair twice, once for its public half; \<open>cl_Create\<close> and \<open>cl_Write\<close> say which files can be
  created and written.
\<close>

record 'k cert_lib =
  cl_GenerateKey :: "'k result"
  cl_CreateCertificate :: "cert_template \<Rightarrow> cert_template \<Rightarrow> 'k \<Rightarrow> 'k \<Rightarrow> bytes result"
  cl_MarshalECPrivateKey :: "'k \<Rightarrow> bytes result"
  cl_Sum256 :: "bytes \<Rightarrow> bytes"
  cl_AddYear :: "time \<Rightarrow> time"
  cl_Create :: "string \<Rightarrow> bool"
  cl_Write :: "string \<Rightarrow> bool"

text \<open>What is printed on success: the registration details.\<close>

record registration =
  rg_DeviceID :: string
  rg_AuthenticationType :: string
  rg_PrimaryThumbprint :: string
  rg_SecondaryThumbprint :: string

datatype generated = GenerationFailed string go_error | Generated registration

definition deviceID :: string where
  "deviceID = ''edge-gateway-sim''"

definition template_at :: "'k cert_lib \<Rightarrow> time \<Rightarrow> time \<Rightarrow> cert_template" where
  "template_at lib now1 now2 = \<lparr>ct_SerialNumber = 1, ct_CommonName = deviceID, ct_NotBefore = now1,
     ct_NotAfter = cl_AddYear lib now2, ct_KeyUsageDigitalSignature = True, ct_ExtKeyUsageClientAuth = True,
     ct_BasicConstraintsValid = True\<rparr>"

text \<open>\<open>os.Create\<close> truncates the file; a file that could not be created stays as it was.\<close>

definition save_pem :: "'k cert_lib \<Rightarrow> string \<Rightarrow> string \<Rightarrow> bytes \<Rightarrow> (string \<rightharpoonup> file_content) \<Rightarrow> (string \<rightharpoonup> file_content)" where
  "save_pem lib name ty contents disk =
     (if \<not> cl_Create lib name then disk
      else disk(name \<mapsto> (if cl_Write lib name then PemFile ty contents else EmptyFile)))"

definition generate_certs :: "'k cert_lib \<Rightarrow> time \<Rightarrow> time \<Rightarrow> (string \<rightharpoonup> file_content) \<Rightarrow> (string \<rightharpoonup> file_content) \<times> generated" where
  "generate_certs lib now1 now2 disk =
     (case cl_GenerateKey lib of
        Inl err \<Rightarrow> (disk, GenerationFailed ''Error generating key:'' err)
      | Inr privateKey \<Rightarrow>
          (let template = template_at lib now1 now2
           in case cl_CreateCertificate lib template template privateKey privateKey of
                Inl err \<Rightarrow> (disk, GenerationFailed ''Error creating certificate:'' err)
              | Inr derBytes \<Rightarrow>
                  (let disk1 = save_pem lib ''cert.pem'' ''CERTIFICATE'' derBytes disk;
                       keyBytes = (case cl_MarshalECPrivateKey lib privateKey of Inl err \<Rightarrow> [] | Inr bs \<Rightarrow> bs);
                       disk2 = save_pem lib ''key.pem'' ''EC PRIVATE KEY'' keyBytes disk1;
                       thumbprint = to_upper (hex_encode (cl_Sum256 lib derBytes))
                   in (disk2, Generated \<lparr>rg_DeviceID = deviceID,
                         rg_AuthenticationType = ''X.509 Self-Signed'',
                         rg_PrimaryThumbprint = thumbprint, rg_SecondaryThumbprint = thumbprint\<rparr>))))"

text \<open>
  The errors of the files are not looked at: with a disk on which nothing can be created the
  program reports success, and has written nothing.
\<close>

lemma success_without_files:
  assumes "cl_GenerateKey lib = Inr k" and "\<And>t. \<exists>der. cl_CreateCertificate lib t t k k = Inr der"
    and "\<And>name. \<not> cl_Create lib name"
  shows "\<exists>reg. generate_certs lib now1 now2 disk = (disk, Generated reg)"
  using assms(2) [of "template_at lib now1 now2"] assms(1,3)
  by (auto simp: generate_certs_def save_pem_def Let_def)

section \<open>Properties\<close>

text \<open>C40: the identity is one.  When the helper succeeds on a disk it can write to, \<open>cert.pem\<close>
  holds a certificate signed with the key in \<open>key.pem\<close> whose common name is the device ID with
  which the gateway's MQTT client connects, and the thumbprints to register are the 64
  upper-case digits from which the SHA-256 of that certificate can be read back.\<close>

theorem generated_identity:
  assumes "generate_certs lib now1 now2 disk = (disk', Generated reg)"
    and "\<And>name. cl_Create lib name" and "\<And>name. cl_Write lib name" and "\<And>bs. length (cl_Sum256 lib bs) = 32"
  shows "\<exists>k der t. cl_GenerateKey lib = Inr k \<and> cl_CreateCertificate lib t t k k = Inr der \<and>
    disk' ''cert.pem'' = Some (PemFile ''CERTIFICATE'' der) \<and>
    disk' ''key.pem'' = Some (PemFile ''EC PRIVATE KEY'' (case cl_MarshalECPrivateKey lib k of Inl err \<Rightarrow> [] | Inr bs \<Rightarrow> bs)) \<and>
    ct_CommonName t = mo_ClientID (azure_options (NewAzureMQTTClient hostname)) \<and> rg_DeviceID reg = ct_CommonName t \<and>
    rg_PrimaryThumbprint reg = rg_SecondaryThumbprint reg \<and> length (rg_PrimaryThumbprint reg) = 64 \<and>
    unhex (rg_PrimaryThumbprint reg) = Some (cl_Sum256 lib der)"
proof -
  let ?t = "template_at lib now1 now2"
  obtain k der where k: "cl_GenerateKey lib = Inr k" "cl_CreateCertificate lib ?t ?t k k = Inr der"
    using assms(1) by (auto simp: generate_certs_def Let_def split: sum.splits)
  then show ?thesis using assms
    by (intro exI [of _ k] exI [of _ der] exI [of _ ?t])
      (auto simp: generate_certs_def Let_def save_pem_def unhex_upper template_at_def deviceID_def
        NewAzureMQTTClient_def azure_options_def)
qed

text \<open>A library with numbers for keys and a digest of 32 zeros.\<close>

definition sample_cert_lib :: "nat cert_lib" where
  "sample_cert_lib = \<lparr>cl_GenerateKey = Inr 7, cl_CreateCertificate = \<lambda>t p pub priv. Inr (ct_CommonName t),
     cl_MarshalECPrivateKey = \<lambda>k. Inr [char_of k], cl_Sum256 = \<lambda>_. replicate 32 (CHR 0x00),
     cl_AddYear = \<lambda>t. t + 31536000000000000, cl_Create = \<lambda>_. True, cl_Write = \<lambda>_. True\<rparr>"

lemma generated_identity_witness:
  "\<exists>disk reg. generate_certs sample_cert_lib 0 1 (\<lambda>_. None) = (disk, Generated reg) \<and>
     disk ''cert.pem'' = Some (PemFile ''CERTIFICATE'' ''edge-gateway-sim'') \<and> length (rg_PrimaryThumbprint reg) = 64"
proof -
  obtain disk reg where g: "generate_certs sample_cert_lib 0 1 (\<lambda>_. None) = (disk, Generated reg)"
    by (simp add: generate_certs_def sample_cert_lib_def Let_def)
  from generated_identity [OF g, of "''hub''"] g show ?thesis
    by (auto simp: sample_cert_lib_def azure_options_def NewAzureMQTTClient_def)
qed

end
