(* ===== verification/Spec2Isabelle.thy ===== *)
theory Spec2Isabelle
  imports SampleGateway Certificates
begin

text \<open>
  The edge gateway (module \<open>github.com/team/edge-gateway\<close>): a Go process that takes
  commands from the cloud over MQTT, carries them to devices over TCP, stores the answers in
  an SQLite buffer that is drained over HTTP, and publishes Prometheus metrics and alerts.

  The parts and how they interact.  \<open>cmd/gateway/main.go\<close> reads the configuration, loads the
  device registry, opens the buffer and starts the engine, the publisher and the HTTP
  services.  A message from the cloud reaches \<open>Engine.DispatchCommand\<close>, which puts it on a
  bounded queue and drops the newest one when the queue is full.  A pool of workers takes
  commands off the queue: \<open>processCommand\<close> looks the device up in the registry, gets the
  adapter of its protocol, sends the command and its follow-ups with retries through the TCP
  communicator, records the outcome in the registry and the metrics, stores the telemetry in
  the buffer and offers it to the cloud.  A second path puts the telemetry the registry
  itself carries on a channel that another goroutine empties into the buffer.

  The theories and the code they model (under \<open>src/\<close>):
  \<^item> \<open>Prelude\<close>, \<open>GoStrings\<close>, \<open>GoValues\<close>, \<open>GoChannel\<close>: what the source uses of
    Go.  Panics as \<open>outcome\<close>, maps as association lists in insertion order, \<open>strings\<close>
    and \<open>strconv\<close>, JSON values, 64-bit floats as far as they are compared, channels with
    \<open>select\<close>.
  \<^item> \<open>CoreErrors\<close>: \<open>internal/core/errors/errors.go\<close>, with wrapping by \<open>%w\<close>,
    \<open>errors.Is\<close> and \<open>os.IsTimeout\<close>.
  \<^item> \<open>Domain\<close>: \<open>internal/core/domain/models.go\<close> and \<open>internal/core/ports/ports.go\<close>;
    each port is a record of operations over the state of its implementation.
  \<^item> \<open>PJLinkAdapter\<close>, \<open>AdapterFactory\<close>: \<open>internal/adapters/protocols/\<close>.
  \<^item> \<open>Registry\<close>: \<open>internal/adapters/registry/static_json_registry.go\<close>.
  \<^item> \<open>Southbound\<close>, \<open>TelemetryPoller\<close>: \<open>internal/adapters/southbound/tcp_communicator.go\<close>,
    commands and the telemetry poller.
  \<^item> \<open>SQLiteBuffer\<close>: \<open>internal/buffer/sqlite_buffer.go\<close>, with a fault at each call of
    the driver.
  \<^item> \<open>Router\<close>, \<open>RouterRetry\<close>, \<open>RouterProcess\<close>, \<open>RouterSystem\<close>:
    \<open>internal/core/router/engine.go\<close>; the retry loops, the processing of one command over
    any registry and buffer that keep their laws, and the queue with workers that process a
    command in one step.
  \<^item> \<open>RouterSteps\<close>, \<open>RouterInterleaving\<close>, \<open>RouterConcurrent\<close>: the same file, one action at a
    time.  \<open>point_step\<close> is one access of a worker to something shared; \<open>pool_step\<close> and
    \<open>other_step\<close> interleave the workers with each other, with dispatches and with the
    goroutines that share the registry and the buffer.
  \<^item> \<open>Rules\<close>: \<open>internal/core/rules/engine.go\<close>.
  \<^item> \<open>AzureCloud\<close>: \<open>internal/adapters/cloud/azure_mqtt.go\<close>.
  \<^item> \<open>Publisher\<close>, \<open>Observability\<close>: \<open>internal/observability/\<close>.
  \<^item> \<open>Config\<close>: \<open>internal/config/config.go\<close>.
  \<^item> \<open>Gateway\<close>, \<open>GatewaySystem\<close>: \<open>cmd/gateway/main.go\<close>; start-up and the pass-through of
    telemetry, and the lemmas on the composed gateway.
  \<^item> \<open>GatewayConcurrent\<close>, \<open>GatewayLife\<close>: the rest of \<open>main\<close>.  The engine that \<open>main\<close> builds
    meets the interface of the interleaved router; \<open>gateway_step\<close> is one step of the process
    after start-up, of \<open>main\<close> (connect, subscribe, shut down), of a worker, of the MQTT client
    (a connection comes or goes, a message is received and later handled), of the registry's poller,
    of another goroutine, or a panic of one; after a panic there is no step.  It refines the
    interleaved router, whose invariants so hold for the whole life of a started gateway.
  \<^item> \<open>Certificates\<close>: \<open>generate_certs.go\<close>.
  \<^item> \<open>SampleGateway\<close>: a concrete gateway for the instances.

  Functions keep the names of the source.  A method takes the state of its receiver and
  returns it updated.  Names that Go reuses are told apart: \<open>RegisterDevice\<close>,
  \<open>UpdateDevice\<close>, \<open>RemoveDevice\<close> are the registry's \<open>Register\<close>, \<open>Update\<close>,
  \<open>Remove\<close>; \<open>RegisterAdapter\<close> is the factory's \<open>Register\<close>; \<open>CloseBuffer\<close> is the
  buffer's \<open>Close\<close>; \<open>StartEngine\<close>, \<open>StartPublisher\<close>, \<open>serve_health\<close> are the
  \<open>Start\<close> methods.

  What is shown. Registry: well-formedness under every operation and reload, all-or-nothing
  loading, updates that touch runtime fields only. Buffer: under a clock that goes forward it is a
  queue whose fetch empties it, fetches that fail lose nothing, exact cleanup. Southbound: the
  frame reader against its specification, the exchange with a projector, no payload sent twice.
  Router: the retry loop equals a specification on the sequence of results, bounds on attempts and
  pauses, processing of one command (registry, buffer, metrics). Concurrency: run alone, the steps
  of a command compute \<open>processCommand\<close>; interleaved, the pool refines the one with
  atomic commands, every accepted command is queued, in progress or finished exactly once and in
  the end finished, workers never change the configuration of a device, no outcome recorded in the
  registry is lost, and nothing gets into the buffer but what commands and pass-through store.
  Rules and publisher: exactly the breached rules raise alerts, and the published series are those
  with a value. The composed gateway: a status query end to end, start-up, pass-through, and from
  start-up on the invariant of the process, everything that can make it panic, the order of the
  shutdown and that it always comes to its end, and how long the registry is reloaded. Several properties fix behaviour a reader may not expect: a silent device is classified
  as a network error, not as a time-out; the shutdown abandons queued commands; a command that
  arrives while \<open>Stop\<close> waits kills the process; a command can overtake another; a
  clock that steps back makes a fetch deliver items again; the registry's poller ends with the
  initialisation context, unless its loads hang; of several command callbacks only the last is served.

  Interfaces. Locales state what a component promises to its clients:
  \<open>protocol_adapter\<close>, \<open>device_registry\<close>,
  \<open>telemetry_buffer\<close>, \<open>cloud_client\<close>; \<open>router_registry\<close> and
  \<open>router_buffer\<close> extend two of them by the engine that uses them, and hold the
  lemmas on \<open>processCommand\<close>; \<open>router_ports\<close> puts both together with
  what a reload and a cleanup may do, and holds the invariants of the interleaved router.
  \<open>invariant_system\<close> (Prelude) is the rule that an invariant holds in all reachable
  states. Each is interpreted on the operations of the modelled components.

  Parameters and bounds.  Loops terminate by structure or by a measure; no fuel is used.  The
  retry loops run from 1 to \<open>MaxAttempts\<close>; durations are 64-bit words, and the doubling of the
  pause wraps as in Go.  A frame has at most 1024 bytes and a raw response at most 1 MiB; the
  queue has the configured capacity and the telemetry channel 100 entries.  What is not code
  of the program is an argument of the definitions: the MQTT library (\<open>mqtt_lib\<close>, with what it
  documents of subscriptions as the hypothesis \<open>mqtt_lib_ok\<close>), the Prometheus registry (\<open>prom_lib\<close>), the failures and the row order of the database
  (\<open>sqlite_env\<close>, the order function of a fetch), the network (the results of dials, reads
  and writes), clocks (the poller has its own, with the times its loads take), the JSON decoder and the unmarshalling of the configuration, and
  \<open>Duration.Seconds\<close>.

  Not modelled: log output, the TLS settings of \<open>Connect\<close> beyond the failure to load the key
  pair, cryptography, the HTTP listeners below the handlers, patterns of the HTTP mux that are not
  plain paths (\<open>plain_route\<close>), the wire formats of SQLite, MQTT and Prometheus.  Each operation of the registry, the
  buffer and the adapter factory is atomic, as their locks make it; the unlocked accesses to the
  flag and the callbacks of the MQTT client are taken as atomic too.  Fairness is not modelled:
  liveness is stated as the absence of infinite and of stuck runs.  The publisher's cycles and the
  rules are modelled in their own theories, and in \<open>gateway_step\<close> only by what they publish.
\<close>

section \<open>Properties\<close>

text \<open>C1: a status query, end to end.  For a registered PJLink projector that answers both
  queries, on a gateway with a buffer that does not fail, one \<open>GET_STATUS\<close> command dials
  the device twice, writes the power query and then the lamp query, each once; the device is
  then online in the registry, and the buffer holds one more item, the telemetry of that
  command with the power state, the lamp hours and the lamp status that the device reported.\<close>

theorem get_status_end_to_end:
  assumes "map_order (gl_map_order lib)" and "sql_order (gl_sql_order lib)" and "cfg_SQLiteDBPath cfg \<noteq> []"
    and "1 \<le> MaxAttempts (set_retryPolicy st)" and "reg_ok (w_reg w)" and "healthy (w_buf w)" and "db_ok (w_buf w)"
    and "GetDevice (w_reg w) (cmd_DeviceID cmd) = Inr dev" and "dev_Protocol dev = ProtocolPJLink"
    and "cmd_CommandName cmd = CmdGetStatus"
    and "net_dials (w_net w) = Inr c1 # Inr c2 # ds"
    and "answers c1 (''%1POWR='' @ pv)" and "pv \<in> {''0'', ''1'', ''2'', ''3''}"
    and "answers c2 (''%1LAMP='' @ show_nat h @ '' '' @ lv)" and "lv \<in> {''0'', ''1''}" and "int h < 2 ^ 63"
  shows "let w' = processCommand (gateway_engine lib cfg st) env cmd w; t = env_clock env
    in (\<exists>d1 d2. w_net w' = \<lparr>net_dials = ds, net_log = net_log (w_net w) @
            [(dev_address dev, Some d1), (dev_address dev, Some d2)]\<rparr> \<and>
          con_written d1 = con_written c1 @ [''%1POWR ?'' @ [CR]] \<and>
          con_written d2 = con_written c2 @ [''%1LAMP ?'' @ [CR]]) \<and>
       GetDevice (w_reg w') (cmd_DeviceID cmd) =
         Inr (dev\<lparr>dev_Status := StatusOnline, dev_LastSeen := t (w_now w + 4)\<rparr>) \<and>
       db_contents (w_buf w') = db_contents (w_buf w) @
         [\<lparr>item_Timestamp = t (w_now w + 6), item_DataType = ''telemetry'', item_Payload = telemetry_json
             \<lparr>tel_CorrelationID = cmd_CorrelationID cmd, tel_DeviceID = dev_ID dev,
              tel_Timestamp = t (w_now w + 5), tel_Data = status_data pv h lv\<rparr>\<rparr>]"
proof -
  let ?e = "gateway_engine lib cfg st" and ?w0 = "w\<lparr>w_now := Suc (w_now w)\<rparr>"
  obtain d1 d2 where d: "executeCommandChain ?e env dev NewPJLinkAdapter cmd (''%1POWR ?'' @ [CR]) ?w0 =
      (?w0\<lparr>w_now := w_now ?w0 + 2, w_net := \<lparr>net_dials = ds, net_log = net_log (w_net ?w0) @
          [(dev_address dev, Some d1), (dev_address dev, Some d2)]\<rparr>\<rparr>, status_data pv h lv, None)"
    "con_written d1 = con_written c1 @ [''%1POWR ?'' @ [CR]]"
    "con_written d2 = con_written c2 @ [''%1LAMP ?'' @ [CR]]"
    using status_chain [OF assms(4,9,10) _ assms(12-16), of ?w0 ds lib cfg env] assms(11) by auto
  let ?w1 = "w\<lparr>w_now := w_now w + 3, w_net := \<lparr>net_dials = ds, net_log = net_log (w_net w) @
      [(dev_address dev, Some d1), (dev_address dev, Some d2)]\<rparr>\<rparr>"
  have r: "routed ?e env cmd w = Some (dev, ?w1, status_data pv h lv, None)"
    using gateway_status_routed [OF assms(8-10), of lib cfg st env] d(1) by simp
  have id: "dev_ID dev = cmd_DeviceID cmd"
    using reg_ok_get [OF assms(5)] assms(8) by (auto simp: GetDevice_def split: option.splits)
  have reg: "GetDevice (w_reg (processCommand ?e env cmd w)) (cmd_DeviceID cmd) =
      Inr (dev\<lparr>dev_Status := StatusOnline, dev_LastSeen := env_clock env (w_now w + 4)\<rparr>)"
    using router_registry.process_view [OF gateway_router_registry [OF assms(1)], of w cfg st env cmd] assms(5) r
    by (simp add: reg_view_def GetDevice_def fun_eq_iff numeral_eq_Suc)
  have fin: "json_finite (telemetry_json (telemetry_for env cmd dev (status_data pv h lv) k))" for k
    by (simp add: json_finite_telemetry telemetry_for_def status_data_def)
  have buf: "db_contents (w_buf (processCommand ?e env cmd w)) = db_contents (w_buf w) @
      [\<lparr>item_Timestamp = env_clock env (w_now w + 6), item_DataType = ''telemetry'', item_Payload =
         telemetry_json (telemetry_for env cmd dev (status_data pv h lv) (w_now w + 5))\<rparr>]"
    using AddData_healthy [OF assms(6) fin [of "w_now w + 5"], of "env_clock env (w_now w + 6)" "''telemetry''"] r assms(3)
    by (auto simp: process_buf gateway_buffer_def db_contents_def numeral_eq_Suc)
  show ?thesis using reg buf d(2,3) r
    by (simp add: Let_def process_net telemetry_for_def)
qed

lemma get_status_end_to_end_witness:
  "GetDevice (w_reg (processCommand (gateway_engine sample_lib sample_config default_settings) calm
      sample_command (sample_world status_dials))) ''Projector01'' =
     Inr (projector\<lparr>dev_Status := ''ONLINE'', dev_LastSeen := 4\<rparr>) \<and>
   db_contents (w_buf (processCommand (gateway_engine sample_lib sample_config default_settings) calm
      sample_command (sample_world status_dials))) =
     [\<lparr>item_Timestamp = 6, item_DataType = ''telemetry'', item_Payload = telemetry_json
        \<lparr>tel_CorrelationID = ''c-1'', tel_DeviceID = ''Projector01'', tel_Timestamp = 5,
         tel_Data = [(''powerState'', JStr ''ON''), (''lamp_hours'', JInt 42), (''lamp_status'', JStr ''ON'')]\<rparr>\<rparr>]"
proof -
  have "answers (answering ''%1POWR=1'') (''%1POWR='' @ ''1'')" using answers_answering by simp
  moreover have "answers (answering ''%1LAMP=42 1'') (''%1LAMP='' @ show_nat 42 @ '' '' @ ''1'')"
    using answers_answering by (simp add: show_42)
  ultimately show ?thesis
    using get_status_end_to_end [of sample_lib sample_config default_settings "sample_world status_dials" sample_command
        projector "answering ''%1POWR=1''" "answering ''%1LAMP=42 1''" "[]" "''1''" 42 "''1''" calm]
    by (simp add: map_order_id sql_order_sort status_dials_def Let_def status_data_def power_state_def
        StatusOnline_def)
qed

text \<open>C5: a command changes the registry in one place only: if it was routed, the device it
  names is online when its chain succeeded and offline when it failed, last seen at the time
  of the update; every other device, and everything when the command was rejected, is as before.\<close>

theorem command_updates_status:
  assumes "map_order (gl_map_order lib)" and "reg_ok (w_reg w)"
  shows "reg_view (w_reg (processCommand (gateway_engine lib cfg st) env cmd w)) =
    (case routed (gateway_engine lib cfg st) env cmd w of
       None \<Rightarrow> reg_view (w_reg w)
     | Some (dev, w1, data, err) \<Rightarrow> (reg_view (w_reg w))(cmd_DeviceID cmd \<mapsto>
         dev\<lparr>dev_Status := if err = None then StatusOnline else StatusOffline,
             dev_LastSeen := env_clock env (Suc (w_now w1))\<rparr>))"
  by (rule router_registry.process_view [OF gateway_router_registry [OF assms(1)] assms(2)])

lemma command_updates_status_witness:
  "reg_view (w_reg (processCommand (gateway_engine sample_lib sample_config default_settings) calm
      sample_command (sample_world status_dials))) ''Projector01'' =
     Some (projector\<lparr>dev_Status := ''ONLINE'', dev_LastSeen := 4\<rparr>)"
  using sample_routed command_updates_status [of sample_lib "sample_world status_dials" sample_config default_settings
      calm sample_command]
  by (auto simp: map_order_id StatusOnline_def)

text \<open>No sequence of commands, whatever devices, network and cloud do, changes the core
  configuration (address, port, protocol, names, capabilities) of a device, adds one or
  removes one.\<close>

lemma commands_keep_config:
  assumes "map_order (gl_map_order lib)" and "reg_ok (w_reg w)"
  shows "map_option core_config (reg_view (w_reg (fold (processCommand (gateway_engine lib cfg st) env) cmds w)) did) =
    map_option core_config (reg_view (w_reg w) did)"
  using router_registry.process_all_core [OF gateway_router_registry [OF assms(1)] assms(2)] by blast

text \<open>C6: from start-up to the end of the process, whatever the interleaving of commands with each other,
  with messages, reloads, fetches and the shutdown, no step but a reload of the registry changes the
  core configuration of a device (address, port, protocol, names, capabilities), adds a device
  or brings back one that was removed, although a worker writes back a copy it read before.\<close>

theorem only_reloads_change_config:
  assumes "map_order (gl_map_order lib)" and "sql_order (gl_sql_order lib)" and "cfg_SQLiteDBPath (gw_config gw) \<noteq> []"
    and "gateway_main lib env = Ret (Started gw)"
    and "\<And>rows seq. se_Open (ge_sqlite env) = Inr (rows, seq) \<Longrightarrow>
      sorted_wrt (<) (map row_id rows) \<and> list_all (\<lambda>r. row_id r \<le> seq) rows"
    and "reach (\<lambda>h. h = run_gateway gw) (gateway_step lib (gw_config gw) (gw_settings gw) env' envs) g"
    and "gateway_step lib (gw_config gw) (gw_settings gw) env' envs g h"
  shows "registry_reload envs (w_reg (rn_world g)) (w_reg (rn_world h)) \<or>
    map_option core_config (reg_view (w_reg (rn_world h)) did) = map_option core_config (reg_view (w_reg (rn_world g)) did)"
proof -
  note ports = gateway_router_ports [OF assms(1-3), of "gw_settings gw" envs "minutes (cfg_RetentionWindowMinutes (gw_config gw))"]
  note run = gateway_refines_router [OF assms(6), unfolded run_gateway_pool]
  have "reg_ok (w_reg (rn_world g))"
    using router_ports.ports_inv_reach [OF ports run started_world [OF assms(4,5)]]
    by (simp add: router_ports.ports_inv_def [OF ports] Let_def)
  with gateway_step_reg [OF assms(7)] router_ports.worker_keeps_core [OF ports] show ?thesis by metis
qed

lemma only_reloads_change_config_witness:
  "\<exists>gw. gateway_main sample_lib sample_start = Ret (Started gw) \<and>
     map_option core_config (reg_view (w_reg (rn_world (connecting gw))) ''Projector01'') =
     map_option core_config (reg_view (w_reg (rn_world (run_gateway gw))) ''Projector01'')"
proof -
  obtain gw where gw: "gateway_main sample_lib sample_start = Ret (Started gw)" "gw_config gw = sample_config"
    using sample_starts by blast
  from only_reloads_change_config [where env' = calm and envs = "{}" and did = "''Projector01''",
      OF _ _ _ gw(1) _ sample_reach connecting_step] gw
  show ?thesis by (intro exI [of _ gw]) (simp add: map_order_id sql_order_sort sample_start_def registry_reload_def)
qed

text \<open>C18: from start-up to the end of the process a command stores at most one item, its own telemetry,
  and nothing else enters the buffer but the telemetry passed through: every item that is in the
  buffer or was fetched was in the database before, was stored by an accepted command, or was
  passed through, whatever calls of the database fail.\<close>

theorem items_of_accepted_commands:
  assumes "map_order (gl_map_order lib)" and "sql_order (gl_sql_order lib)" and "cfg_SQLiteDBPath (gw_config gw) \<noteq> []"
    and "gateway_main lib env = Ret (Started gw)"
    and "\<And>rows seq. se_Open (ge_sqlite env) = Inr (rows, seq) \<Longrightarrow>
      sorted_wrt (<) (map row_id rows) \<and> list_all (\<lambda>r. row_id r \<le> seq) rows"
    and "reach (\<lambda>h. h = run_gateway gw) (gateway_step lib (gw_config gw) (gw_settings gw) env' envs) g"
  shows "mset (map fst (cc_stored (rn_pool g))) \<subseteq># mset (sy_accepted (rn_system g)) \<and>
    list_all (\<lambda>(cmd, i). \<exists>now t. i = telemetry_item now t \<and>
      tel_CorrelationID t = cmd_CorrelationID cmd \<and> tel_DeviceID t = cmd_DeviceID cmd) (cc_stored (rn_pool g)) \<and>
    set (db_contents (w_buf (rn_world g))) \<union> set (cc_delivered (rn_pool g)) \<subseteq>
      set (db_contents (w_buf (gw_world gw))) \<union> snd ` set (cc_stored (rn_pool g)) \<union> set (cc_passed (rn_pool g))"
proof -
  note ports = gateway_router_ports [OF assms(1-3), of "gw_settings gw" envs "minutes (cfg_RetentionWindowMinutes (gw_config gw))"]
  note run = gateway_refines_router [OF assms(6), unfolded run_gateway_pool]
  show ?thesis
    using router_ports.ports_inv_reach [OF ports run started_world [OF assms(4,5)]]
      router_ports.stored_accepted [OF ports run started_world [OF assms(4,5)]]
    by (simp add: router_ports.ports_inv_def [OF ports] Let_def list_all_iff item_of_def)
qed

lemma items_of_accepted_commands_witness:
  "\<exists>gw. gateway_main sample_lib sample_start = Ret (Started gw) \<and>
     set (db_contents (w_buf (rn_world (connecting gw)))) \<subseteq> set (db_contents (w_buf (gw_world gw))) \<union>
       snd ` set (cc_stored (rn_pool (connecting gw))) \<union> set (cc_passed (rn_pool (connecting gw)))"
proof -
  obtain gw where gw: "gateway_main sample_lib sample_start = Ret (Started gw)" "gw_config gw = sample_config"
    using sample_starts by blast
  from items_of_accepted_commands [where env' = calm and envs = "{}",
      OF _ _ _ gw(1) _ reach_step [OF sample_reach connecting_step]] gw
  show ?thesis by (intro exI [of _ gw]) (simp add: map_order_id sql_order_sort sample_start_def)
qed

text \<open>C17: the last outcome wins.  When the registry is not reloaded (a file, or no load that
  returns), then from start-up on, in every interleaving, it is the one loaded at start-up with, for each
  device, the status and the time of the outcome recorded last for it: no update is lost and none is
  half applied.\<close>

theorem registry_shows_last_outcomes:
  assumes "map_order (gl_map_order lib)" and "sql_order (gl_sql_order lib)" and "cfg_SQLiteDBPath (gw_config gw) \<noteq> []"
    and "gateway_main lib env = Ret (Started gw)"
    and "\<And>rows seq. se_Open (ge_sqlite env) = Inr (rows, seq) \<Longrightarrow>
      sorted_wrt (<) (map row_id rows) \<and> list_all (\<lambda>r. row_id r \<le> seq) rows"
    and "reach (\<lambda>h. h = run_gateway gw)
      (gateway_step lib (gw_config gw) (gw_settings gw) env' (envs :: 'body load_env set)) g"
    and "\<not> is_url (cfg_RegistryPath (gw_config gw)) \<or> envs = {}"
  shows "reg_view (w_reg (rn_world g)) = with_outcomes (cc_recorded (rn_pool g)) (reg_view (w_reg (gw_world gw)))"
proof -
  have no_poller: "\<not> is_url (cfg_RegistryPath (gw_config gw)) \<Longrightarrow> rn_poller (run_gateway gw) = None"
    using started_parts(3) [OF assms(4)] by (simp add: run_gateway_def)
  have "reach (\<lambda>h. h = run_gateway gw)
      (gateway_step lib (gw_config gw) (gw_settings gw) env' ({} :: 'body load_env set)) g"
    using assms(6,7) file_reach [OF no_poller assms(6)] by auto
  note run = gateway_refines_router [OF this, unfolded run_gateway_pool]
  note ports = gateway_router_ports [OF assms(1-3), of "gw_settings gw" "{}"
      "minutes (cfg_RetentionWindowMinutes (gw_config gw))"]
  show ?thesis
    using router_ports.registry_history_reach [OF ports run started_world(1) [OF assms(4,5)]]
    by (simp add: router_ports.registry_history_def [OF ports] registry_reload_def)
qed

lemma registry_shows_last_outcomes_witness:
  "\<exists>gw. gateway_main sample_lib sample_start = Ret (Started gw) \<and>
     reg_view (w_reg (rn_world (connecting gw))) =
       with_outcomes (cc_recorded (rn_pool (connecting gw))) (reg_view (w_reg (gw_world gw)))"
proof -
  obtain gw where gw: "gateway_main sample_lib sample_start = Ret (Started gw)" "gw_config gw = sample_config"
    using sample_starts by blast
  from registry_shows_last_outcomes [where env' = calm and envs = "{}",
      OF _ _ _ gw(1) _ reach_step [OF sample_reach connecting_step]] gw
  show ?thesis by (intro exI [of _ gw]) (simp add: map_order_id sql_order_sort sample_start_def)
qed

text \<open>C21: a command for an unknown device, for one whose protocol has no adapter, or with a
  name the adapter does not know, does nothing: no message, no status, no metric, no buffered
  item, no publication; it reads the clock once.  So the counter \<open>gateway_commands_dropped_total\<close>,
  which by its help text counts commands dropped by \<open>queue saturation or failures\<close>, does not
  count it.\<close>

theorem rejected_command_has_no_effect:
  assumes "isl (GetDevice (w_reg w) (cmd_DeviceID cmd)) \<or>
    dev_Protocol (projr (GetDevice (w_reg w) (cmd_DeviceID cmd))) \<noteq> ProtocolPJLink \<or>
    cmd_CommandName cmd \<notin> {CmdTurnOn, CmdTurnOff, CmdGetStatus}"
  shows "processCommand (gateway_engine lib cfg st) env cmd w = w\<lparr>w_now := Suc (w_now w)\<rparr>"
proof -
  have "routed (gateway_engine lib cfg st) env cmd w = None"
    using assms gateway_rejects [of "gl_map_order lib" w cmd _ lib cfg st env]
    by (cases "GetDevice (w_reg w) (cmd_DeviceID cmd)") auto
  then show ?thesis by (simp add: processCommand_routed)
qed

lemma rejected_command_witness:
  "processCommand (gateway_engine sample_lib sample_config default_settings) calm
     (sample_command\<lparr>cmd_CommandName := CmdReboot\<rparr>) (sample_world []) = (sample_world [])\<lparr>w_now := 1\<rparr>"
  using rejected_command_has_no_effect [of "sample_world []" "sample_command\<lparr>cmd_CommandName := CmdReboot\<rparr>"]
  by (simp add: consts_simps)

text \<open>A command stores at most one item, only when its chain succeeded, and then its own
  telemetry, whatever the driver of the database does.\<close>

lemma at_most_one_item:
  assumes "sql_order (gl_sql_order lib)" and "cfg_SQLiteDBPath cfg \<noteq> []" and "db_ok (w_buf w)"
  shows "db_contents (w_buf (processCommand (gateway_engine lib cfg st) env cmd w)) = db_contents (w_buf w) \<or>
    (\<exists>dev w1 data. routed (gateway_engine lib cfg st) env cmd w = Some (dev, w1, data, None) \<and>
       db_contents (w_buf (processCommand (gateway_engine lib cfg st) env cmd w)) = db_contents (w_buf w) @
         [\<lparr>item_Timestamp = env_clock env (w_now w1 + 3), item_DataType = ''telemetry'',
           item_Payload = telemetry_json (telemetry_for env cmd dev data (w_now w1 + 2))\<rparr>])"
  by (rule router_buffer.process_contents [OF gateway_router_buffer [OF assms(1,2)] assms(3)])

text \<open>C20: without a connection to the cloud a successful command is not lost.  With a buffer
  configured, a database that does not fail and no cancellation, its telemetry is in the buffer;
  all publish attempts that the policy allows are made, as their doubling pauses show, and all fail
  without touching the client.\<close>

theorem offline_cloud_still_buffers:
  assumes "cfg_SQLiteDBPath cfg \<noteq> []" and "healthy (w_buf w)" and "uninterrupted env"
    and "\<not> IsConnected (gl_mqtt lib) (w_cloud w)"
    and "routed (gateway_engine lib cfg st) env cmd w = Some (dev, w1, data, None)"
  shows "let w' = processCommand (gateway_engine lib cfg st) env cmd w
    in db_contents (w_buf w') = db_contents (w_buf w) @
        [\<lparr>item_Timestamp = env_clock env (w_now w1 + 3), item_DataType = ''telemetry'',
          item_Payload = telemetry_json (telemetry_for env cmd dev data (w_now w1 + 2))\<rparr>] \<and>
      w_cloud w' = w_cloud w \<and>
      w_waits w' = w_waits w1 @
        backoffs (nat (MaxAttempts (set_retryPolicy st)) - 1) (BaseBackoff (set_retryPolicy st))"
proof -
  let ?t = "telemetry_for env cmd dev data (w_now w1 + 2)"
  let ?e = "gateway_engine lib cfg st"
  have "publish_tries (eng_cloud ?e) ?t (nat (MaxAttempts (eng_retryPolicy ?e))) (w_cloud w) =
      (w_cloud w, nat (MaxAttempts (set_retryPolicy st)), False)"
    using azure.tries_offline [of "gl_mqtt lib" "w_cloud w"] assms(4) by simp
  note tries = process_publication [OF assms(3,5) this]
  have pub: "w_cloud (processCommand (gateway_engine lib cfg st) env cmd w) = w_cloud w"
    "w_waits (processCommand (gateway_engine lib cfg st) env cmd w) = w_waits w1 @
       backoffs (nat (MaxAttempts (set_retryPolicy st)) - 1) (BaseBackoff (set_retryPolicy st))"
    using tries by simp_all
  have "data_ok data" using gateway_routed [OF assms(5)] by simp
  then have "json_finite (telemetry_json ?t)"
    by (simp add: json_finite_telemetry telemetry_for_def data_ok_def)
  from AddData_healthy [OF assms(2) this, of "env_clock env (w_now w1 + 3)" "''telemetry''"] assms(1,5) pub
  show ?thesis by (auto simp: process_buf gateway_buffer_def db_contents_def Let_def)
qed

lemma offline_cloud_witness:
  "db_contents (w_buf (processCommand (gateway_engine sample_lib sample_config default_settings) calm
        sample_command (sample_world status_dials))) =
       [\<lparr>item_Timestamp = 6, item_DataType = ''telemetry'', item_Payload = telemetry_json
          (telemetry_for calm sample_command projector (status_data ''1'' 42 ''1'') 5)\<rparr>] \<and>
     w_waits (processCommand (gateway_engine sample_lib sample_config default_settings) calm
        sample_command (sample_world status_dials)) = [millis 200, millis 200 * 2]"
proof -
  obtain d1 d2 where r: "routed (gateway_engine sample_lib sample_config default_settings) calm sample_command
      (sample_world status_dials) =
    Some (projector, (sample_world status_dials)\<lparr>w_now := 3, w_net := \<lparr>net_dials = [],
        net_log = [(dev_address projector, Some d1), (dev_address projector, Some d2)]\<rparr>\<rparr>,
      status_data ''1'' 42 ''1'', None)" using sample_routed by blast
  have "w_waits (sample_world ds) = []" for ds by (simp add: sample_world_def)
  moreover have "backoffs (nat 3 - 1) b = [b, b * 2]" for b by (simp add: numeral_eq_Suc)
  moreover have "BaseBackoff (set_retryPolicy default_settings) = millis 200" by (simp add: default_settings_def)
  ultimately show ?thesis using offline_cloud_still_buffers [OF _ _ _ _ r] by (simp add: Let_def)
qed

text \<open>C25: if \<open>main\<close> gets past start-up, the host name is set, the registry holds only valid
  devices under their own IDs, the table of the buffer is consistent (if the stored one was), the
  cloud is not yet connected, and the engine has the queue, the workers and the retries that
  the configuration says.\<close>

theorem started_gateway_is_consistent:
  assumes "gateway_main lib env = Ret (Started gw)"
    and "\<And>rows seq. se_Open (ge_sqlite env) = Inr (rows, seq) \<Longrightarrow>
      sorted_wrt (<) (map row_id rows) \<and> list_all (\<lambda>r. row_id r \<le> seq) rows"
  shows "cfg_IotHubHostname (gw_config gw) \<noteq> [] \<and> reg_ok (w_reg (gw_world gw)) \<and> db_ok (w_buf (gw_world gw)) \<and>
    \<not> IsConnected (gl_mqtt lib) (w_cloud (gw_world gw)) \<and>
    0 \<le> cfg_CommandQueueSize (gw_config gw) \<and>
    gw_engine gw = gateway_engine lib (gw_config gw) (gw_settings gw) \<and>
    StartEngine (gw_settings gw) (gw_world gw) =
      start_system (nat (cfg_CommandQueueSize (gw_config gw))) (nat (cfg_WorkerPoolSize (gw_config gw))) (gw_world gw) \<and>
    MaxAttempts (eng_retryPolicy (gw_engine gw)) = cfg_RetryMaxAttempts (gw_config gw)"
  using assms(1)
proof (rule gateway_main_Started)
  fix cfg r db met st
  assume "LoadConfig (ge_unmarshal env) = Inr cfg" and "NewEngine (gateway_options cfg) = Ret st"
    and "gw = gateway_assemble lib cfg st (if is_url (cfg_RegistryPath cfg)
      then Some (start_poller (ge_init env + init_timeout) (ge_loaded env)) else None) r (ge_net env) db met"
  with started_world [OF assms] LoadConfig_host show ?thesis
    by (auto simp: gateway_assemble_def NewEngine_gateway StartEngine_def make_chan_def split: if_splits)
qed

lemma started_gateway_witness:
  "\<exists>g. gateway_main sample_lib sample_start = Ret (Started g) \<and> reg_ok (w_reg (gw_world g)) \<and>
     cfg_IotHubHostname (gw_config g) \<noteq> []"
proof -
  obtain g where g: "gateway_main sample_lib sample_start = Ret (Started g)" using sample_starts by blast
  from started_gateway_is_consistent [OF this] g show ?thesis by (auto simp: sample_start_def)
qed

text \<open>C23: the pass-through of registry telemetry to the buffer.  In every interleaving of its two
  goroutines, the buffer's turns coming between any two offers of a tick, with any registry
  contents, cancellations and driver faults, nothing panics, the channel stays open and within its
  100 entries, and every item that gets into the buffer is the telemetry of a device listed at some
  tick, which had telemetry then.\<close>

theorem pass_through_safe:
  assumes "sql_order (gl_sql_order lib)" and "db_ok db"
  shows "\<exists>s. pass_run (static_registry_ops (gl_map_order lib)) (Some (sqlite_buffer_ops (gl_sql_order lib))) evs
      (pass_start db) = Ret s \<and>
    length (ch_buf (ps_chan s)) \<le> 100 \<and> \<not> ch_closed (ps_chan s) \<and> db_ok (ps_buf s) \<and>
    (\<forall>i \<in> set (db_contents (ps_buf s)). i \<in> set (db_contents db) \<or>
       (\<exists>r \<in> ticked evs. \<exists>dev \<in> set (ListDevices (gl_map_order lib) r). \<exists>t. dev_Telemetry dev \<noteq> [] \<and>
          tel_DeviceID t = dev_ID dev \<and> tel_Data t = dev_Telemetry dev \<and>
          item_DataType i = ''telemetry'' \<and> item_Payload i = telemetry_json t))"
proof -
  let ?ops = "static_registry_ops (gl_map_order lib)"
  have tb: "telemetry_buffer (sqlite_buffer_ops (gl_sql_order lib)) db_ok db_contents"
    by (rule sqlite_buffer_interface [OF assms(1)])
  have "telemetry_buffer.pass_inv db_ok db_contents ?ops (ticked evs) (set (db_contents db)) (pass_start db)"
    using assms(2) by (simp add: telemetry_buffer.pass_inv_def [OF tb] pass_chan_ok_def pass_start_def make_chan_def chan_ok_def)
  from telemetry_buffer.pass_run_inv [OF tb this order_refl] obtain s where
    s: "pass_run ?ops (Some (sqlite_buffer_ops (gl_sql_order lib))) evs (pass_start db) = Ret s"
      "telemetry_buffer.pass_inv db_ok db_contents ?ops (ticked evs) (set (db_contents db)) s" by blast
  then show ?thesis
    by (intro exI [of _ s])
      (fastforce simp: telemetry_buffer.pass_inv_def [OF tb] pass_chan_ok_def chan_ok_def vdr_known_def from_device_def)
qed

lemma pass_through_witness:
  "\<exists>s. pass_run (static_registry_ops (\<lambda>xs. xs)) (Some (sqlite_buffer_ops (sort_key row_timestamp)))
      [VdrTick (sample_registry\<lparr>reg_devices := [(''Projector01'', projector\<lparr>dev_Telemetry := [(''t'', JInt 1)]\<rparr>)]\<rparr>),
       VdrOffer False False 3 4, BufferTurn 5] (pass_start empty_db) = Ret s \<and>
     map item_DataType (db_contents (ps_buf s)) = [''telemetry''] \<and> \<not> ch_closed (ps_chan s)"
proof -
  let ?r = "sample_registry\<lparr>reg_devices := [(''Projector01'', projector\<lparr>dev_Telemetry := [(''t'', JInt 1)]\<rparr>)]\<rparr>"
  let ?run = "pass_run (static_registry_ops (\<lambda>xs. xs)) (Some (sqlite_buffer_ops (sort_key row_timestamp)))
      [VdrTick ?r, VdrOffer False False 3 4, BufferTurn 5] (pass_start empty_db)"
  have "(case ?run of Ret s \<Rightarrow> map item_DataType (db_contents (ps_buf s)) | Panic m \<Rightarrow> []) = [''telemetry'']"
    by code_simp
  with pass_through_safe [of sample_lib empty_db "[VdrTick ?r, VdrOffer False False 3 4, BufferTurn 5]"]
  show ?thesis by (auto simp: sql_order_sort simp del: pass_run.simps pass_step.simps)
qed

text \<open>C4: the life of a started gateway.  In every interleaving of \<open>main\<close> with the workers, the
  MQTT client and the other goroutines: liveness answers 200 up to the signal and 503 from then on;
  the database is closed only after the queue was closed and every worker has exited, and from
  then on no step changes the table, stores or delivers anything; at the end the cloud is
  disconnected.  The process panics in four ways only: in a dispatch, and then the queue was closed
  before; in the poller, and then a registry at a URL served a list with a JSON null; in the
  publisher, and then its interval is not positive; in the health server, and then the fetch path is
  that of a probe or not plain; and after a panic nothing happens.  All the time the queue and the pool
  have the sizes of the configuration.\<close>

theorem shutdown_order:
  assumes "gateway_main lib env = Ret (Started gw)"
    and "reach (\<lambda>h. h = run_gateway gw) (gateway_step lib (gw_config gw) (gw_settings gw) env' envs) g"
  shows "rsp_status (handle_live (rn_health g)) = (if rn_phase g \<in> {Starting, Connecting, Serving} then 200 else 503) \<and>
    (\<not> db_closed (w_buf (rn_world g)) \<or>
       all_exited (rn_system g) \<and> ch_closed (sy_queue (rn_system g)) \<and>
       (\<forall>h. gateway_step lib (gw_config gw) (gw_settings gw) env' envs g h \<longrightarrow>
          w_buf (rn_world h) = w_buf (rn_world g) \<and> cc_stored (rn_pool h) = cc_stored (rn_pool g) \<and>
          cc_delivered (rn_pool h) = cc_delivered (rn_pool g))) \<and>
    (\<not> sy_panicked (rn_system g) \<or> ch_closed (sy_queue (rn_system g))) \<and>
    (case rn_crash g of None \<Rightarrow> True | Some cr \<Rightarrow> crash_cause (gw_config gw) envs cr) \<and>
    (not_crashed g \<or> (\<nexists>h. gateway_step lib (gw_config gw) (gw_settings gw) env' envs g h)) \<and>
    (rn_phase g \<noteq> ShutDown \<or> \<not> IsConnected (gl_mqtt lib) (w_cloud (rn_world g))) \<and>
    int (length (ch_buf (sy_queue (rn_system g)))) \<le> max 0 (cfg_CommandQueueSize (gw_config gw)) \<and>
    length (sy_workers (rn_system g)) = nat (cfg_WorkerPoolSize (gw_config gw))"
proof -
  note inv = life_of_started [OF assms]
  have frozen: "db_closed (w_buf (rn_world g)) \<Longrightarrow>
      gateway_step lib (gw_config gw) (gw_settings gw) env' envs g h \<Longrightarrow>
      w_buf (rn_world h) = w_buf (rn_world g) \<and> cc_stored (rn_pool h) = cc_stored (rn_pool g) \<and>
      cc_delivered (rn_pool h) = cc_delivered (rn_pool g)" for h
    using closed_database_step [OF inv] by blast
  have live: "rsp_status (handle_live (rn_health g)) = (if hs_shuttingDown (rn_health g) then 503 else 200)"
    by (simp add: handle_live_def reply_def)
  have cloud: "rn_phase g = ShutDown \<Longrightarrow> \<not> IsConnected (gl_mqtt lib) (w_cloud (rn_world g))"
    using inv by (simp add: life_inv_def IsConnected_def)
  have queue: "queue_inv (nat (cfg_CommandQueueSize (gw_config gw))) (nat (cfg_WorkerPoolSize (gw_config gw))) (rn_system g)"
    using inv by (simp add: life_inv_def)
  have closed: "db_closed (w_buf (rn_world g)) \<Longrightarrow> all_exited (rn_system g) \<and> ch_closed (sy_queue (rn_system g))"
    using inv by (auto simp: life_inv_def closing_def)
  have sizes: "int (length (ch_buf (sy_queue (rn_system g)))) \<le> max 0 (cfg_CommandQueueSize (gw_config gw))"
    "length (sy_workers (rn_system g)) = nat (cfg_WorkerPoolSize (gw_config gw))"
    "sy_panicked (rn_system g) \<Longrightarrow> ch_closed (sy_queue (rn_system g))"
    using queue by (auto simp: queue_inv_def chan_ok_def)
  have shutting: "hs_shuttingDown (rn_health g) = (rn_phase g \<notin> {Starting, Connecting, Serving})"
    using inv by (simp add: life_inv_def)
  have crash: "case rn_crash g of None \<Rightarrow> True | Some cr \<Rightarrow> crash_cause (gw_config gw) envs cr"
    using crash_inv_reach [OF assms] by (simp add: crash_inv_def)
  have gone: "not_crashed g \<or> (\<nexists>h. gateway_step lib (gw_config gw) (gw_settings gw) env' envs g h)"
    using crash_is_final by blast
  show ?thesis unfolding live shutting using frozen closed cloud sizes by (intro conjI crash gone) auto
qed

lemma shutdown_order_witness:
  "\<exists>gw. gateway_main sample_lib sample_start = Ret (Started gw) \<and>
     rsp_status (handle_live (rn_health (run_gateway gw))) = 200 \<and> length (sy_workers (rn_system (run_gateway gw))) = 100"
proof -
  obtain gw where gw: "gateway_main sample_lib sample_start = Ret (Started gw)" "gw_config gw = sample_config"
    using sample_starts by blast
  have "reach (\<lambda>h. h = run_gateway gw) (gateway_step sample_lib (gw_config gw) (gw_settings gw) calm
      ({} :: unit load_env set)) (run_gateway gw)"
    by (rule reach_init) simp
  from shutdown_order [OF gw(1) this] gw show ?thesis
    by (intro exI [of _ gw]) (simp add: run_gateway_def sample_config_def)
qed

text \<open>C14: the shutdown always comes to its end.  From every state of a started gateway that has not
  panicked, \<open>main\<close> and the workers cannot go on forever, they can never be stuck before \<open>main\<close>
  has disconnected and returned, and so they can always get there: \<open>Stop\<close> never waits for a
  worker that does not exit, whatever the commands in progress, devices, cloud and buffer do.\<close>

theorem shutdown_completes:
  assumes "gateway_main lib env = Ret (Started gw)"
    and "reach (\<lambda>h. h = run_gateway gw) (gateway_step lib (gw_config gw) (gw_settings gw) env' envs) g"
    and "not_crashed g"
  shows "wfP (\<lambda>h g. own_step lib (gw_config gw) (gw_settings gw) env' g h) \<and>
    (\<forall>h. (own_step lib (gw_config gw) (gw_settings gw) env')\<^sup>*\<^sup>* g h \<and>
       (\<nexists>i. own_step lib (gw_config gw) (gw_settings gw) env' h i) \<longrightarrow> rn_phase h = ShutDown) \<and>
    (\<exists>h. (own_step lib (gw_config gw) (gw_settings gw) env')\<^sup>*\<^sup>* g h \<and> rn_phase h = ShutDown)"
proof -
  note inv = life_of_started [OF assms(1,2)]
  show ?thesis
    using own_step_wf own_run_stuck [OF _ inv assms(3)] own_run_ends [OF inv assms(3)] by blast
qed

lemma shutdown_completes_witness:
  "\<exists>gw h. gateway_main sample_lib sample_start = Ret (Started gw) \<and>
     (own_step sample_lib (gw_config gw) (gw_settings gw) calm)\<^sup>*\<^sup>* (run_gateway gw) h \<and> rn_phase h = ShutDown"
proof -
  obtain gw where gw: "gateway_main sample_lib sample_start = Ret (Started gw)" using sample_starts by blast
  have "reach (\<lambda>h. h = run_gateway gw) (gateway_step sample_lib (gw_config gw) (gw_settings gw) calm
      ({} :: unit load_env set)) (run_gateway gw)"
    by (rule reach_init) simp
  moreover have "not_crashed (run_gateway gw)"
    by (simp add: not_crashed_def run_gateway_def start_concurrent_def start_system_def)
  ultimately show ?thesis using shutdown_completes [OF gw] gw by blast
qed

text \<open>C37: the shutdown loses queued commands.  Because \<open>main\<close> cancels the context before it calls
  \<open>Stop\<close>, every started gateway with a queue size above 0, whose MQTT library can connect and keeps what
  it documents of subscriptions, has a run in which it connects and subscribes, a message arrives and
  its command is accepted, the shutdown goes through to the end without a panic, and the command
  is still in the queue, never processed.\<close>

theorem shutdown_abandons_commands:
  assumes "gateway_main lib env = Ret (Started gw)" and "0 < cfg_CommandQueueSize (gw_config gw)"
    and "mqtt_lib_ok (gl_mqtt lib)" and "connection_possible (gl_mqtt lib)"
  shows "\<exists>g. reach (\<lambda>h. h = run_gateway gw) (gateway_step lib (gw_config gw) (gw_settings gw) env' envs) g \<and>
    rn_phase g = ShutDown \<and> not_crashed g \<and> sy_accepted (rn_system g) = [cmd] \<and>
    ch_buf (sy_queue (rn_system g)) = [cmd] \<and> sy_finished (rn_system g) = []"
  by (rule abandoning_run [OF started_life [OF assms(1)] _ assms(3,4)]) (simp add: assms(2))

lemma shutdown_abandons_witness:
  "\<exists>gw g. gateway_main sample_lib sample_start = Ret (Started gw) \<and>
     reach (\<lambda>h. h = run_gateway gw) (gateway_step sample_lib (gw_config gw) (gw_settings gw) calm ({} :: unit load_env set)) g \<and>
     rn_phase g = ShutDown \<and> ch_buf (sy_queue (rn_system g)) = [sample_command]"
proof -
  obtain gw where gw: "gateway_main sample_lib sample_start = Ret (Started gw)" "gw_config gw = sample_config"
    using sample_starts by blast
  from shutdown_abandons_commands [OF gw(1), of calm "{} :: unit load_env set" sample_command] gw
  show ?thesis by (auto simp: sample_config_def)
qed

text \<open>C32: a late command kills the process.  Every started gateway whose MQTT library can connect
  and keeps what it documents of subscriptions has a run in which a message arrives while \<open>main\<close>
  waits in \<open>Stop\<close>, still connected and subscribed: the dispatch panics on the closed queue, the
  process takes no further step, and the buffer is never closed nor the cloud disconnected.  A dispatch
  panics in no other situation: in no run before the queue is closed.\<close>

theorem late_command_panics:
  assumes "gateway_main lib env = Ret (Started gw)"
    and "mqtt_lib_ok (gl_mqtt lib)" and "connection_possible (gl_mqtt lib)"
  shows "(\<exists>g. reach (\<lambda>h. h = run_gateway gw) (gateway_step lib (gw_config gw) (gw_settings gw) env' envs) g \<and>
      rn_phase g = StopWait \<and> subscribed lib (w_cloud (rn_world g)) \<and> sy_panicked (rn_system g) \<and>
      \<not> db_closed (w_buf (rn_world g)) \<and>
      (\<nexists>h. gateway_step lib (gw_config gw) (gw_settings gw) env' envs g h)) \<and>
    (\<forall>g. reach (\<lambda>h. h = run_gateway gw) (gateway_step lib (gw_config gw) (gw_settings gw) env' envs) g \<longrightarrow>
       sy_panicked (rn_system g) \<longrightarrow> rn_phase g \<in> {StopWait, BufferClosed, ShutDown})"
proof -
  from panicking_run [OF started_life [OF assms(1)] assms(2,3), of "gw_config gw" "gw_settings gw" env' envs] obtain g where
    g: "reach (\<lambda>h. h = run_gateway gw) (gateway_step lib (gw_config gw) (gw_settings gw) env' envs) g"
      "rn_phase g = StopWait" "subscribed lib (w_cloud (rn_world g))" "sy_panicked (rn_system g)" by blast
  have "\<not> db_closed (w_buf (rn_world g))" using life_of_started [OF assms(1) g(1)] g(2) by (simp add: life_inv_def)
  moreover have "rn_phase g' \<in> {StopWait, BufferClosed, ShutDown}"
    if "reach (\<lambda>h. h = run_gateway gw) (gateway_step lib (gw_config gw) (gw_settings gw) env' envs) g'"
      "sy_panicked (rn_system g')" for g'
    using life_of_started [OF assms(1) that(1)] that(2) by (auto simp: life_inv_def queue_inv_def closing_def)
  moreover have "\<not> not_crashed g" using g(4) by (simp add: not_crashed_def)
  ultimately show ?thesis using g crash_is_final by blast
qed

lemma late_command_panics_witness:
  "\<exists>gw g. gateway_main sample_lib sample_start = Ret (Started gw) \<and>
     reach (\<lambda>h. h = run_gateway gw) (gateway_step sample_lib (gw_config gw) (gw_settings gw) calm ({} :: unit load_env set)) g \<and>
     sy_panicked (rn_system g)"
proof -
  obtain gw where gw: "gateway_main sample_lib sample_start = Ret (Started gw)" using sample_starts by blast
  from late_command_panics [OF this, of calm "{} :: unit load_env set"] gw show ?thesis by auto
qed

text \<open>C38: \<open>main\<close> gives the registry's poller the initialisation context of ten seconds.  A
  registry in a file is never reloaded.  One at a URL is reloaded at most twice in the whole life
  of the gateway, as long as every load is done within the five seconds of the ticker, and at most once
  if the first load took any time at all; later changes at the URL are never seen.  Only workers
  write to the registry otherwise.\<close>

theorem poller_ends_with_init_context:
  assumes "gateway_main lib env = Ret (Started gw)" and "ge_init env \<le> ge_loaded env"
    and "reach (\<lambda>h. h = run_gateway gw) (gateway_step lib (gw_config gw) (gw_settings gw) env' envs) g"
  shows "(\<not> is_url (cfg_RegistryPath (gw_config gw)) \<longrightarrow> rn_reloads g = 0) \<and>
    (\<not> rn_slow g \<longrightarrow> rn_reloads g \<le> (if ge_init env < ge_loaded env then 1 else 2)) \<and>
    (\<forall>h. gateway_step lib (gw_config gw) (gw_settings gw) env' envs g h \<longrightarrow>
       w_reg (rn_world h) = w_reg (rn_world g) \<or> rn_reloads h = Suc (rn_reloads g) \<or>
       pool_step (gateway_engine lib (gw_config gw) (gw_settings gw)) env' (rn_pool g) (rn_pool h))"
proof -
  have "rn_reloads g = 0" if "\<not> is_url (cfg_RegistryPath (gw_config gw))"
    using file_reach [OF _ assms(3)] started_parts(3) [OF assms(1)] that by (simp add: run_gateway_def)
  with poll_bound [OF poller_inv_reach [OF assms(1,3)] assms(2)] gateway_step_reg show ?thesis by blast
qed

lemma poller_ends_witness:
  "\<exists>gw. gateway_main sample_lib url_start = Ret (Started gw) \<and> rn_poller (run_gateway gw) \<noteq> None \<and>
     (\<forall>g. reach (\<lambda>h. h = run_gateway gw) (gateway_step sample_lib (gw_config gw) (gw_settings gw) calm {sample_load}) g \<longrightarrow>
       rn_slow g \<or> rn_reloads g \<le> 1)"
proof -
  obtain gw where gw: "gateway_main sample_lib url_start = Ret (Started gw)"
    "gw_config gw = sample_config\<lparr>cfg_RegistryPath := ''http://vdr''\<rparr>" using url_starts by blast
  have "ge_init url_start = 0" "ge_loaded url_start = 1" by (simp_all add: url_start_def sample_start_def)
  moreover have "rn_poller (run_gateway gw) \<noteq> None"
    using started_parts(3) [OF gw(1)] gw(2) by (simp add: run_gateway_def is_url_def)
  ultimately show ?thesis
    using poller_ends_with_init_context [OF gw(1), of calm "{sample_load}"] gw(1)
    by (intro exI [of _ gw]) auto
qed

text \<open>C39: that context does not bound the loads themselves.  They do not look at it, and a load
  that lasts beyond the next tick leaves \<open>select\<close> to choose between the tick and the context: for a
  registry at a URL that was loaded within five seconds and then may hang or fail, a started
  gateway has runs with any number of reloads.\<close>

theorem slow_loads_outlive_context:
  assumes "gateway_main lib env = Ret (Started gw)" and "is_url (cfg_RegistryPath (gw_config gw))"
    and "ge_loaded env \<le> ge_init env + poll_interval" and "load \<in> envs" and "isl (env_http_Get load)"
  shows "\<exists>g. reach (\<lambda>h. h = run_gateway gw) (gateway_step lib (gw_config gw) (gw_settings gw) env' envs) g \<and>
    rn_reloads g = n"
proof -
  have "alive (run_gateway gw)" "rn_reloads (run_gateway gw) = 0"
    by (simp_all add: alive_def run_gateway_def start_concurrent_def start_system_def)
  moreover have "rn_poller (run_gateway gw) = Some (start_poller (ge_init env + init_timeout) (ge_loaded env))"
    "is_url (reg_path (w_reg (rn_world (run_gateway gw))))"
    using started_parts(2,3) [OF assms(1)] assms(2)
    by (simp_all add: run_gateway_def start_concurrent_def start_system_def)
  ultimately show ?thesis using slow_run [OF _ _ assms(3-5), of "run_gateway gw" lib "gw_config gw" "gw_settings gw" env' n]
    by simp
qed

lemma slow_loads_witness:
  "\<exists>gw g. gateway_main sample_lib url_start = Ret (Started gw) \<and>
     reach (\<lambda>h. h = run_gateway gw) (gateway_step sample_lib (gw_config gw) (gw_settings gw) calm
       {sample_load\<lparr>env_http_Get := Inl ErrNetwork\<rparr>}) g \<and> rn_reloads g = 1000"
proof -
  obtain gw where gw: "gateway_main sample_lib url_start = Ret (Started gw)"
    "gw_config gw = sample_config\<lparr>cfg_RegistryPath := ''http://vdr''\<rparr>" using url_starts by blast
  have "ge_loaded url_start \<le> ge_init url_start + poll_interval"
    by (simp add: url_start_def sample_start_def poll_interval_def)
  from slow_loads_outlive_context [OF gw(1) _ this, of "sample_load\<lparr>env_http_Get := Inl ErrNetwork\<rparr>"] gw
  show ?thesis by (auto simp: is_url_def)
qed

text \<open>C33: \<open>GET\<close> on the fetch endpoint, at a plain path, with a database that does not fail
  and timestamps in the order of insertion, answers 200 with all buffered items, in order, as
  one JSON array, and leaves the buffer empty; any other method is refused with 405 and leaves
  it alone, and so do both health probes.\<close>

theorem fetch_endpoint_drains:
  assumes "sql_order ord" and "healthy db" and "db_ok db" and "sorted_wrt (<) (map row_timestamp (db_rows db))"
    and "list_all (\<lambda>r. json_finite (row_payload r)) (db_rows db)" and "plain_route path"
    and "health_routes (NewHealthService cloud (Some (sqlite_buffer_ops ord)) path) = Ret routes"
  shows "let serve = serve_health (NewHealthService cloud (Some (sqlite_buffer_ops ord)) path) routes
    in (\<exists>db'. serve ''GET'' path c db =
          (db', \<lparr>rsp_status = 200, rsp_body = Document (JArr (map item_json (db_contents db)))\<rparr>) \<and>
          db_rows db' = []) \<and>
       (\<forall>m. m \<noteq> ''GET'' \<longrightarrow> serve m path c db = (db, reply 405 (''Method not allowed'' @ [CHR 0x0A]))) \<and>
       (\<forall>m. fst (serve m ''/health/live'' c db) = db \<and> fst (serve m ''/health/ready'' c db) = db)"
proof -
  let ?h = "NewHealthService cloud (Some (sqlite_buffer_ops ord)) path"
  have route: "go_get routes path = Some RouteFetch" "path \<notin> {''/health/live'', ''/health/ready''}"
    using assms(6,7) by (auto simp: health_routes_def NewHealthService_def plain_route_def split: if_splits)
  obtain db' where f: "Fetch ord db = (db', Inr (db_contents db))" "db_rows db' = []"
    using Fetch_monotone [OF assms(1-4)] by blast
  have fin: "\<forall>i \<in> set (db_contents db). json_finite (item_Payload i)"
    using assms(5) by (auto simp: db_contents_def row_item_def list_all_iff)
  have "handleFetch ?h ''GET'' db =
      (db', \<lparr>rsp_status = 200, rsp_body = Document (JArr (map item_json (db_contents db)))\<rparr>)"
    by (rule handleFetch_get [where ops = "sqlite_buffer_ops ord"]) (simp_all add: NewHealthService_def f fin)
  then have get: "serve_health ?h routes ''GET'' path c db =
      (db', \<lparr>rsp_status = 200, rsp_body = Document (JArr (map item_json (db_contents db)))\<rparr>)"
    using route by (simp add: serve_health_def)
  have post: "serve_health ?h routes m path c db = (db, reply 405 (''Method not allowed'' @ [CHR 0x0A]))"
    if "m \<noteq> ''GET''" for m
    using route that by (simp add: serve_health_def handleFetch_def)
  have probe: "fst (serve_health ?h routes m p c db) = db" if "p \<in> {''/health/live'', ''/health/ready''}" for m p
    using that serve_probes [of p ?h routes] route(2) assms(7) by (auto simp: NewHealthService_def)
  show ?thesis using get post f(2) probe by (auto simp: Let_def)
qed

lemma fetch_endpoint_witness:
  "\<exists>db'. serve_health (NewHealthService (azure_ops list_mqtt) (Some (sqlite_buffer_ops (sort_key row_timestamp))) ''/fetch'')
      [(''/health/live'', RouteLive), (''/health/ready'', RouteReady), (''/fetch'', RouteFetch)]
      ''GET'' ''/fetch'' (NewAzureMQTTClient ''hub'')
      (empty_db\<lparr>db_rows := [\<lparr>row_id = 1, row_timestamp = 3, row_data_type = ''telemetry'', row_payload = JNull\<rparr>], db_seq := 1\<rparr>) =
    (db', \<lparr>rsp_status = 200, rsp_body = Document (JArr [item_json
       \<lparr>item_Timestamp = 3, item_DataType = ''telemetry'', item_Payload = JNull\<rparr>])\<rparr>) \<and> db_rows db' = []"
proof -
  have "plain_route ''/fetch''" by code_simp
  then show ?thesis
    using fetch_endpoint_drains [OF sql_order_sort, of "empty_db\<lparr>db_rows := [\<lparr>row_id = 1, row_timestamp = 3,
      row_data_type = ''telemetry'', row_payload = JNull\<rparr>], db_seq := 1\<rparr>" "''/fetch''" "azure_ops list_mqtt"
      "[(''/health/live'', RouteLive), (''/health/ready'', RouteReady), (''/fetch'', RouteFetch)]" "NewAzureMQTTClient ''hub''"]
    by (simp add: healthy_def empty_db_def db_ok_def health_routes_def NewHealthService_def db_contents_def Let_def)
qed

end
